(* ===== verification/Errors.thy ===== *)
theory Errors
  imports Prelude
begin

section \<open>The exception hierarchies\<close>

text \<open>
  The exception classes of \<^verbatim>\<open>auth/trustlist_auth/errors.py\<close> and
  \<^verbatim>\<open>event-bus-sdk/trustlist_event_bus/errors.py\<close>, with the built-in and library classes
  the code raises or catches.  A raised exception is its class and its message.
  \<open>mro\<close> lists a class and its bases up to \<open>Exception\<close>, and \<open>catches\<close> is what an
  \<^verbatim>\<open>except (A, B):\<close> clause decides.
\<close>

datatype auth_error =
    AuthError | AuthenticationFailed | AccountDisabled | EmailNotVerified
  | SessionNotFound | SessionRevoked
  | TotpError | TotpNotEnrolled | TotpAlreadyEnrolled | TotpVerificationFailed
  | TokenError | TokenInvalid | TokenExpired
  | UnknownRole | UnknownPermission | RoleScopeError

datatype bus_error =
    EventBusError | BackPressureError | ProduceError | SchemaValidationError
  | SchemaRegistryError

text \<open>
  Built-in classes, and those of the libraries the code names in an \<open>except\<close> clause or
  meets as a database error.  \<open>OutsideFragment\<close> is no Python class: it marks an input on
  which the model says nothing (a JSON float, a code point past U+00FF); no theorem concludes
  that it is raised.
\<close>

datatype other_error =
    ValueError | UnicodeError | UnicodeEncodeError | UnicodeDecodeError | JSONDecodeError
  | BinasciiError | KeyError | TypeError | AttributeError | OverflowError | BufferError
  | AssertionError | RecursionError
  | KafkaException | ConfluentSRError | JsonSchemaValidationError
  | VerifyMismatchError | VerificationError | InvalidHashError
  | IntegrityError | DataError
  | OtherException | OutsideFragment

datatype exn_class = Exception | Auth auth_error | Bus bus_error | Other other_error

datatype exn = Exn (exn_class: exn_class) (exn_msg: string)

fun auth_mro :: "auth_error \<Rightarrow> auth_error list" where
  "auth_mro AuthError = [AuthError]"
| "auth_mro TotpNotEnrolled = [TotpNotEnrolled, TotpError, AuthError]"
| "auth_mro TotpAlreadyEnrolled = [TotpAlreadyEnrolled, TotpError, AuthError]"
| "auth_mro TotpVerificationFailed = [TotpVerificationFailed, TotpError, AuthError]"
| "auth_mro TokenInvalid = [TokenInvalid, TokenError, AuthError]"
| "auth_mro TokenExpired = [TokenExpired, TokenError, AuthError]"
| "auth_mro e = [e, AuthError]"

fun bus_mro :: "bus_error \<Rightarrow> bus_error list" where
  "bus_mro EventBusError = [EventBusError]"
| "bus_mro e = [e, EventBusError]"

text \<open>
  \<open>ValueError\<close>'s subclasses in the standard library are those of \<open>codecs\<close>, \<open>json\<close> and
  \<open>binascii\<close>; argon2's \<open>InvalidHashError\<close> is a \<open>ValueError\<close>, its
  \<open>VerifyMismatchError\<close> a \<open>VerificationError\<close>.
\<close>

fun other_mro :: "other_error \<Rightarrow> other_error list" where
  "other_mro UnicodeEncodeError = [UnicodeEncodeError, UnicodeError, ValueError]"
| "other_mro UnicodeDecodeError = [UnicodeDecodeError, UnicodeError, ValueError]"
| "other_mro UnicodeError = [UnicodeError, ValueError]"
| "other_mro JSONDecodeError = [JSONDecodeError, ValueError]"
| "other_mro BinasciiError = [BinasciiError, ValueError]"
| "other_mro InvalidHashError = [InvalidHashError, ValueError]"
| "other_mro VerifyMismatchError = [VerifyMismatchError, VerificationError]"
| "other_mro e = [e]"

fun mro :: "exn_class \<Rightarrow> exn_class list" where
  "mro Exception = [Exception]"
| "mro (Auth e) = map Auth (auth_mro e) @ [Exception]"
| "mro (Bus e) = map Bus (bus_mro e) @ [Exception]"
| "mro (Other e) = map Other (other_mro e) @ [Exception]"

definition catches :: "exn_class list \<Rightarrow> exn \<Rightarrow> bool" where
  "catches cs e \<longleftrightarrow> (\<exists>c \<in> set cs. c \<in> set (mro (exn_class e)))"

definition raises :: "exn + 'a \<Rightarrow> exn_class \<Rightarrow> bool" where
  "raises r c \<longleftrightarrow> (case r of Inl e \<Rightarrow> exn_class e = c | Inr _ \<Rightarrow> False)"

abbreviation value_error :: "string \<Rightarrow> exn" where
  "value_error \<equiv> Exn (Other ValueError)"

abbreviation type_error :: "string \<Rightarrow> exn" where
  "type_error \<equiv> Exn (Other TypeError)"

lemma raises_simps [simp]:
  "raises (Inl (Exn c m)) c' \<longleftrightarrow> c = c'"
  "\<not> raises (Inr x) c"
  by (simp_all add: raises_def)

lemma auth_mro_self [simp]: "e \<in> set (auth_mro e)"
  by (cases e) simp_all

lemma bus_mro_self [simp]: "e \<in> set (bus_mro e)"
  by (cases e) simp_all

lemma other_mro_self [simp]: "e \<in> set (other_mro e)"
  by (cases e) simp_all

lemma mro_self [simp]: "c \<in> set (mro c)"
  by (cases c) simp_all

lemma catches_Exception [simp]: "Exception \<in> set cs \<Longrightarrow> catches cs e"
  by (cases "exn_class e") (auto simp: catches_def intro!: bexI[of _ Exception])

lemma auth_mro_AuthError [simp]: "AuthError \<in> set (auth_mro e)"
  by (cases e) simp_all

lemma bus_mro_EventBusError [simp]: "EventBusError \<in> set (bus_mro e)"
  by (cases e) simp_all

text \<open>An application that catches the base class catches everything the library raises.\<close>

lemma catches_AuthError: "catches [Auth AuthError] (Exn (Auth e) m)"
  by (simp add: catches_def)

lemma catches_EventBusError: "catches [Bus EventBusError] (Exn (Bus e) m)"
  by (simp add: catches_def)

lemma catches_AuthError_iff:
  "catches [Auth AuthError] x \<longleftrightarrow> (\<exists>e m. x = Exn (Auth e) m)"
proof (cases x)
  case (Exn c m)
  show ?thesis
    by (cases c) (auto simp: Exn catches_def)
qed

lemma catches_EventBusError_iff:
  "catches [Bus EventBusError] x \<longleftrightarrow> (\<exists>e m. x = Exn (Bus e) m)"
proof (cases x)
  case (Exn c m)
  show ?thesis
    by (cases c) (auto simp: Exn catches_def)
qed

end
