(* ===== verification/Rbac.thy ===== *)
theory Rbac
  imports Errors Pystr
begin

section \<open>Role-based access control\<close>

text \<open>
  The pure RBAC framework of \<^verbatim>\<open>auth/trustlist_auth/rbac.py\<close>: archetypes, the common
  permission model, roles, the three archetype catalogues and permission resolution.  A frozen
  set of permissions is a set; the catalogue's \<open>roles\<close> dictionary keeps its insertion order;
  an iterable of role identifiers is a list in iteration order.  A dash of a description outside
  Latin-1 is written as two hyphens.
\<close>

subsection \<open>Archetypes and permissions\<close>

datatype archetype = OPERATOR | BRAND_CUSTOMER | FOUNDATION_INTERNAL

fun archetype_value :: "archetype \<Rightarrow> string" where
  "archetype_value OPERATOR = ''operator''"
| "archetype_value BRAND_CUSTOMER = ''brand_customer''"
| "archetype_value FOUNDATION_INTERNAL = ''foundation_internal''"

datatype permission =
    TEAM_MANAGE | ACCOUNT_MANAGE
  | DOMAIN_VIEW | EVIDENCE_SUBMIT | ATTESTATION_DEPLOY | DECISION_CONTEST
  | AUDIT_MANAGE | AUDIT_VIEW | CERTIFICATION_GENERATE | DATA_SOURCE_CONNECT
  | GOVERNANCE_VOTE | GOVERNANCE_OBSERVE | ADJUDICATION_REVIEW | PLATFORM_OPERATE
  | CODEBASE_MAINTAIN

fun permission_value :: "permission \<Rightarrow> string" where
  "permission_value TEAM_MANAGE = ''team:manage''"
| "permission_value ACCOUNT_MANAGE = ''account:manage''"
| "permission_value DOMAIN_VIEW = ''domain:view''"
| "permission_value EVIDENCE_SUBMIT = ''evidence:submit''"
| "permission_value ATTESTATION_DEPLOY = ''attestation:deploy''"
| "permission_value DECISION_CONTEST = ''decision:contest''"
| "permission_value AUDIT_MANAGE = ''audit:manage''"
| "permission_value AUDIT_VIEW = ''audit:view''"
| "permission_value CERTIFICATION_GENERATE = ''certification:generate''"
| "permission_value DATA_SOURCE_CONNECT = ''data_source:connect''"
| "permission_value GOVERNANCE_VOTE = ''governance:vote''"
| "permission_value GOVERNANCE_OBSERVE = ''governance:observe''"
| "permission_value ADJUDICATION_REVIEW = ''adjudication:review''"
| "permission_value PLATFORM_OPERATE = ''platform:operate''"
| "permission_value CODEBASE_MAINTAIN = ''codebase:maintain''"

definition all_permissions :: "permission list" where
  "all_permissions =
     [TEAM_MANAGE, ACCOUNT_MANAGE, DOMAIN_VIEW, EVIDENCE_SUBMIT, ATTESTATION_DEPLOY,
      DECISION_CONTEST, AUDIT_MANAGE, AUDIT_VIEW, CERTIFICATION_GENERATE, DATA_SOURCE_CONNECT,
      GOVERNANCE_VOTE, GOVERNANCE_OBSERVE, ADJUDICATION_REVIEW, PLATFORM_OPERATE,
      CODEBASE_MAINTAIN]"

text \<open>\<open>Permission(permission)\<close>: the enum member with this value, or \<open>ValueError\<close>.\<close>

definition permission_of_value :: "string \<Rightarrow> exn + permission" where
  "permission_of_value s =
     (case List.find (\<lambda>p. permission_value p = s) all_permissions of
        Some p \<Rightarrow> Inr p
      | None \<Rightarrow> Inl (value_error (py_repr s @ '' is not a valid Permission'')))"

definition validate_permission :: "string \<Rightarrow> exn + permission" where
  "validate_permission s =
     (case permission_of_value s of
        Inr p \<Rightarrow> Inr p
      | Inl e \<Rightarrow>
          if catches [Other ValueError] e
          then Inl (Exn (Auth UnknownPermission)
                 (py_repr s @ '' is not a permission in the common model''))
          else Inl e)"

subsection \<open>Roles and catalogues\<close>

record role =
  role_identifier :: string
  role_archetype :: archetype
  permissions :: "permission set"
  role_description :: string
  feature_flagged_off :: bool

definition grants :: "role \<Rightarrow> permission \<Rightarrow> bool" where
  "grants r p \<longleftrightarrow> p \<in> permissions r"

record role_catalogue =
  cat_archetype :: archetype
  roles :: "(string, role) dict"

text \<open>The loop of \<open>__post_init__\<close>, in dictionary order.\<close>

fun post_init_check :: "archetype \<Rightarrow> (string \<times> role) list \<Rightarrow> exn + unit" where
  "post_init_check a [] = Inr ()"
| "post_init_check a ((i, r) # rs) =
     (if role_identifier r \<noteq> i
      then Inl (value_error (''role keyed as '' @ py_repr i @ '' has identifier ''
             @ py_repr (role_identifier r)))
      else if role_archetype r \<noteq> a
      then Inl (value_error (''role '' @ py_repr i @ '' is pinned to ''
             @ archetype_value (role_archetype r) @ '' but sits in the ''
             @ archetype_value a @ '' catalogue''))
      else post_init_check a rs)"

text \<open>\<open>RoleCatalogue(archetype, roles)\<close>: the constructor with its validation.\<close>

definition RoleCatalogue :: "archetype \<Rightarrow> (string, role) dict \<Rightarrow> exn + role_catalogue" where
  "RoleCatalogue a rs =
     bindE (post_init_check a rs) (\<lambda>_. Inr \<lparr>cat_archetype = a, roles = rs\<rparr>)"

definition cat_get :: "role_catalogue \<Rightarrow> string \<Rightarrow> exn + role" where
  "cat_get c i =
     (case map_of (roles c) i of
        Some r \<Rightarrow> Inr r
      | None \<Rightarrow> Inl (Exn (Auth UnknownRole)
          (py_repr i @ '' is not a role in the '' @ archetype_value (cat_archetype c)
             @ '' catalogue'')))"

definition cat_has :: "role_catalogue \<Rightarrow> string \<Rightarrow> bool" where
  "cat_has c i \<longleftrightarrow> i \<in> fst ` set (roles c)"

definition active_role_identifiers :: "role_catalogue \<Rightarrow> string set" where
  "active_role_identifiers c =
     {i. \<exists>(j, r) \<in> set (roles c). i = j \<and> \<not> feature_flagged_off r}"

text \<open>The loop of \<open>resolve_permissions\<close>; \<open>resolved\<close> is the accumulated set.\<close>

fun resolve_from ::
  "role_catalogue \<Rightarrow> permission set \<Rightarrow> string list \<Rightarrow> exn + permission set" where
  "resolve_from c resolved [] = Inr resolved"
| "resolve_from c resolved (i # ids) =
     bindE (cat_get c i) (\<lambda>r.
       if feature_flagged_off r then resolve_from c resolved ids
       else resolve_from c (resolved \<union> permissions r) ids)"

definition resolve_permissions ::
  "role_catalogue \<Rightarrow> string list \<Rightarrow> exn + permission set" where
  "resolve_permissions c ids = resolve_from c {} ids"

definition cat_has_permission ::
  "role_catalogue \<Rightarrow> string list \<Rightarrow> permission \<Rightarrow> exn + bool" where
  "cat_has_permission c ids p = bindE (resolve_permissions c ids) (\<lambda>ps. Inr (p \<in> ps))"

subsection \<open>Catalogue construction\<close>

definition mk_role ::
  "string \<Rightarrow> archetype \<Rightarrow> permission list \<Rightarrow> string \<Rightarrow> bool \<Rightarrow> role" where
  "mk_role i a ps d off =
     \<lparr>role_identifier = i, role_archetype = a, permissions = set ps, role_description = d,
      feature_flagged_off = off\<rparr>"

definition catalogue :: "archetype \<Rightarrow> role list \<Rightarrow> exn + role_catalogue" where
  "catalogue a rs = RoleCatalogue a (dict_of (map (\<lambda>r. (role_identifier r, r)) rs))"

definition operator_roles :: "role list" where
  "operator_roles =
     [mk_role ''owner'' OPERATOR
        [ACCOUNT_MANAGE, TEAM_MANAGE, DOMAIN_VIEW, EVIDENCE_SUBMIT, ATTESTATION_DEPLOY,
         DECISION_CONTEST]
        ''Account owner -- full control including account-level settings.'' False,
      mk_role ''admin'' OPERATOR
        [TEAM_MANAGE, DOMAIN_VIEW, EVIDENCE_SUBMIT, ATTESTATION_DEPLOY, DECISION_CONTEST]
        ''Administrator -- manages the team and all operator workflows.'' False,
      mk_role ''operator'' OPERATOR
        [DOMAIN_VIEW, EVIDENCE_SUBMIT, ATTESTATION_DEPLOY, DECISION_CONTEST]
        (''Operator -- the default workhorse role; full domain workflows, ''
         @ ''no team administration.'') False,
      mk_role ''read_only'' OPERATOR [DOMAIN_VIEW]
        ''Read-only -- views scores and signals, makes no changes.'' False]"

definition brand_customer_roles :: "role list" where
  "brand_customer_roles =
     [mk_role ''owner'' BRAND_CUSTOMER
        [ACCOUNT_MANAGE, TEAM_MANAGE, AUDIT_MANAGE, AUDIT_VIEW, CERTIFICATION_GENERATE,
         DATA_SOURCE_CONNECT]
        ''Account owner -- full control including account-level settings.'' False,
      mk_role ''admin'' BRAND_CUSTOMER
        [TEAM_MANAGE, AUDIT_MANAGE, AUDIT_VIEW, CERTIFICATION_GENERATE, DATA_SOURCE_CONNECT]
        ''Administrator -- manages the team and all brand-customer workflows.'' False,
      mk_role ''operator'' BRAND_CUSTOMER
        [AUDIT_MANAGE, AUDIT_VIEW, CERTIFICATION_GENERATE, DATA_SOURCE_CONNECT]
        (''Operator -- the default workhorse role; runs audits and ''
         @ ''certifications, no team administration. Same name as the ''
         @ ''operator-archetype Operator role but a distinct scope.'') False,
      mk_role ''analyst'' BRAND_CUSTOMER
        [AUDIT_MANAGE, AUDIT_VIEW, CERTIFICATION_GENERATE]
        ''Analyst -- runs and interprets audits; cannot connect data sources.'' False,
      mk_role ''read_only'' BRAND_CUSTOMER [AUDIT_VIEW]
        ''Read-only -- views audit results, makes no changes.'' False]"

definition foundation_internal_roles :: "role list" where
  "foundation_internal_roles =
     [mk_role ''maintainer'' FOUNDATION_INTERNAL [CODEBASE_MAINTAIN, PLATFORM_OPERATE]
        (''Foundation maintainer -- open-source codebase maintainer. Active ''
         @ ''at Stage 0.'') False,
      mk_role ''ops_staff'' FOUNDATION_INTERNAL [PLATFORM_OPERATE]
        (''Foundation operations staff -- incorporation, partnership and ''
         @ ''community work. Active at Stage 0.'') False,
      mk_role ''trust_council_voting'' FOUNDATION_INTERNAL
        [GOVERNANCE_VOTE, GOVERNANCE_OBSERVE]
        (''Trust Council voting member. Feature-flagged off until Foundation ''
         @ ''incorporation and Trust Council seating.'') True,
      mk_role ''trust_council_observer'' FOUNDATION_INTERNAL [GOVERNANCE_OBSERVE]
        (''Trust Council observer (IAB-SA, commercial-entity). ''
         @ ''Feature-flagged off until Trust Council seating.'') True,
      mk_role ''adjudicator'' FOUNDATION_INTERNAL [ADJUDICATION_REVIEW]
        (''Designated adjudicator -- staffs the contestation review queue. ''
         @ ''Feature-flagged off until Foundation incorporation.'') True]"

text \<open>
  The module-level constants are what \<open>catalogue\<close> returns; \<open>catalogues_import\<close> below
  shows that it does return for each, so \<open>projr\<close> is only taken of an \<open>Inr\<close>.
\<close>

definition OPERATOR_CATALOGUE :: role_catalogue where
  "OPERATOR_CATALOGUE = projr (catalogue OPERATOR operator_roles)"

definition BRAND_CUSTOMER_CATALOGUE :: role_catalogue where
  "BRAND_CUSTOMER_CATALOGUE = projr (catalogue BRAND_CUSTOMER brand_customer_roles)"

definition FOUNDATION_INTERNAL_CATALOGUE :: role_catalogue where
  "FOUNDATION_INTERNAL_CATALOGUE =
     projr (catalogue FOUNDATION_INTERNAL foundation_internal_roles)"

fun catalogue_for :: "archetype \<Rightarrow> role_catalogue" where
  "catalogue_for OPERATOR = OPERATOR_CATALOGUE"
| "catalogue_for BRAND_CUSTOMER = BRAND_CUSTOMER_CATALOGUE"
| "catalogue_for FOUNDATION_INTERNAL = FOUNDATION_INTERNAL_CATALOGUE"

subsection \<open>The constants evaluated\<close>

lemma operator_catalogue_import:
  "catalogue OPERATOR operator_roles =
     Inr \<lparr>cat_archetype = OPERATOR, roles = map (\<lambda>r. (role_identifier r, r)) operator_roles\<rparr>"
  by (simp add: catalogue_def RoleCatalogue_def dict_of_distinct operator_roles_def mk_role_def)

lemma brand_customer_catalogue_import:
  "catalogue BRAND_CUSTOMER brand_customer_roles =
     Inr \<lparr>cat_archetype = BRAND_CUSTOMER,
          roles = map (\<lambda>r. (role_identifier r, r)) brand_customer_roles\<rparr>"
  by (simp add: catalogue_def RoleCatalogue_def dict_of_distinct brand_customer_roles_def
      mk_role_def)

lemma foundation_internal_catalogue_import:
  "catalogue FOUNDATION_INTERNAL foundation_internal_roles =
     Inr \<lparr>cat_archetype = FOUNDATION_INTERNAL,
          roles = map (\<lambda>r. (role_identifier r, r)) foundation_internal_roles\<rparr>"
  by (simp add: catalogue_def RoleCatalogue_def dict_of_distinct foundation_internal_roles_def
      mk_role_def)

fun roles_of :: "archetype \<Rightarrow> role list" where
  "roles_of OPERATOR = operator_roles"
| "roles_of BRAND_CUSTOMER = brand_customer_roles"
| "roles_of FOUNDATION_INTERNAL = foundation_internal_roles"

lemma catalogue_for_eq:
  "catalogue_for a =
     \<lparr>cat_archetype = a, roles = map (\<lambda>r. (role_identifier r, r)) (roles_of a)\<rparr>"
  by (cases a)
     (simp_all add: OPERATOR_CATALOGUE_def BRAND_CUSTOMER_CATALOGUE_def
       FOUNDATION_INTERNAL_CATALOGUE_def operator_catalogue_import
       brand_customer_catalogue_import foundation_internal_catalogue_import)

lemmas role_lists =
  operator_roles_def brand_customer_roles_def foundation_internal_roles_def mk_role_def

declare catalogue_for.simps [simp del]

lemma cat_archetype_catalogue_for [simp]: "cat_archetype (catalogue_for a) = a"
  by (simp add: catalogue_for_eq)

subsection \<open>Construction and lookup\<close>

lemma post_init_check_Inr:
  "post_init_check a rs = Inr u \<longleftrightarrow>
     list_all (\<lambda>(i, r). role_identifier r = i \<and> role_archetype r = a) rs"
  by (induction a rs rule: post_init_check.induct) auto

lemma post_init_check_raises:
  "post_init_check a rs = Inl e \<Longrightarrow> exn_class e = Other ValueError"
  by (induction a rs rule: post_init_check.induct) (auto split: if_splits)

lemma cat_has_iff_get: "cat_has c i \<longleftrightarrow> isl (cat_get c i) = False"
  by (auto simp: cat_has_def cat_get_def image_iff split: option.splits
      dest: map_of_SomeD weak_map_of_SomeI)
     (metis fst_conv map_of_eq_None_iff option.distinct(1) image_iff)

lemma cat_get_cases:
  obtains (known) r where "cat_has c i" "map_of (roles c) i = Some r" "cat_get c i = Inr r"
    | (unknown) m where "\<not> cat_has c i" "cat_get c i = Inl (Exn (Auth UnknownRole) m)"
proof (cases "map_of (roles c) i")
  case None
  then have "\<not> cat_has c i" by (simp add: cat_has_def map_of_eq_None_iff)
  with None show ?thesis using unknown by (auto simp: cat_get_def)
next
  case (Some r)
  then have "cat_has c i" by (force simp: cat_has_def dest: map_of_SomeD)
  with Some show ?thesis using known by (auto simp: cat_get_def)
qed

subsection \<open>Permission resolution\<close>

text \<open>The permissions a held identifier contributes: none when its role is flagged off.\<close>

definition role_effect :: "role_catalogue \<Rightarrow> string \<Rightarrow> permission set" where
  "role_effect c i =
     (case map_of (roles c) i of
        Some r \<Rightarrow> (if feature_flagged_off r then {} else permissions r)
      | None \<Rightarrow> {})"

lemma resolve_from_known:
  "list_all (cat_has c) ids \<Longrightarrow>
     resolve_from c acc ids = Inr (acc \<union> \<Union> (role_effect c ` set ids))"
proof (induction ids arbitrary: acc)
  case Nil
  then show ?case by simp
next
  case (Cons i ids)
  show ?case
  proof (cases rule: cat_get_cases [of c i])
    case (known r)
    with Cons show ?thesis by (auto simp: role_effect_def)
  next
    case unknown
    with Cons.prems show ?thesis by simp
  qed
qed

lemma resolve_from_unknown:
  "\<not> list_all (cat_has c) ids \<Longrightarrow>
     \<exists>m. resolve_from c acc ids = Inl (Exn (Auth UnknownRole) m)"
proof (induction ids arbitrary: acc)
  case Nil
  then show ?case by simp
next
  case (Cons i ids)
  show ?case
  proof (cases rule: cat_get_cases [of c i])
    case (known r)
    with Cons show ?thesis by simp
  next
    case unknown
    then show ?thesis by simp
  qed
qed

lemma resolve_permissions_Inr:
  "resolve_permissions c ids = Inr ps \<longleftrightarrow>
     list_all (cat_has c) ids \<and> ps = \<Union> (role_effect c ` set ids)"
proof (cases "list_all (cat_has c) ids")
  case True
  then show ?thesis
    by (auto simp: resolve_permissions_def resolve_from_known)
next
  case False
  then show ?thesis
    using resolve_from_unknown [of c ids "{}"] by (auto simp: resolve_permissions_def)
qed

lemma cat_has_permission_Inr:
  "cat_has_permission c ids p = Inr b \<longleftrightarrow>
     list_all (cat_has c) ids \<and> b = (\<exists>i \<in> set ids. p \<in> role_effect c i)"
  by (auto simp: cat_has_permission_def resolve_permissions_Inr)

text \<open>Which identifiers each archetype's catalogue knows, and what they confer.\<close>

lemma cat_has_catalogue_for:
  "cat_has (catalogue_for a) i \<longleftrightarrow> i \<in> role_identifier ` set (roles_of a)"
  by (simp add: cat_has_def catalogue_for_eq image_image)

lemma role_effect_operator:
  "role_effect (catalogue_for OPERATOR) i =
     (if i = ''owner'' then {ACCOUNT_MANAGE, TEAM_MANAGE, DOMAIN_VIEW, EVIDENCE_SUBMIT,
        ATTESTATION_DEPLOY, DECISION_CONTEST}
      else if i = ''admin'' then {TEAM_MANAGE, DOMAIN_VIEW, EVIDENCE_SUBMIT,
        ATTESTATION_DEPLOY, DECISION_CONTEST}
      else if i = ''operator'' then {DOMAIN_VIEW, EVIDENCE_SUBMIT, ATTESTATION_DEPLOY,
        DECISION_CONTEST}
      else if i = ''read_only'' then {DOMAIN_VIEW} else {})"
  by (simp add: role_effect_def catalogue_for_eq role_lists)

lemma role_effect_brand_customer:
  "role_effect (catalogue_for BRAND_CUSTOMER) i =
     (if i = ''owner'' then {ACCOUNT_MANAGE, TEAM_MANAGE, AUDIT_MANAGE, AUDIT_VIEW,
        CERTIFICATION_GENERATE, DATA_SOURCE_CONNECT}
      else if i = ''admin'' then {TEAM_MANAGE, AUDIT_MANAGE, AUDIT_VIEW,
        CERTIFICATION_GENERATE, DATA_SOURCE_CONNECT}
      else if i = ''operator'' then {AUDIT_MANAGE, AUDIT_VIEW, CERTIFICATION_GENERATE,
        DATA_SOURCE_CONNECT}
      else if i = ''analyst'' then {AUDIT_MANAGE, AUDIT_VIEW, CERTIFICATION_GENERATE}
      else if i = ''read_only'' then {AUDIT_VIEW} else {})"
  by (simp add: role_effect_def catalogue_for_eq role_lists)

lemma role_effect_foundation:
  "role_effect (catalogue_for FOUNDATION_INTERNAL) i =
     (if i = ''maintainer'' then {CODEBASE_MAINTAIN, PLATFORM_OPERATE}
      else if i = ''ops_staff'' then {PLATFORM_OPERATE} else {})"
  by (simp add: role_effect_def catalogue_for_eq role_lists)

lemmas role_effects = role_effect_operator role_effect_brand_customer role_effect_foundation

subsection \<open>Properties\<close>

text \<open>
  Importing the module never raises: each of the three catalogue declarations passes the
  validation of the constructor, and the module constants are its results.
\<close>

theorem catalogues_import:
  "catalogue OPERATOR operator_roles = Inr OPERATOR_CATALOGUE \<and>
   catalogue BRAND_CUSTOMER brand_customer_roles = Inr BRAND_CUSTOMER_CATALOGUE \<and>
   catalogue FOUNDATION_INTERNAL foundation_internal_roles = Inr FOUNDATION_INTERNAL_CATALOGUE"
  by (simp add: OPERATOR_CATALOGUE_def BRAND_CUSTOMER_CATALOGUE_def
      FOUNDATION_INTERNAL_CATALOGUE_def operator_catalogue_import
      brand_customer_catalogue_import foundation_internal_catalogue_import)

text \<open>
  A catalogue can be constructed exactly when every role is filed under its own identifier
  and pinned to the catalogue's archetype; otherwise the constructor raises \<open>ValueError\<close>.
\<close>

theorem RoleCatalogue_iff:
  "if list_all (\<lambda>(i, r). role_identifier r = i \<and> role_archetype r = a) rs
   then RoleCatalogue a rs = Inr \<lparr>cat_archetype = a, roles = rs\<rparr>
   else raises (RoleCatalogue a rs) (Other ValueError)"
proof (cases "post_init_check a rs")
  case (Inl e)
  then have "\<not> list_all (\<lambda>(i, r). role_identifier r = i \<and> role_archetype r = a) rs"
    using post_init_check_Inr [of a rs "()"] by auto
  with Inl post_init_check_raises [OF Inl] show ?thesis
    by (cases e) (simp add: RoleCatalogue_def)
next
  case (Inr u)
  then have "list_all (\<lambda>(i, r). role_identifier r = i \<and> role_archetype r = a) rs"
    using post_init_check_Inr [of a rs u] by simp
  with Inr show ?thesis by (simp add: RoleCatalogue_def)
qed

text \<open>
  Permission resolution is the union of the permissions of the held roles that are not
  feature-flagged off, whatever the order and repetition of the identifiers; it raises
  \<open>UnknownRole\<close> exactly when an identifier is not in the catalogue.
\<close>

theorem resolve_permissions_spec:
  "(if list_all (cat_has c) ids
    then resolve_permissions c ids =
           Inr {p. \<exists>i r. i \<in> set ids \<and> map_of (roles c) i = Some r \<and>
                  \<not> feature_flagged_off r \<and> p \<in> permissions r}
    else raises (resolve_permissions c ids) (Auth UnknownRole))"
proof (cases "list_all (cat_has c) ids")
  case True
  have "\<Union> (role_effect c ` set ids) =
      {p. \<exists>i r. i \<in> set ids \<and> map_of (roles c) i = Some r \<and> \<not> feature_flagged_off r \<and>
         p \<in> permissions r}"
    by (auto simp: role_effect_def split: option.splits if_splits)
  with True show ?thesis by (simp add: resolve_permissions_Inr)
next
  case False
  then show ?thesis
    using resolve_from_unknown [of c ids "{}"] by (auto simp: resolve_permissions_def)
qed

text \<open>
  No set of Foundation-internal roles confers a governance or adjudication permission at
  Stage 0: whatever roles are held, only the maintainer's and the operations staff's
  permissions are in effect.
\<close>

theorem foundation_roles_gated:
  assumes "resolve_permissions (catalogue_for FOUNDATION_INTERNAL) ids = Inr ps"
  shows "ps \<subseteq> {CODEBASE_MAINTAIN, PLATFORM_OPERATE}"
  using assms by (auto simp: resolve_permissions_Inr role_effects split: if_splits)

theorem foundation_roles_gated_witness:
  "resolve_permissions (catalogue_for FOUNDATION_INTERNAL)
     [''adjudicator'', ''trust_council_voting'', ''ops_staff''] = Inr {PLATFORM_OPERATE} \<and>
   {PLATFORM_OPERATE} \<subseteq> {CODEBASE_MAINTAIN, PLATFORM_OPERATE}"
proof -
  have "resolve_permissions (catalogue_for FOUNDATION_INTERNAL)
      [''adjudicator'', ''trust_council_voting'', ''ops_staff''] = Inr {PLATFORM_OPERATE}"
    by (simp add: resolve_permissions_Inr cat_has_catalogue_for role_lists role_effects)
  then show ?thesis using foundation_roles_gated by blast
qed

text \<open>
  The built-in roles nest: each operator role and each brand-customer role confers strictly
  less than the one above it, from read-only up to the owner.
\<close>

theorem built_in_roles_nest:
  "\<exists>r u a w r' n' u' a' w'.
     map (\<lambda>i. resolve_permissions (catalogue_for OPERATOR) [i])
       [''read_only'', ''operator'', ''admin'', ''owner''] = [Inr r, Inr u, Inr a, Inr w] \<and>
     r \<subset> u \<and> u \<subset> a \<and> a \<subset> w \<and>
     map (\<lambda>i. resolve_permissions (catalogue_for BRAND_CUSTOMER) [i])
       [''read_only'', ''analyst'', ''operator'', ''admin'', ''owner'']
       = [Inr r', Inr n', Inr u', Inr a', Inr w'] \<and>
     r' \<subset> n' \<and> n' \<subset> u' \<and> u' \<subset> a' \<and> a' \<subset> w'"
  by (simp add: resolve_permissions_Inr cat_has_catalogue_for role_lists role_effects
      psubset_eq) auto

text \<open>
  The catalogues respect the trust boundary: a permission in effect under two different
  archetypes is account or team administration, and the Foundation-internal catalogue shares
  none with the others.
\<close>

theorem archetype_permissions_separated:
  assumes "a \<noteq> b"
    and "resolve_permissions (catalogue_for a) ids = Inr ps"
    and "resolve_permissions (catalogue_for b) jds = Inr qs"
    and "p \<in> ps" and "p \<in> qs"
  shows "p \<in> {TEAM_MANAGE, ACCOUNT_MANAGE} \<and> a \<noteq> FOUNDATION_INTERNAL \<and> b \<noteq> FOUNDATION_INTERNAL"
proof -
  from assms(2,4) obtain i where "p \<in> role_effect (catalogue_for a) i"
    by (auto simp: resolve_permissions_Inr)
  moreover from assms(3,5) obtain j where "p \<in> role_effect (catalogue_for b) j"
    by (auto simp: resolve_permissions_Inr)
  ultimately show ?thesis using assms(1)
    by (cases a; cases b) (auto simp: role_effects split: if_splits)
qed

theorem archetype_permissions_separated_witness:
  "TEAM_MANAGE \<in> {TEAM_MANAGE, ACCOUNT_MANAGE} \<and> OPERATOR \<noteq> FOUNDATION_INTERNAL \<and>
     BRAND_CUSTOMER \<noteq> FOUNDATION_INTERNAL"
  by (rule archetype_permissions_separated [where ids = "[''admin'']" and jds = "[''admin'']"
        and ps = "role_effect (catalogue_for OPERATOR) ''admin''"
        and qs = "role_effect (catalogue_for BRAND_CUSTOMER) ''admin''"])
     (simp_all add: resolve_permissions_Inr cat_has_catalogue_for role_lists role_effects)

text \<open>
  Coercing a string to a permission inverts \<open>Permission.value\<close>: the strings of the
  common model give back their permission and every other string raises
  \<open>UnknownPermission\<close>.
\<close>

theorem validate_permission_iff:
  "(validate_permission s = Inr p \<longleftrightarrow> s = permission_value p) \<and>
   (isl (validate_permission s) = raises (validate_permission s) (Auth UnknownPermission))"
proof -
  have "validate_permission (permission_value q) = Inr q" for q
    by (cases q)
       (simp_all add: validate_permission_def permission_of_value_def all_permissions_def)
  moreover have "validate_permission s = Inr q \<Longrightarrow> s = permission_value q" for q
    by (auto simp: validate_permission_def permission_of_value_def find_Some_iff
        split: sum.splits option.splits if_splits)
  moreover have "isl (validate_permission s) =
      raises (validate_permission s) (Auth UnknownPermission)"
    by (auto simp: validate_permission_def permission_of_value_def catches_def
        split: sum.splits option.splits)
  ultimately show ?thesis by auto
qed

end
