(* ===== verification/Json.thy ===== *)
theory Json
  imports Errors Pystr
begin

section \<open>Values and their JSON text\<close>

text \<open>
  The dynamically typed values the code passes to and gets from \<open>json\<close>, and the text
  \<open>json.dumps\<close> renders for them with its default \<open>ensure_ascii\<close>: the short escapes for
  the quote, the backslash and five control characters, \<open>\u00XX\<close> for every other character
  outside the printable ASCII range.  \<open>PObj s\<close> is an object \<open>json\<close> does not know whose
  \<open>str()\<close> is \<open>s\<close>; without a \<open>default\<close> hook it is a \<open>TypeError\<close>.  Floats are
  left out, and dictionary keys are strings, as every annotation of the code has them.
\<close>

datatype pyval =
    PNone
  | PBool bool
  | PInt int
  | PStr string
  | PList "pyval list"
  | PDict "(string \<times> pyval) list"
  | PObj string

subsection \<open>Decimal numerals\<close>

definition digit_char :: "nat \<Rightarrow> char" where
  "digit_char n = char_of (48 + n)"

fun str_of_nat :: "nat \<Rightarrow> string" where
  "str_of_nat n =
     (if n < 10 then [digit_char n] else str_of_nat (n div 10) @ [digit_char (n mod 10)])"

declare str_of_nat.simps [simp del]

definition str_of_int :: "int \<Rightarrow> string" where
  "str_of_int i = (if i < 0 then CHR ''-'' # str_of_nat (nat (- i)) else str_of_nat (nat i))"

subsection \<open>Rendering\<close>

definition esc_char :: "char \<Rightarrow> string" where
  "esc_char c =
     (let n = code c
      in if n = 34 then [CHR 0x5C, CHR 0x22]
         else if n = 92 then [CHR 0x5C, CHR 0x5C]
         else if n = 8 then [CHR 0x5C, CHR ''b'']
         else if n = 12 then [CHR 0x5C, CHR ''f'']
         else if n = 10 then [CHR 0x5C, CHR ''n'']
         else if n = 13 then [CHR 0x5C, CHR ''r'']
         else if n = 9 then [CHR 0x5C, CHR ''t'']
         else if 32 \<le> n \<and> n \<le> 126 then [c]
         else [CHR 0x5C, CHR ''u'', CHR ''0'', CHR ''0'', hex_digit (n div 16),
               hex_digit (n mod 16)])"

definition enc_str :: "string \<Rightarrow> string" where
  "enc_str s = CHR 0x22 # concat (map esc_char s) @ [CHR 0x22]"

text \<open>The text for given item and key separators; \<open>PObj\<close> as \<open>default=str\<close> has it.\<close>

fun enc :: "string \<Rightarrow> string \<Rightarrow> pyval \<Rightarrow> string" where
  "enc is ks PNone = ''null''"
| "enc is ks (PBool b) = (if b then ''true'' else ''false'')"
| "enc is ks (PInt i) = str_of_int i"
| "enc is ks (PStr s) = enc_str s"
| "enc is ks (PList vs) = ''['' @ str_join is (map (enc is ks) vs) @ '']''"
| "enc is ks (PDict kvs) =
     ''{'' @ str_join is (map (\<lambda>(k, v). enc_str k @ ks @ enc is ks v) kvs) @ ''}''"
| "enc is ks (PObj s) = enc_str s"

fun jsonable :: "pyval \<Rightarrow> bool" where
  "jsonable (PList vs) = list_all jsonable vs"
| "jsonable (PDict kvs) = list_all (\<lambda>(k, v). jsonable v) kvs"
| "jsonable (PObj s) = False"
| "jsonable _ = True"

text \<open>\<open>json.dumps(v)\<close> with the default separators, and with \<open>separators=(",", ":")\<close>.\<close>

definition json_dumps :: "pyval \<Rightarrow> exn + string" where
  "json_dumps v =
     (if jsonable v then Inr (enc '', '' '': '' v)
      else Inl (type_error ''Object is not JSON serializable''))"

definition json_dumps_compact :: "pyval \<Rightarrow> exn + string" where
  "json_dumps_compact v =
     (if jsonable v then Inr (enc '','' '':'' v)
      else Inl (type_error ''Object is not JSON serializable''))"

text \<open>\<open>sort_keys=True\<close>: every dictionary rendered with its keys in code-point order.\<close>

fun sort_keys :: "pyval \<Rightarrow> pyval" where
  "sort_keys (PList vs) = PList (map sort_keys vs)"
| "sort_keys (PDict kvs) = PDict (sort_key fst (map (\<lambda>(k, v). (k, sort_keys v)) kvs))"
| "sort_keys v = v"

text \<open>
  Values as Python has them: the keys of a dictionary are distinct, and an integer is within
  CPython's limit of 4300 digits for conversion from and to text.
\<close>

fun wf_val :: "pyval \<Rightarrow> bool" where
  "wf_val (PInt i) = (length (str_of_nat (nat \<bar>i\<bar>)) \<le> 4300)"
| "wf_val (PList vs) = list_all wf_val vs"
| "wf_val (PDict kvs) = (distinct (map fst kvs) \<and> list_all (\<lambda>(k, v). wf_val v) kvs)"
| "wf_val _ = True"

subsection \<open>Parsing\<close>

text \<open>
  \<open>json.loads\<close> on a \<open>str\<close>.  A parsing function returns the value and the rest of the
  text; the three functions on values, array items and object members call each other with one
  unit of fuel less, and \<open>json_loads\<close> starts them with enough for any text of that length
  (\<open>json_fuel\<close> below).  A float literal, \<open>NaN\<close>, \<open>Infinity\<close> and an escape past U+00FF
  are \<open>OutsideFragment\<close>; the messages of \<open>JSONDecodeError\<close> are left out.
\<close>

definition decode_error :: exn where
  "decode_error = Exn (Other JSONDecodeError) []"

definition outside :: exn where
  "outside = Exn (Other OutsideFragment) []"

definition json_ws :: "char \<Rightarrow> bool" where
  "json_ws c \<longleftrightarrow> c \<in> {CHR 0x20, CHR 0x09, CHR 0x0A, CHR 0x0D}"

abbreviation skip_ws :: "string \<Rightarrow> string" where
  "skip_ws \<equiv> dropWhile json_ws"

definition ascii_digit :: "char \<Rightarrow> bool" where
  "ascii_digit c \<longleftrightarrow> 48 \<le> code c \<and> code c \<le> 57"

definition hex_value :: "char \<Rightarrow> nat option" where
  "hex_value c =
     (let n = code c
      in if 48 \<le> n \<and> n \<le> 57 then Some (n - 48)
         else if 97 \<le> n \<and> n \<le> 102 then Some (n - 87)
         else if 65 \<le> n \<and> n \<le> 70 then Some (n - 55)
         else None)"

definition hex4 :: "char \<Rightarrow> char \<Rightarrow> char \<Rightarrow> char \<Rightarrow> nat option" where
  "hex4 a b c d =
     (case (hex_value a, hex_value b, hex_value c, hex_value d) of
        (Some w, Some x, Some y, Some z) \<Rightarrow> Some (4096 * w + 256 * x + 16 * y + z)
      | _ \<Rightarrow> None)"

definition short_escape :: "char \<Rightarrow> char option" where
  "short_escape c =
     map_of [(CHR 0x22, CHR 0x22), (CHR 0x5C, CHR 0x5C), (CHR ''/'', CHR ''/''),
             (CHR ''b'', CHR 0x08), (CHR ''f'', CHR 0x0C), (CHR ''n'', CHR 0x0A),
             (CHR ''r'', CHR 0x0D), (CHR ''t'', CHR 0x09)] c"

definition push_char :: "char \<Rightarrow> exn + string \<times> string \<Rightarrow> exn + string \<times> string" where
  "push_char c r = bindE r (\<lambda>(s, rest). Inr (c # s, rest))"

text \<open>The text after an opening quote, up to the closing one.\<close>

fun parse_str :: "string \<Rightarrow> exn + string \<times> string" where
  "parse_str [] = Inl decode_error"
| "parse_str (c # cs) =
     (if c = CHR 0x22 then Inr ([], cs)
      else if c = CHR 0x5C then
        (case cs of
           [] \<Rightarrow> Inl decode_error
         | e # es \<Rightarrow>
             if e = CHR ''u'' then
               (case es of
                  h1 # h2 # h3 # h4 # rest \<Rightarrow>
                    (case hex4 h1 h2 h3 h4 of
                       None \<Rightarrow> Inl decode_error
                     | Some n \<Rightarrow>
                         if n < 256 then push_char (char_of n) (parse_str rest) else Inl outside)
                | _ \<Rightarrow> Inl decode_error)
             else (case short_escape e of
                     None \<Rightarrow> Inl decode_error
                   | Some x \<Rightarrow> push_char x (parse_str es)))
      else if code c < 32 then Inl decode_error
      else push_char c (parse_str cs))"

definition nat_of_digits :: "string \<Rightarrow> nat" where
  "nat_of_digits ds = foldl (\<lambda>n c. 10 * n + (code c - 48)) 0 ds"

definition starts_exponent :: "string \<Rightarrow> bool" where
  "starts_exponent s =
     (case s of
        c # d # e # _ \<Rightarrow> c \<in> {CHR ''e'', CHR ''E''} \<and>
          (ascii_digit d \<or> d \<in> {CHR ''+'', CHR ''-''} \<and> ascii_digit e)
      | [c, d] \<Rightarrow> c \<in> {CHR ''e'', CHR ''E''} \<and> ascii_digit d
      | _ \<Rightarrow> False)"

definition starts_fraction :: "string \<Rightarrow> bool" where
  "starts_fraction s = (case s of c # d # _ \<Rightarrow> c = CHR ''.'' \<and> ascii_digit d | _ \<Rightarrow> False)"

definition is_prefix :: "string \<Rightarrow> string \<Rightarrow> bool" where
  "is_prefix p s \<longleftrightarrow> take (length p) s = p"

text \<open>
  A number token; \<open>int()\<close> refuses more than 4300 digits.
\<close>

definition parse_num :: "string \<Rightarrow> exn + pyval \<times> string" where
  "parse_num s =
     (let neg = (s \<noteq> [] \<and> hd s = CHR ''-'');
          t = (if neg then tl s else s);
          ds = takeWhile ascii_digit t
      in if ds = [] then (if neg \<and> is_prefix ''Infinity'' t then Inl outside else Inl decode_error)
         else let ip = (if hd ds = CHR ''0'' then [CHR ''0''] else ds);
                  rest = drop (length ip) t
           in if starts_fraction rest \<or> starts_exponent rest then Inl outside
              else if 4300 < length ip then Inl (value_error ''Exceeds the limit for integer string conversion'')
              else Inr (PInt (if neg then - int (nat_of_digits ip) else int (nat_of_digits ip)), rest))"

definition parse_atom :: "string \<Rightarrow> exn + pyval \<times> string" where
  "parse_atom s =
     (if is_prefix ''null'' s then Inr (PNone, drop 4 s)
      else if is_prefix ''true'' s then Inr (PBool True, drop 4 s)
      else if is_prefix ''false'' s then Inr (PBool False, drop 5 s)
      else if is_prefix ''NaN'' s \<or> is_prefix ''Infinity'' s then Inl outside
      else parse_num s)"

fun parse_val :: "nat \<Rightarrow> string \<Rightarrow> exn + pyval \<times> string"
  and parse_items :: "nat \<Rightarrow> string \<Rightarrow> exn + pyval list \<times> string"
  and parse_members :: "nat \<Rightarrow> string \<Rightarrow> exn + (string \<times> pyval) list \<times> string" where
  "parse_val 0 s = Inl outside"
| "parse_val (Suc n) s =
     (case s of
        [] \<Rightarrow> Inl decode_error
      | c # cs \<Rightarrow>
          if c = CHR 0x22 then bindE (parse_str cs) (\<lambda>(x, r). Inr (PStr x, r))
          else if c = CHR 0x7B then
            (if is_prefix [CHR 0x7D] (skip_ws cs) then Inr (PDict [], tl (skip_ws cs))
             else bindE (parse_members n (skip_ws cs)) (\<lambda>(kvs, r). Inr (PDict (dict_of kvs), r)))
          else if c = CHR 0x5B then
            (if is_prefix [CHR 0x5D] (skip_ws cs) then Inr (PList [], tl (skip_ws cs))
             else bindE (parse_items n (skip_ws cs)) (\<lambda>(vs, r). Inr (PList vs, r)))
          else parse_atom s)"
| "parse_items 0 s = Inl outside"
| "parse_items (Suc n) s =
     bindE (parse_val n s) (\<lambda>(v, r).
       case skip_ws r of
         [] \<Rightarrow> Inl decode_error
       | c # t \<Rightarrow>
           if c = CHR 0x5D then Inr ([v], t)
           else if c = CHR 0x2C then
             bindE (parse_items n (skip_ws t)) (\<lambda>(vs, u). Inr (v # vs, u))
           else Inl decode_error)"
| "parse_members 0 s = Inl outside"
| "parse_members (Suc n) s =
     (case s of
        [] \<Rightarrow> Inl decode_error
      | q # cs \<Rightarrow>
          if q \<noteq> CHR 0x22 then Inl decode_error
          else bindE (parse_str cs) (\<lambda>(k, r).
            if \<not> is_prefix [CHR 0x3A] (skip_ws r) then Inl decode_error
            else bindE (parse_val n (skip_ws (tl (skip_ws r)))) (\<lambda>(v, u).
              case skip_ws u of
                [] \<Rightarrow> Inl decode_error
              | c # t \<Rightarrow>
                  if c = CHR 0x7D then Inr ([(k, v)], t)
                  else if c = CHR 0x2C then
                    bindE (parse_members n (skip_ws t)) (\<lambda>(kvs, w). Inr ((k, v) # kvs, w))
                  else Inl decode_error)))"

declare parse_val.simps(2) [simp del] parse_items.simps(2) [simp del] parse_members.simps(2) [simp del]

definition json_loads :: "string \<Rightarrow> exn + pyval" where
  "json_loads s =
     bindE (parse_val (2 * length s + 1) (skip_ws s)) (\<lambda>(v, r).
       if skip_ws r = [] then Inr v else Inl decode_error)"


subsection \<open>Enough fuel\<close>

lemma bindE_cong_Inr:
  "m = m' \<Longrightarrow> (\<And>x. m' = Inr x \<Longrightarrow> k x = k' x) \<Longrightarrow> bindE m k = bindE m' k'"
  by (cases m') auto

lemma bindE_cong_pair:
  "m = m' \<Longrightarrow> (\<And>v r. m' = Inr (v, r) \<Longrightarrow> f v r = g v r) \<Longrightarrow>
     bindE m (\<lambda>(v, r). f v r) = bindE m' (\<lambda>(v, r). g v r)"
  by (cases m') auto

lemma length_skip_ws: "length (skip_ws s) \<le> length s"
  by (rule length_dropWhile_le)

lemma skip_ws_Cons: "skip_ws s = c # t \<Longrightarrow> length t < length s"
  using length_skip_ws [of s] by simp

lemma push_char_Inr: "push_char c r = Inr (s, rest) \<longleftrightarrow> (\<exists>t. r = Inr (t, rest) \<and> s = c # t)"
  by (auto simp: push_char_def)

lemma parse_str_shorter: "parse_str s = Inr (x, r) \<Longrightarrow> length r < length s"
proof (induction s arbitrary: x r rule: parse_str.induct)
  case 1
  then show ?case by simp
next
  case (2 c cs)
  consider (close) "c = CHR 0x22" | (esc) "c \<noteq> CHR 0x22" "c = CHR 0x5C"
    | (plain) "c \<noteq> CHR 0x22" "c \<noteq> CHR 0x5C" by blast
  then show ?case
  proof cases
    case close
    with 2 show ?thesis by simp
  next
    case plain
    with 2 show ?thesis by (auto simp: push_char_Inr split: if_splits dest: less_SucI)
  next
    case esc
    with "2.prems" obtain e es where cs: "cs = e # es" by (cases cs) auto
    show ?thesis
    proof (cases "e = CHR ''u''")
      case False
      with "2.prems" esc cs obtain y t where y: "short_escape e = Some y"
          and t: "parse_str es = Inr (t, r)"
        by (auto simp: push_char_Inr split: option.splits)
      have "length r < length es"
        by (rule "2.IH"(2) [OF esc(1,2) cs False y t])
      with cs show ?thesis by simp
    next
      case True
      with "2.prems" esc cs obtain h1 h2 h3 h4 rest n where
        es: "es = h1 # h2 # h3 # h4 # rest" "hex4 h1 h2 h3 h4 = Some n" "n < 256"
        by (auto split: list.splits option.splits if_splits)
      with "2.prems" esc cs True obtain t where "parse_str rest = Inr (t, r)"
        by (auto simp: push_char_Inr)
      with "2.IH" esc cs True es have "length r < length rest" by blast
      with cs es show ?thesis by simp
    qed
  qed
qed

lemma parse_num_shorter:
  assumes "parse_num s = Inr (v, r)"
  shows "length r < length s"
proof -
  let ?t = "if s \<noteq> [] \<and> hd s = CHR ''-'' then tl s else s"
  let ?ds = "takeWhile ascii_digit ?t"
  let ?ip = "if hd ?ds = CHR ''0'' then [CHR ''0''] else ?ds"
  have ds: "?ds \<noteq> []" and r: "r = drop (length ?ip) ?t"
    using assms by (auto simp: parse_num_def Let_def split: if_splits)
  from ds have "?t \<noteq> []" and "?ip \<noteq> []" by auto
  then have "length (drop (length ?ip) ?t) < length ?t" by simp
  also have "\<dots> \<le> length s" by simp
  finally show ?thesis unfolding r .
qed

lemma parse_atom_shorter: "s \<noteq> [] \<Longrightarrow> parse_atom s = Inr (v, r) \<Longrightarrow> length r < length s"
  using parse_num_shorter by (auto simp: parse_atom_def split: if_splits)

text \<open>A reader leaves a shorter text, given that the readers it calls on one unit of fuel less do.\<close>

lemma parse_val_shorter:
  assumes items: "\<And>t vs u. parse_items n t = Inr (vs, u) \<Longrightarrow> length u < length t"
    and members: "\<And>t kvs u. parse_members n t = Inr (kvs, u) \<Longrightarrow> length u < length t"
    and run: "parse_val (Suc n) s = Inr (v, r)"
  shows "length r < length s"
proof -
  from run obtain c cs where s: "s = c # cs" by (cases s) (auto simp: parse_val.simps(2))
  have tail: "length (tl (skip_ws cs)) < Suc (length cs)"
    using length_skip_ws [of cs] by simp
  have "length r \<le> length (skip_ws cs)" if "parse_members n (skip_ws cs) = Inr (kvs, r)" for kvs
    using members [OF that] by simp
  moreover have "length r \<le> length (skip_ws cs)" if "parse_items n (skip_ws cs) = Inr (vs, r)" for vs
    using items [OF that] by simp
  ultimately show ?thesis
    using run tail length_skip_ws [of cs] parse_str_shorter [of cs] parse_atom_shorter [of s]
    by (fastforce simp: s parse_val.simps(2) split: if_splits)
qed

lemma parse_items_shorter:
  assumes val: "\<And>t v u. parse_val n t = Inr (v, u) \<Longrightarrow> length u < length t"
    and items: "\<And>t vs u. parse_items n t = Inr (vs, u) \<Longrightarrow> length u < length t"
    and run: "parse_items (Suc n) s = Inr (vs, r)"
  shows "length r < length s"
proof -
  from run obtain w u where v: "parse_val n s = Inr (w, u)"
    by (auto simp: parse_items.simps(2))
  have u: "length u < length s" by (rule val [OF v])
  with run v obtain c t where t: "skip_ws u = c # t" by (auto simp: parse_items.simps(2) split: list.splits)
  from skip_ws_Cons [OF t] u have t': "length t < length s" by simp
  have "length r < length (skip_ws t)" if "parse_items n (skip_ws t) = Inr (xs, r)" for xs
    by (rule items [OF that])
  with run v t t' length_skip_ws [of t] show ?thesis
    by (fastforce simp: parse_items.simps(2) split: if_splits)
qed

lemma parse_members_shorter:
  assumes val: "\<And>t v u. parse_val n t = Inr (v, u) \<Longrightarrow> length u < length t"
    and members: "\<And>t kvs u. parse_members n t = Inr (kvs, u) \<Longrightarrow> length u < length t"
    and run: "parse_members (Suc n) s = Inr (kvs, r)"
  shows "length r < length s"
proof -
  from run obtain cs where s: "s = CHR 0x22 # cs"
    by (auto simp: parse_members.simps(2) split: list.splits if_splits)
  with run obtain k r1 where k: "parse_str cs = Inr (k, r1)" "is_prefix [CHR 0x3A] (skip_ws r1)"
    by (auto simp: parse_members.simps(2) split: if_splits)
  let ?r2 = "skip_ws (tl (skip_ws r1))"
  from run s k obtain w u where v: "parse_val n ?r2 = Inr (w, u)"
    by (auto simp: parse_members.simps(2))
  have "length u < length ?r2" by (rule val [OF v])
  also have "\<dots> \<le> length r1"
    using length_skip_ws [of "tl (skip_ws r1)"] length_skip_ws [of r1] by simp
  also have "\<dots> < length cs" by (rule parse_str_shorter [OF k(1)])
  finally have u: "length u < length cs" .
  from run s k v obtain c t where t: "skip_ws u = c # t"
    by (auto simp: parse_members.simps(2) split: list.splits)
  from skip_ws_Cons [OF t] u have t': "length t < length s" by (simp add: s)
  have "length r < length (skip_ws t)" if "parse_members n (skip_ws t) = Inr (xs, r)" for xs
    by (rule members [OF that])
  with run s k v t t' length_skip_ws [of t] show ?thesis
    by (fastforce simp: parse_members.simps(2) split: if_splits)
qed

lemma parse_shorter:
  "parse_val n s = Inr (v, r) \<Longrightarrow> length r < length s"
  "parse_items n s = Inr (vs, r) \<Longrightarrow> length r < length s"
  "parse_members n s = Inr (kvs, r) \<Longrightarrow> length r < length s"
proof (induction n arbitrary: s v vs kvs r)
  case 0
  {
    case 1 then show ?case by simp
  next
    case 2 then show ?case by simp
  next
    case 3 then show ?case by simp
  }
next
  case (Suc n)
  {
    case 1 with Suc.IH show ?case by (blast intro: parse_val_shorter)
  next
    case 2 with Suc.IH show ?case by (blast intro: parse_items_shorter)
  next
    case 3 with Suc.IH show ?case by (blast intro: parse_members_shorter)
  }
qed


text \<open>With fuel for the length of the text, more fuel changes nothing.\<close>

lemma parse_items_step:
  assumes val: "parse_val (Suc n) s = parse_val n s" and len: "2 * length s + 2 \<le> Suc n"
    and ih: "\<And>t. 2 * length t + 2 \<le> n \<Longrightarrow> parse_items (Suc n) t = parse_items n t"
  shows "parse_items (Suc (Suc n)) s = parse_items (Suc n) s"
proof -
  have inner: "(case skip_ws r of [] \<Rightarrow> Inl decode_error
        | c # t \<Rightarrow> if c = CHR 0x5D then Inr ([v], t)
            else if c = CHR 0x2C
              then bindE (parse_items (Suc n) (skip_ws t)) (\<lambda>(vs, u). Inr (v # vs, u))
            else Inl decode_error) =
      (case skip_ws r of [] \<Rightarrow> Inl decode_error
        | c # t \<Rightarrow> if c = CHR 0x5D then Inr ([v], t)
            else if c = CHR 0x2C
              then bindE (parse_items n (skip_ws t)) (\<lambda>(vs, u). Inr (v # vs, u))
            else Inl decode_error)" if "parse_val n s = Inr (v, r)" for v r
  proof -
    from that have r: "length r < length s" by (rule parse_shorter)
    have items: "parse_items (Suc n) (skip_ws t) = parse_items n (skip_ws t)"
      if "skip_ws r = c # t" for c t
    proof (rule ih)
      show "2 * length (skip_ws t) + 2 \<le> n"
        using skip_ws_Cons [OF that] r len length_skip_ws [of t] by simp
    qed
    show ?thesis
      by (rule list.case_cong [OF refl]) (simp_all add: items)
  qed
  show ?thesis
    unfolding parse_items.simps(2) [of "Suc n" s] parse_items.simps(2) [of n s]
    by (rule bindE_cong_Inr [OF val]) (use inner in auto)
qed

lemma parse_members_step:
  assumes ih_val: "\<And>t. 2 * length t + 1 \<le> n \<Longrightarrow> parse_val (Suc n) t = parse_val n t"
    and len: "2 * length s + 2 \<le> Suc n"
    and ih: "\<And>t. 2 * length t + 2 \<le> n \<Longrightarrow> parse_members (Suc n) t = parse_members n t"
  shows "parse_members (Suc (Suc n)) s = parse_members (Suc n) s"
proof (cases s)
  case Nil
  then show ?thesis by (simp add: parse_members.simps(2))
next
  case s: (Cons q cs)
  have inner: "(if \<not> is_prefix [CHR 0x3A] (skip_ws r) then Inl decode_error
        else bindE (parse_val (Suc n) (skip_ws (tl (skip_ws r)))) (\<lambda>(v, u).
          case skip_ws u of [] \<Rightarrow> Inl decode_error
          | c # t \<Rightarrow> if c = CHR 0x7D then Inr ([(k, v)], t)
              else if c = CHR 0x2C
                then bindE (parse_members (Suc n) (skip_ws t)) (\<lambda>(kvs, w). Inr ((k, v) # kvs, w))
              else Inl decode_error)) =
      (if \<not> is_prefix [CHR 0x3A] (skip_ws r) then Inl decode_error
        else bindE (parse_val n (skip_ws (tl (skip_ws r)))) (\<lambda>(v, u).
          case skip_ws u of [] \<Rightarrow> Inl decode_error
          | c # t \<Rightarrow> if c = CHR 0x7D then Inr ([(k, v)], t)
              else if c = CHR 0x2C
                then bindE (parse_members n (skip_ws t)) (\<lambda>(kvs, w). Inr ((k, v) # kvs, w))
              else Inl decode_error))"
    if "parse_str cs = Inr (k, r)" for k r
  proof -
    let ?r2 = "skip_ws (tl (skip_ws r))"
    have r2: "length ?r2 \<le> length r"
      using length_skip_ws [of "tl (skip_ws r)"] length_skip_ws [of r] by simp
    have lr: "length r < length cs" using that by (rule parse_str_shorter)
    have val: "parse_val (Suc n) ?r2 = parse_val n ?r2"
      using r2 lr len by (intro ih_val) (simp add: s)
    have mem: "parse_members (Suc n) (skip_ws t) = parse_members n (skip_ws t)"
      if "parse_val n ?r2 = Inr (v, u)" "skip_ws u = c # t" for v u c t
    proof (rule ih)
      have "length u < length ?r2" using that(1) by (rule parse_shorter)
      then show "2 * length (skip_ws t) + 2 \<le> n"
        using skip_ws_Cons [OF that(2)] r2 lr len length_skip_ws [of t] by (simp add: s)
    qed
    show ?thesis
      unfolding val
      by (rule if_cong [OF refl refl], rule bindE_cong_pair [OF refl],
          rule list.case_cong [OF refl]) (simp_all add: mem)
  qed
  show ?thesis
    unfolding s parse_members.simps(2) [of "Suc n" "q # cs"] parse_members.simps(2) [of n "q # cs"]
      list.case
    by (rule if_cong [OF refl refl], rule bindE_cong_Inr [OF refl]) (use inner in auto)
qed

lemma parse_fuel_Suc:
  "2 * length s + 1 \<le> n \<Longrightarrow> parse_val (Suc n) s = parse_val n s"
  "2 * length s + 2 \<le> n \<Longrightarrow> parse_items (Suc n) s = parse_items n s"
  "2 * length s + 2 \<le> n \<Longrightarrow> parse_members (Suc n) s = parse_members n s"
proof (induction n arbitrary: s)
  case 0
  {
    case 1 then show ?case by simp
  next
    case 2 then show ?case by simp
  next
    case 3 then show ?case by simp
  }
next
  case (Suc n)
  {
    case 1
    show ?case
    proof (cases s)
      case Nil
      then show ?thesis by (simp add: parse_val.simps(2))
    next
      case (Cons c cs)
      with 1 length_skip_ws [of cs] have "2 * length (skip_ws cs) + 2 \<le> n" by simp
      then show ?thesis
        by (simp add: Cons parse_val.simps(2) [of "Suc n"] parse_val.simps(2) [of n] Suc.IH(2,3))
    qed
  next
    case 2
    then have "parse_val (Suc n) s = parse_val n s" by (intro Suc.IH(1)) simp
    from this 2 Suc.IH(2) show ?case by (rule parse_items_step)
  next
    case 3
    from Suc.IH(1) 3 Suc.IH(3) show ?case by (rule parse_members_step)
  }
qed

lemma parse_val_fuel:
  assumes "2 * length s + 1 \<le> n"
  shows "parse_val n s = parse_val (2 * length s + 1) s"
  using assms by (induction rule: dec_induct) (simp_all add: parse_fuel_Suc)

lemma json_fuel:
  assumes "2 * length s + 1 \<le> n"
  shows "json_loads s = bindE (parse_val n (skip_ws s)) (\<lambda>(v, r).
     if skip_ws r = [] then Inr v else Inl decode_error)"
proof -
  have "parse_val n (skip_ws s) = parse_val (2 * length s + 1) (skip_ws s)"
    using assms length_skip_ws [of s] parse_val_fuel [of "skip_ws s" n]
      parse_val_fuel [of "skip_ws s" "2 * length s + 1"] by simp
  then show ?thesis by (simp add: json_loads_def)
qed

subsection \<open>Parsing inverts rendering\<close>

lemma hex_value_digit [simp]: "n < 16 \<Longrightarrow> hex_value (hex_digit n) = Some n"
  by (auto simp: hex_value_def hex_digit_def Let_def)

lemma hex_value_0 [simp]: "hex_value (CHR ''0'') = Some 0"
  by (simp add: hex_value_def code_def)

lemma char_of_code [simp]: "char_of (code c) = c"
  by (simp add: code_def)

lemma esc_char_parse:
  "parse_str (esc_char c @ s) = push_char c (parse_str s)"
proof -
  have codes: "code CHR 0x22 = 34" "code CHR 0x5C = 92" "code CHR 0x08 = 8" "code CHR 0x0C = 12"
      "code CHR 0x0A = 10" "code CHR 0x0D = 13" "code CHR 0x09 = 9"
    by (simp_all add: code_def)
  have eqs: "code c = 34 \<longleftrightarrow> c = CHR 0x22" "code c = 92 \<longleftrightarrow> c = CHR 0x5C"
      "code c = 8 \<longleftrightarrow> c = CHR 0x08" "code c = 12 \<longleftrightarrow> c = CHR 0x0C" "code c = 10 \<longleftrightarrow> c = CHR 0x0A"
      "code c = 13 \<longleftrightarrow> c = CHR 0x0D" "code c = 9 \<longleftrightarrow> c = CHR 0x09"
    using code_inject [of c "CHR 0x22"] code_inject [of c "CHR 0x5C"] code_inject [of c "CHR 0x08"]
      code_inject [of c "CHR 0x0C"] code_inject [of c "CHR 0x0A"] code_inject [of c "CHR 0x0D"]
      code_inject [of c "CHR 0x09"]
    unfolding codes by blast+
  show ?thesis
  proof (cases "c \<in> {CHR 0x22, CHR 0x5C, CHR 0x08, CHR 0x0C, CHR 0x0A, CHR 0x0D, CHR 0x09}")
    case True
    then show ?thesis
      by (elim insertE emptyE) (simp_all add: esc_char_def codes short_escape_def)
  next
    case special: False
    then have ne: "code c \<noteq> 34" "code c \<noteq> 92" "code c \<noteq> 8" "code c \<noteq> 12" "code c \<noteq> 10"
        "code c \<noteq> 13" "code c \<noteq> 9" "c \<noteq> CHR 0x22" "c \<noteq> CHR 0x5C"
      unfolding eqs by simp_all
    show ?thesis
    proof (cases "32 \<le> code c \<and> code c \<le> 126")
      case True
      with ne show ?thesis by (simp add: esc_char_def Let_def)
    next
      case False
      have "code c div 16 < 16" using code_less [of c] by linarith
      with ne False have "parse_str (esc_char c @ s) =
          push_char (char_of (16 * (code c div 16) + code c mod 16)) (parse_str s)"
        by (simp add: esc_char_def Let_def hex4_def)
      then show ?thesis by simp
    qed
  qed
qed

lemma enc_str_parse: "parse_str (concat (map esc_char x) @ CHR 0x22 # rest) = Inr (x, rest)"
  by (induction x) (simp_all add: esc_char_parse push_char_def)


lemma code_digit_char [simp]: "n < 10 \<Longrightarrow> code (digit_char n) = 48 + n"
  by (simp add: digit_char_def)

lemma digit_char_0 [simp]: "digit_char 0 = CHR ''0''"
proof -
  have "code (digit_char 0) = 48" by (simp add: digit_char_def)
  moreover have "code (CHR ''0'') = 48" by (simp add: code_def)
  ultimately show ?thesis using code_inject by metis
qed

lemma ascii_digit_0 [simp]: "ascii_digit (CHR ''0'')"
  by (simp add: ascii_digit_def code_def)

lemma ascii_digit_char [simp]: "n < 10 \<Longrightarrow> ascii_digit (digit_char n)"
  by (simp add: ascii_digit_def)

lemma str_of_nat_digits: "list_all ascii_digit (str_of_nat n)"
  by (induction n rule: str_of_nat.induct) (subst str_of_nat.simps, simp)

lemma str_of_nat_nonempty [simp]: "str_of_nat n \<noteq> []"
  by (subst str_of_nat.simps) simp

lemma nat_of_digits_snoc: "nat_of_digits (ds @ [c]) = 10 * nat_of_digits ds + (code c - 48)"
  by (simp add: nat_of_digits_def)

lemma nat_of_digits_str [simp]: "nat_of_digits (str_of_nat n) = n"
proof (induction n rule: str_of_nat.induct)
  case (1 n)
  show ?case
  proof (cases "n < 10")
    case True
    then show ?thesis by (subst str_of_nat.simps) (simp add: nat_of_digits_def)
  next
    case False
    with 1 show ?thesis by (subst str_of_nat.simps) (simp add: nat_of_digits_snoc)
  qed
qed

lemma hd_str_of_nat: "hd (str_of_nat n) = CHR ''0'' \<longleftrightarrow> n = 0"
proof (induction n rule: str_of_nat.induct)
  case (1 n)
  show ?case
  proof (cases "n < 10")
    case True
    have "digit_char n = CHR ''0'' \<longleftrightarrow> code (digit_char n) = code (CHR ''0'')" by simp
    also have "\<dots> \<longleftrightarrow> n = 0" using True by (simp only: code_digit_char) (simp add: code_def)
    finally show ?thesis using True by (subst str_of_nat.simps) simp
  next
    case False
    with 1 show ?thesis by (subst str_of_nat.simps) simp
  qed
qed

text \<open>What may follow a value in rendered text: the end, a comma or a closing bracket.\<close>

definition stops :: "string \<Rightarrow> bool" where
  "stops s \<longleftrightarrow> (case s of [] \<Rightarrow> True | c # _ \<Rightarrow> c \<in> {CHR 0x2C, CHR 0x5D, CHR 0x7D})"

lemma stops_simps [simp]:
  "stops []" "stops (CHR 0x2C # s)" "stops (CHR 0x5D # s)" "stops (CHR 0x7D # s)"
  by (simp_all add: stops_def)

lemma stops_no_number:
  assumes "stops s"
  shows "takeWhile ascii_digit s = []" "\<not> starts_fraction s" "\<not> starts_exponent s"
  using assms
  by (auto simp: stops_def starts_fraction_def starts_exponent_def ascii_digit_def code_def
      split: list.splits)

lemma digit_not_special:
  assumes "ascii_digit c"
  shows "\<not> json_ws c" "c \<notin> set [CHR 0x22, CHR 0x7B, CHR 0x5B, CHR 0x5D, CHR 0x7D, CHR ''-'', CHR ''n'',
    CHR ''t'', CHR ''f'', CHR ''N'', CHR ''I'']"
  using assms by (auto simp: ascii_digit_def json_ws_def code_def)

lemma parse_digits:
  assumes "stops rest" and "length (str_of_nat n) \<le> 4300"
  shows "parse_num (str_of_nat n @ rest) = Inr (PInt (int n), rest)"
    and "parse_num (CHR ''-'' # str_of_nat n @ rest) = Inr (PInt (- int n), rest)"
proof -
  let ?d = "str_of_nat n"
  have all: "\<forall>c \<in> set ?d. ascii_digit c" using str_of_nat_digits [of n] by (simp add: list_all_iff)
  then have tw: "takeWhile ascii_digit (?d @ rest) = ?d"
    by (simp add: takeWhile_append2 stops_no_number(1) [OF assms(1)])
  have hd: "hd (?d @ rest) = hd ?d" by simp
  have "ascii_digit (hd ?d)" using all by simp
  from digit_not_special(2) [OF this] have minus: "hd ?d \<noteq> CHR ''-''" by auto
  have lead: "?d = ''0''" if "hd ?d = CHR ''0''"
  proof -
    have "n = 0" using that by (simp add: hd_str_of_nat)
    then show ?thesis by (subst str_of_nat.simps) simp
  qed
  have zero: "nat_of_digits ''0'' = n" if "hd ?d = CHR ''0''"
    using nat_of_digits_str [of n] lead [OF that] by simp
  note stop = stops_no_number(2,3) [OF assms(1)]
  show "parse_num (?d @ rest) = Inr (PInt (int n), rest)"
    using assms(2) minus stop zero
    by (cases "hd ?d = CHR ''0''") (simp_all add: parse_num_def Let_def tw hd lead)
  show "parse_num (CHR ''-'' # ?d @ rest) = Inr (PInt (- int n), rest)"
    using assms(2) stop zero
    by (cases "hd ?d = CHR ''0''") (simp_all add: parse_num_def Let_def tw hd lead)
qed


lemma parse_num_int:
  assumes "stops rest" and "length (str_of_nat (nat \<bar>i\<bar>)) \<le> 4300"
  shows "parse_num (str_of_int i @ rest) = Inr (PInt i, rest)"
  using parse_digits [OF assms] by (auto simp: str_of_int_def)

definition number_start :: "char \<Rightarrow> bool" where
  "number_start c \<longleftrightarrow> \<not> json_ws c \<and> c \<noteq> CHR 0x22 \<and> c \<noteq> CHR 0x7B \<and> c \<noteq> CHR 0x5B \<and> c \<noteq> CHR 0x5D \<and>
     c \<noteq> CHR 0x7D \<and> c \<noteq> CHR ''n'' \<and> c \<noteq> CHR ''t'' \<and> c \<noteq> CHR ''f'' \<and> c \<noteq> CHR ''N'' \<and> c \<noteq> CHR ''I''"

lemma number_start_minus: "number_start (CHR ''-'')"
  by (simp add: number_start_def json_ws_def)

lemma number_start_digit: "ascii_digit c \<Longrightarrow> number_start c"
  using digit_not_special [of c] by (simp add: number_start_def)

lemma hd_str_of_int: "\<exists>c t. str_of_int i = c # t \<and> number_start c"
proof (cases "i < 0")
  case True
  then show ?thesis by (simp add: str_of_int_def number_start_minus)
next
  case False
  have "\<forall>c \<in> set (str_of_nat (nat i)). ascii_digit c"
    using str_of_nat_digits by (simp add: list_all_iff)
  then show ?thesis using False
    by (cases "str_of_nat (nat i)") (simp_all add: str_of_int_def number_start_digit)
qed

text \<open>A rendered value starts with a character that is neither blank nor closing.\<close>

definition opens :: "string \<Rightarrow> bool" where
  "opens s \<longleftrightarrow> (\<exists>c t. s = c # t \<and> \<not> json_ws c \<and> c \<noteq> CHR 0x5D \<and> c \<noteq> CHR 0x7D)"

lemma opens_append [simp]: "opens s \<Longrightarrow> opens (s @ t)"
  by (auto simp: opens_def)

lemma opens_skip [simp]: "opens s \<Longrightarrow> skip_ws s = s"
  by (auto simp: opens_def)

lemma opens_not_prefix:
  assumes "opens s"
  shows "\<not> is_prefix [CHR 0x5D] s" "\<not> is_prefix [CHR 0x7D] s"
  using assms by (auto simp: opens_def is_prefix_def)

lemma opens_enc [simp]: "opens (enc is ks v)"
proof (cases v)
  case (PInt i)
  from hd_str_of_int [of i] show ?thesis
    unfolding PInt enc.simps opens_def number_start_def by (elim exE conjE) simp
qed (auto simp: opens_def enc_str_def json_ws_def)

lemma parse_val_int:
  assumes "stops rest" and "length (str_of_nat (nat \<bar>i\<bar>)) \<le> 4300"
  shows "parse_val (Suc n) (str_of_int i @ rest) = Inr (PInt i, rest)"
proof -
  obtain c t where c: "str_of_int i = c # t" "number_start c"
    using hd_str_of_int by blast
  then have "parse_val (Suc n) (str_of_int i @ rest) = parse_num (str_of_int i @ rest)"
    by (simp add: parse_val.simps(2) parse_atom_def is_prefix_def number_start_def)
  with parse_num_int [OF assms] show ?thesis by simp
qed

text \<open>A separator is its sign and blanks.\<close>

definition sep :: "char \<Rightarrow> string \<Rightarrow> bool" where
  "sep c s \<longleftrightarrow> (\<exists>w. s = c # w \<and> list_all json_ws w)"

lemma skip_ws_blank [simp]: "list_all json_ws w \<Longrightarrow> skip_ws (w @ s) = skip_ws s"
  by (induction w) auto

lemma skip_sep: "sep c s \<Longrightarrow> \<not> json_ws c \<Longrightarrow> opens t \<Longrightarrow>
    skip_ws (s @ t) = c # tl (s @ t) \<and> skip_ws (tl (s @ t)) = t"
  by (auto simp: sep_def)

definition reads :: "string \<Rightarrow> pyval \<Rightarrow> bool" where
  "reads s v \<longleftrightarrow> (\<exists>n0 :: nat. \<forall>n \<ge> n0. \<forall>rest. stops rest \<longrightarrow> parse_val n (s @ rest) = Inr (v, rest))"

lemma readsI:
  assumes step: "\<And>n rest. stops rest \<Longrightarrow> parse_val (Suc n) (s @ rest) = Inr (v, rest)"
  shows "reads s v"
  unfolding reads_def
proof (intro exI [of _ 1] allI impI)
  fix n :: nat and rest
  assume "1 \<le> n" "stops rest"
  with step show "parse_val n (s @ rest) = Inr (v, rest)" by (cases n) simp_all
qed

lemma reads_items:
  assumes "vs \<noteq> []" and "sep CHR 0x2C is" and "\<And>v. v \<in> set vs \<Longrightarrow> reads (enc is ks v) v"
  shows "\<exists>n0. \<forall>n \<ge> n0. \<forall>rest.
     parse_items n (str_join is (map (enc is ks) vs) @ CHR 0x5D # rest) = Inr (vs, rest)"
  using assms(1,3)
proof (induction vs)
  case Nil
  then show ?case by simp
next
  case (Cons v vs)
  then obtain n0 where n0: "\<And>n rest. n0 \<le> n \<Longrightarrow> stops rest \<Longrightarrow>
      parse_val n (enc is ks v @ rest) = Inr (v, rest)"
    unfolding reads_def by (metis list.set_intros(1))
  show ?case
  proof (cases vs)
    case Nil
    have "parse_items n (enc is ks v @ CHR 0x5D # rest) = Inr ([v], rest)" if "Suc n0 \<le> n" for n rest
      using that n0 [of "n - 1" "CHR 0x5D # rest"]
      by (cases n) (simp_all add: parse_items.simps(2) json_ws_def)
    with Nil show ?thesis by (intro exI [of _ "Suc n0"]) simp
  next
    case (Cons w ws)
    let ?tail = "str_join is (map (enc is ks) vs)"
    from Cons.IH Cons.prems \<open>vs = w # ws\<close> obtain n1 where
      n1: "\<And>n rest. n1 \<le> n \<Longrightarrow> parse_items n (?tail @ CHR 0x5D # rest) = Inr (vs, rest)"
      by auto
    have op: "opens (?tail @ CHR 0x5D # rest)" for rest
      using \<open>vs = w # ws\<close> by (cases ws) simp_all
    have "parse_items n (enc is ks v @ is @ ?tail @ CHR 0x5D # rest) = Inr (v # vs, rest)"
      if bound: "Suc (max n0 n1) \<le> n" for n rest
    proof -
      obtain m where "n = Suc m" using bound by (cases n) simp_all
      with bound have m: "n = Suc m" "n0 \<le> m" "n1 \<le> m" by simp_all
      have "stops (is @ x)" for x using assms(2) by (auto simp: sep_def)
      then have "parse_val m (enc is ks v @ is @ ?tail @ CHR 0x5D # rest) =
          Inr (v, is @ ?tail @ CHR 0x5D # rest)"
        using n0 m(2) by blast
      with m skip_sep [OF assms(2) _ op, of rest] n1 [OF m(3), of rest] show ?thesis
        by (simp add: parse_items.simps(2) json_ws_def)
    qed
    with \<open>vs = w # ws\<close> show ?thesis by (intro exI [of _ "Suc (max n0 n1)"]) simp
  qed
qed


lemma member_opens: "kvs \<noteq> [] \<Longrightarrow> opens (str_join is (map (\<lambda>(k, v). enc_str k @ ks @ enc is ks v) kvs) @ x)"
  by (cases kvs rule: remdups_adj.cases) (simp_all add: case_prod_beta enc_str_def opens_def json_ws_def)

lemma read_last_member:
  assumes "sep CHR 0x3A ks" and "\<And>rest. stops rest \<Longrightarrow> parse_val n (enc is ks v @ rest) = Inr (v, rest)"
  shows "parse_members (Suc n) (enc_str k @ ks @ enc is ks v @ CHR 0x7D # rest) = Inr ([(k, v)], rest)"
  using skip_sep [OF assms(1), of "enc is ks v @ CHR 0x7D # rest"] assms(2) [of "CHR 0x7D # rest"]
  by (simp add: parse_members.simps(2) enc_str_def enc_str_parse is_prefix_def json_ws_def)

lemma read_next_member:
  assumes "sep CHR 0x2C is" and "sep CHR 0x3A ks" and "opens tail"
    and "\<And>rest. stops rest \<Longrightarrow> parse_val n (enc is ks v @ rest) = Inr (v, rest)"
    and "parse_members n tail = Inr (kvs, rest)"
  shows "parse_members (Suc n) (enc_str k @ ks @ enc is ks v @ is @ tail) = Inr ((k, v) # kvs, rest)"
proof -
  have "stops (is @ tail)" using assms(1) by (auto simp: sep_def)
  then have "parse_val n (enc is ks v @ is @ tail) = Inr (v, is @ tail)" by (rule assms(4))
  with skip_sep [OF assms(2), of "enc is ks v @ is @ tail"] skip_sep [OF assms(1) _ assms(3)] assms(5)
  show ?thesis
    by (simp add: parse_members.simps(2) enc_str_def enc_str_parse is_prefix_def json_ws_def)
qed

lemma reads_members:
  assumes "kvs \<noteq> []" and "sep CHR 0x2C is" and "sep CHR 0x3A ks"
    and "\<And>k v. (k, v) \<in> set kvs \<Longrightarrow> reads (enc is ks v) v"
  shows "\<exists>n0. \<forall>n \<ge> n0. \<forall>rest.
     parse_members n (str_join is (map (\<lambda>(k, v). enc_str k @ ks @ enc is ks v) kvs) @ CHR 0x7D # rest)
       = Inr (kvs, rest)"
  using assms(1,4)
proof (induction kvs)
  case Nil
  then show ?case by simp
next
  case (Cons p kvs)
  obtain k v where p: "p = (k, v)" by (cases p)
  with Cons.prems obtain n0 where n0: "\<And>n rest. n0 \<le> n \<Longrightarrow> stops rest \<Longrightarrow>
      parse_val n (enc is ks v @ rest) = Inr (v, rest)"
    unfolding reads_def by (metis list.set_intros(1))
  show ?case
  proof (cases kvs)
    case Nil
    have "parse_members n (enc_str k @ ks @ enc is ks v @ CHR 0x7D # rest) = Inr ([(k, v)], rest)"
      if bound: "Suc n0 \<le> n" for n rest
    proof -
      obtain m where "n = Suc m" using bound by (cases n) simp_all
      with bound read_last_member [OF assms(3)] n0 [of m] show ?thesis by simp
    qed
    with Nil p show ?thesis by (intro exI [of _ "Suc n0"]) simp
  next
    case (Cons q qs)
    let ?tail = "str_join is (map (\<lambda>(k, v). enc_str k @ ks @ enc is ks v) kvs)"
    have "reads (enc is ks w) w" if "(j, w) \<in> set kvs" for j w
      using that by (intro Cons.prems(2) [of j]) simp
    with Cons.IH \<open>kvs = q # qs\<close> obtain n1 where
      n1: "\<And>n rest. n1 \<le> n \<Longrightarrow> parse_members n (?tail @ CHR 0x7D # rest) = Inr (kvs, rest)"
      by blast
    have "parse_members n (enc_str k @ ks @ enc is ks v @ is @ ?tail @ CHR 0x7D # rest)
        = Inr ((k, v) # kvs, rest)"
      if bound: "Suc (max n0 n1) \<le> n" for n rest
    proof -
      obtain m where "n = Suc m" using bound by (cases n) simp_all
      with bound n0 [of m] n1 [of m rest] show ?thesis
        using read_next_member [OF assms(2,3), where tail = "?tail @ CHR 0x7D # rest" and n = m and v = v and k = k
            and kvs = kvs and rest = rest] member_opens [of kvs] Cons by simp
    qed
    with \<open>kvs = q # qs\<close> p show ?thesis by (intro exI [of _ "Suc (max n0 n1)"]) simp
  qed
qed

lemma reads_list:
  assumes "vs \<noteq> []" and "sep CHR 0x2C is" and "\<And>v. v \<in> set vs \<Longrightarrow> reads (enc is ks v) v"
  shows "reads (enc is ks (PList vs)) (PList vs)"
proof -
  from reads_items [OF assms] obtain n0 where n0: "\<And>n rest. n0 \<le> n \<Longrightarrow>
      parse_items n (str_join is (map (enc is ks) vs) @ CHR 0x5D # rest) = Inr (vs, rest)" by blast
  have op: "opens (str_join is (map (enc is ks) vs) @ CHR 0x5D # rest)" for rest
    using assms(1) by (cases vs rule: remdups_adj.cases) simp_all
  have nb: "\<not> is_prefix [CHR 0x5D] (str_join is (map (enc is ks) vs) @ CHR 0x5D # rest)" for rest
    using op [of rest] by (rule opens_not_prefix)
  have "parse_val n (enc is ks (PList vs) @ rest) = Inr (PList vs, rest)" if bound: "Suc n0 \<le> n" for n rest
  proof -
    obtain m where "n = Suc m" using bound by (cases n) simp_all
    with bound n0 [of m rest] op [of rest] nb [of rest] show ?thesis
      by (simp add: parse_val.simps(2))
  qed
  then show ?thesis unfolding reads_def by blast
qed

lemma reads_dict:
  assumes "kvs \<noteq> []" and "sep CHR 0x2C is" and "sep CHR 0x3A ks" and "distinct (map fst kvs)"
    and "\<And>k v. (k, v) \<in> set kvs \<Longrightarrow> reads (enc is ks v) v"
  shows "reads (enc is ks (PDict kvs)) (PDict kvs)"
proof -
  let ?body = "str_join is (map (\<lambda>(k, v). enc_str k @ ks @ enc is ks v) kvs)"
  have "reads (enc is ks v) v" if "(k, v) \<in> set kvs" for k v using that by (rule assms(5))
  with reads_members [OF assms(1-3)] obtain n0 where n0: "\<And>n rest. n0 \<le> n \<Longrightarrow>
      parse_members n (?body @ CHR 0x7D # rest) = Inr (kvs, rest)" by blast
  have op: "opens (?body @ CHR 0x7D # rest)" for rest
    using assms(1) by (cases kvs rule: remdups_adj.cases)
      (simp_all add: case_prod_beta enc_str_def opens_def json_ws_def)
  have nb: "\<not> is_prefix [CHR 0x7D] (?body @ CHR 0x7D # rest)" for rest
    using op [of rest] by (rule opens_not_prefix)
  have dict: "dict_of kvs = kvs" using assms(4) by (rule dict_of_distinct)
  have "parse_val n (enc is ks (PDict kvs) @ rest) = Inr (PDict kvs, rest)" if bound: "Suc n0 \<le> n" for n rest
  proof -
    obtain m where "n = Suc m" using bound by (cases n) simp_all
    with bound n0 [of m rest] op [of rest] nb [of rest] dict show ?thesis
      by (simp add: parse_val.simps(2))
  qed
  then show ?thesis unfolding reads_def by blast
qed

lemma reads_empty: "reads (enc is ks (PList [])) (PList [])" "reads (enc is ks (PDict [])) (PDict [])"
  by (intro readsI; simp add: parse_val.simps(2) is_prefix_def json_ws_def)+

lemma enc_reads:
  assumes "sep CHR 0x2C is" and "sep CHR 0x3A ks"
  shows "jsonable v \<Longrightarrow> wf_val v \<Longrightarrow> reads (enc is ks v) v"
proof (induction v)
  case PNone
  show ?case by (rule readsI) (simp add: parse_val.simps(2) parse_atom_def is_prefix_def)
next
  case (PBool b)
  show ?case by (rule readsI) (simp add: parse_val.simps(2) parse_atom_def is_prefix_def)
next
  case (PInt i)
  then show ?case by (intro readsI) (simp add: parse_val_int)
next
  case (PStr s)
  show ?case by (rule readsI) (simp add: parse_val.simps(2) enc_str_def enc_str_parse)
next
  case (PObj s)
  then show ?case by simp
next
  case (PList vs)
  then have "reads (enc is ks v) v" if "v \<in> set vs" for v
    using that by (simp add: list_all_iff)
  then show ?case by (cases "vs = []") (auto intro: reads_list assms(1) simp: reads_empty simp del: enc.simps)
next
  case (PDict kvs)
  have "reads (enc is ks v) v" if "(k, v) \<in> set kvs" for k v
    using PDict that by (fastforce simp: list_all_iff)
  with PDict.prems(2) show ?case
    by (cases "kvs = []") (auto intro!: reads_dict assms simp: reads_empty simp del: enc.simps)
qed

lemma json_loads_enc:
  assumes "sep CHR 0x2C is" and "sep CHR 0x3A ks" and "jsonable v" and "wf_val v"
  shows "json_loads (enc is ks v) = Inr v"
proof -
  let ?s = "enc is ks v"
  from enc_reads [OF assms] obtain n0 where
    "\<And>n rest. n0 \<le> n \<Longrightarrow> stops rest \<Longrightarrow> parse_val n (?s @ rest) = Inr (v, rest)"
    unfolding reads_def by blast
  from this [of "max n0 (2 * length ?s + 1)" "[]"]
  have "parse_val (max n0 (2 * length ?s + 1)) ?s = Inr (v, [])" by simp
  with json_fuel [of ?s "max n0 (2 * length ?s + 1)"] show ?thesis by simp
qed

lemma seps [simp]: "sep CHR 0x2C '', ''" "sep CHR 0x3A '': ''" "sep CHR 0x2C '',''" "sep CHR 0x3A '':''"
  by (simp_all add: sep_def json_ws_def)

subsection \<open>Properties\<close>

text \<open>
  Parsing inverts rendering: for every value Python's JSON text can represent (string keys
  distinct, integers within the conversion limit), the text of \<open>json.dumps\<close>, with either choice
  of separators the code uses, is read back by \<open>json.loads\<close> as that very value.
\<close>

theorem json_round_trip:
  assumes "json_dumps v = Inr s \<or> json_dumps_compact v = Inr s" and "wf_val v"
  shows "json_loads s = Inr v"
  using assms json_loads_enc
  by (auto simp: json_dumps_def json_dumps_compact_def split: if_splits)

theorem json_round_trip_witness:
  "json_loads (enc '','' '':'' (PDict [(''k'', PList [PInt (- 7), PNone]), ([CHR 0x22, CHR 0xE9], PBool True)]))
     = Inr (PDict [(''k'', PList [PInt (- 7), PNone]), ([CHR 0x22, CHR 0xE9], PBool True)])"
  by (rule json_round_trip)
     (simp_all add: json_dumps_compact_def str_of_nat.simps)

end
