(* ===== verification/Auth_Db.thy ===== *)
theory Auth_Db
  imports Rbac Json
begin

section \<open>The authentication tables\<close>

text \<open>
  The rows of \<open>user_account\<close>, \<open>user_role_assignment\<close> and \<open>auth_audit_event\<close> that
  the authentication library reads and writes, with the constraints the canonical store puts on
  them (\<^verbatim>\<open>data-model/trustlist_data_model/models.py\<close>): primary keys, foreign keys and the
  customer-scope CHECK.  A violated constraint is SQLAlchemy's \<open>IntegrityError\<close> and leaves
  the tables as they were.  Of \<open>user_account\<close> only the columns the constraints read are
  kept, as pairs of user id and archetype; ids are compared as text in their canonical form.
\<close>

record role_assignment =
  ra_user_id :: string
  account_archetype :: archetype
  ra_role :: string
  granted_at :: instant
  granted_by_user_id :: "string option"
  revoked_at :: "instant option"
  customer_id :: "string option"

definition is_live :: "role_assignment \<Rightarrow> bool" where
  "is_live r \<longleftrightarrow> revoked_at r = None"

record audit_row =
  ar_event_id :: string
  ar_user_id :: "string option"
  ar_event_type :: string
  ar_occurred_at :: instant
  ar_ip :: "string option"
  ar_user_agent :: "string option"
  ar_details :: string

record auth_db =
  user_accounts :: "(string \<times> archetype) list"
  role_assignments :: "role_assignment list"
  audit_events :: "audit_row list"

definition integrity_error :: exn where
  "integrity_error = Exn (Other IntegrityError) ''constraint violated''"

definition user_exists :: "auth_db \<Rightarrow> string \<Rightarrow> bool" where
  "user_exists d u \<longleftrightarrow> u \<in> fst ` set (user_accounts d)"

definition opt_user_exists :: "auth_db \<Rightarrow> string option \<Rightarrow> bool" where
  "opt_user_exists d u \<longleftrightarrow> (case u of None \<Rightarrow> True | Some v \<Rightarrow> user_exists d v)"

text \<open>CHECK \<open>customer_id_required_for_brand_customer\<close>.\<close>

definition check_customer_id :: "archetype \<Rightarrow> string option \<Rightarrow> bool" where
  "check_customer_id a c \<longleftrightarrow>
     (archetype_value a = ''brand_customer'' \<and> c \<noteq> None) \<or>
     (archetype_value a \<noteq> ''brand_customer'' \<and> c = None)"

definition ra_key :: "role_assignment \<Rightarrow> string \<times> string \<times> instant" where
  "ra_key r = (ra_user_id r, ra_role r, granted_at r)"

text \<open>The table constraints of \<open>user_role_assignment\<close> on one row.\<close>

definition ra_row_ok :: "auth_db \<Rightarrow> role_assignment \<Rightarrow> bool" where
  "ra_row_ok d r \<longleftrightarrow>
     (ra_user_id r, account_archetype r) \<in> set (user_accounts d) \<and>
     opt_user_exists d (granted_by_user_id r) \<and>
     check_customer_id (account_archetype r) (customer_id r)"

definition insert_role_assignment ::
  "role_assignment \<Rightarrow> auth_db \<Rightarrow> (exn + unit) \<times> auth_db" where
  "insert_role_assignment r d =
     (if ra_row_ok d r \<and> ra_key r \<notin> ra_key ` set (role_assignments d)
      then (Inr (), d\<lparr>role_assignments := role_assignments d @ [r]\<rparr>)
      else (Inl integrity_error, d))"

text \<open>
  The INSERT into \<open>auth_audit_event\<close>.  \<open>pg_ok\<close> is Postgres's own input check of the
  column types (the \<open>inet\<close> syntax, a \<open>jsonb\<close> text without a NUL), a parameter.
\<close>

definition insert_audit_event ::
  "(audit_row \<Rightarrow> bool) \<Rightarrow> audit_row \<Rightarrow> auth_db \<Rightarrow> (exn + unit) \<times> auth_db" where
  "insert_audit_event pg_ok r d =
     (if \<not> pg_ok r then (Inl (Exn (Other DataError) ''invalid input''), d)
      else if opt_user_exists d (ar_user_id r) \<and> ar_event_id r \<notin> ar_event_id ` set (audit_events d)
      then (Inr (), d\<lparr>audit_events := audit_events d @ [r]\<rparr>)
      else (Inl integrity_error, d))"

text \<open>What the constraints keep true of the stored tables.\<close>

definition db_ok :: "auth_db \<Rightarrow> bool" where
  "db_ok d \<longleftrightarrow>
     distinct (map fst (user_accounts d)) \<and>
     distinct (map ra_key (role_assignments d)) \<and>
     list_all (ra_row_ok d) (role_assignments d) \<and>
     distinct (map ar_event_id (audit_events d)) \<and>
     list_all (\<lambda>r. opt_user_exists d (ar_user_id r)) (audit_events d)"

lemma user_exists_upd [simp]:
  "user_exists (d\<lparr>role_assignments := x\<rparr>) = user_exists d"
  "user_exists (d\<lparr>audit_events := y\<rparr>) = user_exists d"
  by (simp_all add: user_exists_def fun_eq_iff)

lemma opt_user_exists_upd [simp]:
  "opt_user_exists (d\<lparr>role_assignments := x\<rparr>) = opt_user_exists d"
  "opt_user_exists (d\<lparr>audit_events := y\<rparr>) = opt_user_exists d"
  by (simp_all add: opt_user_exists_def fun_eq_iff split: option.split)

lemma ra_row_ok_upd [simp]:
  "ra_row_ok (d\<lparr>role_assignments := x\<rparr>) = ra_row_ok d"
  "ra_row_ok (d\<lparr>audit_events := y\<rparr>) = ra_row_ok d"
  by (simp_all add: ra_row_ok_def fun_eq_iff)

lemma insert_role_assignment_db_ok [inv_intros]:
  "db_ok d \<Longrightarrow> db_ok (snd (insert_role_assignment r d))"
  by (simp add: insert_role_assignment_def db_ok_def)

lemma insert_audit_event_db_ok [inv_intros]:
  "db_ok d \<Longrightarrow> db_ok (snd (insert_audit_event pg_ok r d))"
  by (simp add: insert_audit_event_def db_ok_def)

text \<open>What each INSERT leaves alone.\<close>

lemma insert_role_assignment_frame [simp]:
  "audit_events (snd (insert_role_assignment r d)) = audit_events d"
  "user_accounts (snd (insert_role_assignment r d)) = user_accounts d"
  by (simp_all add: insert_role_assignment_def)

lemma insert_audit_event_frame [simp]:
  "role_assignments (snd (insert_audit_event pg_ok r d)) = role_assignments d"
  "user_accounts (snd (insert_audit_event pg_ok r d)) = user_accounts d"
  by (simp_all add: insert_audit_event_def)

lemma check_customer_id_iff:
  "check_customer_id a c \<longleftrightarrow> (a = BRAND_CUSTOMER \<longleftrightarrow> c \<noteq> None)"
  by (cases a) (auto simp: check_customer_id_def)

end
