(* ===== verification/Role_Store.thy ===== *)
theory Role_Store
  imports Auth_Db
begin

section \<open>The role store\<close>

text \<open>
  \<^verbatim>\<open>auth/trustlist_auth/role_store.py\<close>: granting, revoking and reading role assignments over
  \<open>user_role_assignment\<close>.  \<open>now\<close> is what \<open>datetime.now(UTC)\<close> returns during the call.
  A SELECT without ORDER BY returns the rows in table order, and a frozen set of role
  identifiers is a list without repetition, in its iteration order.
\<close>

definition check_customer_scope :: "archetype \<Rightarrow> string option \<Rightarrow> exn + unit" where
  "check_customer_scope a c =
     (if a = BRAND_CUSTOMER \<and> c = None
      then Inl (Exn (Auth RoleScopeError) ''a brand-customer role grant requires a customer_id'')
      else if a \<noteq> BRAND_CUSTOMER \<and> c \<noteq> None
      then Inl (Exn (Auth RoleScopeError)
             (''a '' @ archetype_value a @ '' role grant must not carry a customer_id''))
      else Inr ())"

definition grant_role ::
  "instant \<Rightarrow> string \<Rightarrow> archetype \<Rightarrow> string \<Rightarrow> string option \<Rightarrow> string option \<Rightarrow>
     instant option \<Rightarrow> auth_db \<Rightarrow> (exn + role_assignment) \<times> auth_db" where
  "grant_role now user_id a role granted_by cust at_time d =
     (if \<not> cat_has (catalogue_for a) role
      then (Inl (Exn (Auth UnknownRole)
              (py_repr role @ '' is not a role in the '' @ archetype_value a @ '' catalogue'')), d)
      else case check_customer_scope a cust of
        Inl e \<Rightarrow> (Inl e, d)
      | Inr _ \<Rightarrow>
          (let moment = (case at_time of Some t \<Rightarrow> t | None \<Rightarrow> now);
               row = \<lparr>ra_user_id = user_id, account_archetype = a, ra_role = role,
                      granted_at = moment, granted_by_user_id = granted_by,
                      revoked_at = None, customer_id = cust\<rparr>
           in case insert_role_assignment row d of
                (Inl e, d') \<Rightarrow> (Inl e, d')
              | (Inr _, d') \<Rightarrow> (Inr row, d')))"

text \<open>The WHERE clause of the UPDATE, and the UPDATE with its row count.\<close>

definition revoke_matches :: "string \<Rightarrow> string \<Rightarrow> instant \<Rightarrow> role_assignment \<Rightarrow> bool" where
  "revoke_matches user_id role at_time r \<longleftrightarrow>
     ra_user_id r = user_id \<and> ra_role r = role \<and> granted_at r = at_time \<and> revoked_at r = None"

definition revoke_role ::
  "instant \<Rightarrow> string \<Rightarrow> string \<Rightarrow> instant \<Rightarrow> instant option \<Rightarrow> auth_db \<Rightarrow>
     (exn + bool) \<times> auth_db" where
  "revoke_role now user_id role at_time rev_time d =
     (let moment = (case rev_time of Some t \<Rightarrow> t | None \<Rightarrow> now);
          hit = revoke_matches user_id role at_time;
          rowcount = length (filter hit (role_assignments d))
      in (Inr (rowcount = 1),
          d\<lparr>role_assignments :=
              map (\<lambda>r. if hit r then r\<lparr>revoked_at := Some moment\<rparr> else r) (role_assignments d)\<rparr>))"

definition live_assignments ::
  "string \<Rightarrow> string option \<Rightarrow> auth_db \<Rightarrow> role_assignment list" where
  "live_assignments user_id cust d =
     (case cust of
        None \<Rightarrow> filter (\<lambda>r. ra_user_id r = user_id \<and> revoked_at r = None) (role_assignments d)
      | Some c \<Rightarrow> filter (\<lambda>r. ra_user_id r = user_id \<and> revoked_at r = None \<and>
                            customer_id r = Some c) (role_assignments d))"

definition live_role_identifiers :: "string \<Rightarrow> string option \<Rightarrow> auth_db \<Rightarrow> string list" where
  "live_role_identifiers user_id cust d = remdups (map ra_role (live_assignments user_id cust d))"

subsection \<open>Lemmas\<close>

lemma check_customer_scope_Inr:
  "check_customer_scope a c = Inr u \<longleftrightarrow> (a = BRAND_CUSTOMER \<longleftrightarrow> c \<noteq> None)"
  by (auto simp: check_customer_scope_def)

lemma grant_role_cases:
  obtains (unknown) m where "\<not> cat_has (catalogue_for a) role"
      "grant_role now u a role g c t d = (Inl (Exn (Auth UnknownRole) m), d)"
    | (scope) m where "cat_has (catalogue_for a) role" "(a = BRAND_CUSTOMER) \<noteq> (c \<noteq> None)"
      "grant_role now u a role g c t d = (Inl (Exn (Auth RoleScopeError) m), d)"
    | (integrity) "cat_has (catalogue_for a) role" "(a = BRAND_CUSTOMER) = (c \<noteq> None)"
      "(u, a) \<notin> set (user_accounts d) \<or> \<not> opt_user_exists d g \<or>
         (u, role, case t of Some t' \<Rightarrow> t' | None \<Rightarrow> now) \<in> ra_key ` set (role_assignments d)"
      "grant_role now u a role g c t d = (Inl integrity_error, d)"
    | (granted) row where "cat_has (catalogue_for a) role" "(a = BRAND_CUSTOMER) = (c \<noteq> None)"
      "ra_row_ok d row" "ra_key row \<notin> ra_key ` set (role_assignments d)"
      "row = \<lparr>ra_user_id = u, account_archetype = a, ra_role = role,
              granted_at = (case t of Some t' \<Rightarrow> t' | None \<Rightarrow> now), granted_by_user_id = g,
              revoked_at = None, customer_id = c\<rparr>"
      "grant_role now u a role g c t d =
         (Inr row, d\<lparr>role_assignments := role_assignments d @ [row]\<rparr>)"
proof (cases "cat_has (catalogue_for a) role")
  case False
  with unknown show ?thesis by (simp add: grant_role_def)
next
  case known: True
  show ?thesis
  proof (cases "(a = BRAND_CUSTOMER) = (c \<noteq> None)")
    case False
    with known scope show ?thesis
      by (auto simp: grant_role_def check_customer_scope_def split: if_splits)
  next
    case scoped: True
    define row where "row = \<lparr>ra_user_id = u, account_archetype = a, ra_role = role,
        granted_at = (case t of Some t' \<Rightarrow> t' | None \<Rightarrow> now), granted_by_user_id = g,
        revoked_at = None, customer_id = c\<rparr>"
    have eq: "grant_role now u a role g c t d =
        (case insert_role_assignment row d of
           (Inl e, d') \<Rightarrow> (Inl e, d') | (Inr _, d') \<Rightarrow> (Inr row, d'))"
    proof -
      have "check_customer_scope a c = Inr ()" using scoped by (simp add: check_customer_scope_Inr)
      with known show ?thesis unfolding grant_role_def Let_def row_def by simp
    qed
    have key: "ra_key row = (u, role, case t of Some t' \<Rightarrow> t' | None \<Rightarrow> now)"
      by (simp add: row_def ra_key_def)
    show ?thesis
    proof (cases "ra_row_ok d row \<and> ra_key row \<notin> ra_key ` set (role_assignments d)")
      case True
      with eq granted [OF known scoped _ _ row_def] show ?thesis
        by (simp add: insert_role_assignment_def)
    next
      case False
      then have "(u, a) \<notin> set (user_accounts d) \<or> \<not> opt_user_exists d g \<or>
          ra_key row \<in> ra_key ` set (role_assignments d)"
        using scoped by (auto simp: ra_row_ok_def row_def check_customer_id_iff)
      with False eq integrity [OF known scoped] show ?thesis
        by (simp add: insert_role_assignment_def key)
    qed
  qed
qed

lemma grant_role_db_ok [inv_intros]: "db_ok d \<Longrightarrow> db_ok (snd (grant_role now u a role g c t d))"
  by (cases rule: grant_role_cases [of a role now u g c t d])
     (simp_all add: db_ok_def)

lemma ra_key_revoked [simp]: "ra_key (r\<lparr>revoked_at := x\<rparr>) = ra_key r"
  by (simp add: ra_key_def)

lemma ra_row_ok_revoked [simp]: "ra_row_ok d (r\<lparr>revoked_at := x\<rparr>) = ra_row_ok d r"
  by (simp add: ra_row_ok_def)

lemma map_ra_key_revoked [simp]:
  "map ra_key (map (\<lambda>r. if hit r then r\<lparr>revoked_at := x\<rparr> else r) rs) = map ra_key rs"
  by (simp add: comp_def if_distrib [of ra_key])

lemma revoke_role_db_ok [inv_intros]: "db_ok d \<Longrightarrow> db_ok (snd (revoke_role now u role t rt d))"
  unfolding revoke_role_def db_ok_def Let_def
  by (simp del: map_map) (auto simp: list_all_iff)

lemma role_store_frame [simp]:
  "user_accounts (snd (grant_role now u a role g c t d)) = user_accounts d"
  "audit_events (snd (grant_role now u a role g c t d)) = audit_events d"
  "user_accounts (snd (revoke_role now u role gt rt d)) = user_accounts d"
  "audit_events (snd (revoke_role now u role gt rt d)) = audit_events d"
  by (cases rule: grant_role_cases [of a role now u g c t d]; simp)+
     (simp_all add: revoke_role_def Let_def)

text \<open>Both queries of \<open>live_assignments\<close> as one filter.\<close>

definition in_scope :: "string option \<Rightarrow> role_assignment \<Rightarrow> bool" where
  "in_scope c r \<longleftrightarrow> (case c of None \<Rightarrow> True | Some x \<Rightarrow> customer_id r = Some x)"

lemma live_assignments_eq:
  "live_assignments u c d =
     filter (\<lambda>r. (ra_user_id r = u \<and> in_scope c r) \<and> revoked_at r = None) (role_assignments d)"
  by (cases c) (auto simp: live_assignments_def in_scope_def intro!: filter_cong)

lemma set_live_role_identifiers:
  "i \<in> set (live_role_identifiers u c d) \<longleftrightarrow>
     (\<exists>r \<in> set (role_assignments d). ra_role r = i \<and> ra_user_id r = u \<and> is_live r \<and> in_scope c r)"
  by (auto simp: live_role_identifiers_def live_assignments_eq is_live_def)

lemma live_assignments_append:
  "live_assignments v f (d\<lparr>role_assignments := rs @ [row]\<rparr>) =
     live_assignments v f (d\<lparr>role_assignments := rs\<rparr>) @
       (if ra_user_id row = v \<and> in_scope f row \<and> revoked_at row = None then [row] else [])"
  by (simp add: live_assignments_eq)

lemma filter_live_revoked:
  "filter (\<lambda>r. P r \<and> revoked_at r = None)
     (map (\<lambda>r. if revoke_matches u role t r then r\<lparr>revoked_at := Some x\<rparr> else r) rs) =
   filter (\<lambda>r. ra_key r \<noteq> (u, role, t)) (filter (\<lambda>r. P r \<and> revoked_at r = None) rs)"
  by (induction rs) (auto simp: revoke_matches_def ra_key_def)

lemma live_assignments_revoked:
  "live_assignments v f (d\<lparr>role_assignments :=
       map (\<lambda>r. if revoke_matches u role t r then r\<lparr>revoked_at := Some x\<rparr> else r)
         (role_assignments d)\<rparr>) =
   filter (\<lambda>r. ra_key r \<noteq> (u, role, t)) (live_assignments v f d)"
  unfolding live_assignments_eq
  using filter_live_revoked [of "\<lambda>r. ra_user_id r = v \<and> in_scope f r" u role t x
      "role_assignments d"]
  by simp

lemma filter_matches_revoked:
  "filter (revoke_matches u role t)
     (map (\<lambda>r. if revoke_matches u role t r then r\<lparr>revoked_at := Some x\<rparr> else r) rs) = []"
  by (induction rs) (auto simp: revoke_matches_def)

text \<open>The primary key leaves at most one row for a revoke to match.\<close>

lemma revoke_matches_key: "revoke_matches u role t r \<Longrightarrow> ra_key r = (u, role, t)"
  by (simp add: revoke_matches_def ra_key_def)

lemma revoke_at_most_one:
  assumes "db_ok d"
  shows "length (filter (revoke_matches u role t) (role_assignments d)) \<le> 1"
proof -
  have "length (filter (revoke_matches u role t) (role_assignments d)) =
      length (filter (revoke_matches u role t)
        (filter (\<lambda>r. ra_key r = (u, role, t)) (role_assignments d)))"
    by (auto intro!: arg_cong [of _ _ length] filter_cong dest: revoke_matches_key)
  also have "\<dots> \<le> length (filter (\<lambda>r. ra_key r = (u, role, t)) (role_assignments d))"
    by (rule length_filter_le)
  also have "\<dots> \<le> 1"
    using assms by (intro length_filter_distinct_key) (simp add: db_ok_def)
  finally show ?thesis .
qed

lemma revoke_role_hit:
  assumes "db_ok d"
  shows "fst (revoke_role now u role t rt d) =
     Inr (\<exists>r \<in> set (role_assignments d). is_live r \<and> ra_key r = (u, role, t))"
proof -
  have "(length (filter (revoke_matches u role t) (role_assignments d)) = 1) =
      (filter (revoke_matches u role t) (role_assignments d) \<noteq> [])"
    using revoke_at_most_one [OF assms, of u role t]
    by (cases "filter (revoke_matches u role t) (role_assignments d)") auto
  also have "\<dots> = (\<exists>r \<in> set (role_assignments d). is_live r \<and> ra_key r = (u, role, t))"
    by (auto simp: filter_empty_conv revoke_matches_def is_live_def ra_key_def)
  finally show ?thesis by (simp add: revoke_role_def Let_def)
qed

text \<open>A revoke that returns \<open>False\<close> changed nothing.\<close>

lemma revoke_role_miss:
  assumes "db_ok d" and "revoke_role now u role t rt d = (Inr False, d')"
  shows "d' = d"
proof -
  have "filter (revoke_matches u role t) (role_assignments d) = []"
    using assms(2) revoke_at_most_one [OF assms(1), of u role t]
    by (cases "filter (revoke_matches u role t) (role_assignments d)") (auto simp: revoke_role_def Let_def)
  then have "map (\<lambda>r. if revoke_matches u role t r then r\<lparr>revoked_at := x\<rparr> else r) (role_assignments d) =
      role_assignments d" for x
    by (auto simp: filter_empty_conv intro: map_idI)
  with assms(2) show ?thesis by (auto simp: revoke_role_def Let_def)
qed

subsection \<open>Properties\<close>

text \<open>
  The application's scope check decides exactly what the CHECK constraint of the table
  decides, so a grant the check lets through never fails the constraint.
\<close>

theorem scope_check_mirrors_constraint:
  "(check_customer_scope a c = Inr ()) = check_customer_id a c \<and>
   isl (check_customer_scope a c) = raises (check_customer_scope a c) (Auth RoleScopeError)"
  by (auto simp: check_customer_scope_Inr check_customer_id_iff check_customer_scope_def)

text \<open>
  A grant appends one live row of the requested user, role, archetype and scope and nothing
  else; every refusal leaves the tables as they were and names its reason: an identifier outside
  the archetype's catalogue, a scope violation, and otherwise a missing account or a duplicate
  key, never the scope CHECK.
\<close>

theorem grant_role_spec:
  "case grant_role now u a role g c t d of
     (Inr row, d') \<Rightarrow>
       d' = d\<lparr>role_assignments := role_assignments d @ [row]\<rparr> \<and>
       cat_has (catalogue_for a) role \<and> check_customer_id a c \<and> is_live row \<and>
       (ra_user_id row, account_archetype row, ra_role row, customer_id row) = (u, a, role, c) \<and>
       (u, a) \<in> set (user_accounts d)
   | (Inl e, d') \<Rightarrow>
       d' = d \<and>
       (if \<not> cat_has (catalogue_for a) role then exn_class e = Auth UnknownRole
        else if \<not> check_customer_id a c then exn_class e = Auth RoleScopeError
        else exn_class e = Other IntegrityError \<and>
          ((u, a) \<notin> set (user_accounts d) \<or> \<not> opt_user_exists d g \<or>
           (u, role, case t of Some t' \<Rightarrow> t' | None \<Rightarrow> now) \<in> ra_key ` set (role_assignments d)))"
  by (cases rule: grant_role_cases [of a role now u g c t d])
     (simp_all add: check_customer_id_iff integrity_error_def is_live_def ra_row_ok_def)

theorem grant_role_spec_witness:
  "exn_class (projl (fst (grant_role 5 ''u1'' OPERATOR ''admin'' None (Some ''c1'') None
     \<lparr>user_accounts = [(''u1'', OPERATOR)], role_assignments = [], audit_events = []\<rparr>))) =
     Auth RoleScopeError"
proof -
  let ?d = "\<lparr>user_accounts = [(''u1'', OPERATOR)], role_assignments = [], audit_events = []\<rparr>"
  have "cat_has (catalogue_for OPERATOR) ''admin''"
    by (simp add: cat_has_catalogue_for role_lists)
  then show ?thesis
    using grant_role_spec [where now = 5 and u = "''u1''" and a = OPERATOR and role = "''admin''"
        and g = None and c = "Some ''c1''" and t = None and d = ?d]
    by (simp add: case_prod_beta check_customer_id_iff split: sum.splits)
qed

text \<open>
  A granted role is among the user's live roles, without a filter and under its own customer
  filter, and the live roles of every other user are what they were.
\<close>

theorem grant_then_live:
  assumes "grant_role now u a role g c t d = (Inr row, d')"
  shows "role \<in> set (live_role_identifiers u None d') \<and> role \<in> set (live_role_identifiers u c d') \<and>
     (v \<noteq> u \<longrightarrow> live_role_identifiers v f d' = live_role_identifiers v f d)"
  using assms
  by (cases rule: grant_role_cases [of a role now u g c t d])
     (auto simp: live_role_identifiers_def live_assignments_append in_scope_def
       split: option.splits)

theorem grant_then_live_witness:
  "''admin'' \<in> set (live_role_identifiers ''u1'' None
     (snd (grant_role 5 ''u1'' OPERATOR ''admin'' None None None
        \<lparr>user_accounts = [(''u1'', OPERATOR)], role_assignments = [], audit_events = []\<rparr>)))"
proof -
  let ?d = "\<lparr>user_accounts = [(''u1'', OPERATOR)], role_assignments = [], audit_events = []\<rparr>"
  have "\<exists>row. grant_role 5 ''u1'' OPERATOR ''admin'' None None None ?d =
      (Inr row, snd (grant_role 5 ''u1'' OPERATOR ''admin'' None None None ?d))"
    by (simp add: grant_role_def check_customer_scope_def cat_has_catalogue_for role_lists Let_def
        insert_role_assignment_def ra_row_ok_def opt_user_exists_def check_customer_id_iff)
  then show ?thesis using grant_then_live by blast
qed

text \<open>
  C32: a revoke returns \<open>True\<close> exactly when the user holds that grant live; afterwards the
  live assignments are those without that grant, so a second revoke of it returns \<open>False\<close>.
\<close>

theorem revoke_role_spec:
  assumes "db_ok d"
  shows "case revoke_role now u role t rt d of (res, d') \<Rightarrow>
     res = Inr (\<exists>r \<in> set (role_assignments d). is_live r \<and> ra_key r = (u, role, t)) \<and>
     live_assignments v f d' =
       filter (\<lambda>r. ra_key r \<noteq> (u, role, t)) (live_assignments v f d) \<and>
     fst (revoke_role now' u role t rt' d') = Inr False"
  using revoke_role_hit [OF assms, of now u role t rt]
  by (simp add: revoke_role_def Let_def live_assignments_revoked filter_matches_revoked)

theorem revoke_role_spec_witness:
  "fst (revoke_role 7 ''u1'' ''admin'' 5 None
     \<lparr>user_accounts = [(''u1'', OPERATOR)],
      role_assignments = [\<lparr>ra_user_id = ''u1'', account_archetype = OPERATOR, ra_role = ''admin'',
         granted_at = 5, granted_by_user_id = None, revoked_at = None, customer_id = None\<rparr>],
      audit_events = []\<rparr>) = Inr True"
proof -
  let ?r = "\<lparr>ra_user_id = ''u1'', account_archetype = OPERATOR, ra_role = ''admin'',
      granted_at = 5, granted_by_user_id = None, revoked_at = None, customer_id = None\<rparr>"
  let ?d = "\<lparr>user_accounts = [(''u1'', OPERATOR)], role_assignments = [?r], audit_events = []\<rparr>"
  have "db_ok ?d"
    by (simp add: db_ok_def ra_row_ok_def opt_user_exists_def check_customer_id_iff)
  from revoke_role_spec [OF this, where now = 7 and u = "''u1''" and role = "''admin''" and t = 5
      and rt = None and v = "''u1''" and f = None and now' = 8 and rt' = None]
  show ?thesis by (simp add: is_live_def ra_key_def case_prod_beta)
qed

end
