(* ===== verification/Audit_Trail.thy ===== *)
theory Audit_Trail
  imports Auth_Db
begin

section \<open>The audit trail\<close>

text \<open>
  \<^verbatim>\<open>auth/trustlist_auth/audit.py\<close>: the audit-event taxonomy, \<open>AuditTrail.record\<close> and the
  mirror sinks.  The state a recording call works on is the authentication tables and the
  sink's own state; \<open>AuthService\<close> extends the record with the identity provider.  A sink is
  its \<open>emit\<close> operation, which may raise; \<open>audit_event_sink\<close> is the contract of the
  \<open>AuditEventSink\<close> protocol, that it does not.
\<close>

datatype auth_event_type =
    LOGIN_SUCCESS | LOGIN_FAILURE
  | MFA_CHALLENGE_ISSUED | MFA_CHALLENGE_SUCCESS | MFA_CHALLENGE_FAILURE
  | PASSWORD_CHANGE | ROLE_GRANT | ROLE_REVOKE | ACCOUNT_DISABLE | SESSION_REVOKE

fun event_type_value :: "auth_event_type \<Rightarrow> string" where
  "event_type_value LOGIN_SUCCESS = ''login_success''"
| "event_type_value LOGIN_FAILURE = ''login_failure''"
| "event_type_value MFA_CHALLENGE_ISSUED = ''mfa_challenge_issued''"
| "event_type_value MFA_CHALLENGE_SUCCESS = ''mfa_challenge_success''"
| "event_type_value MFA_CHALLENGE_FAILURE = ''mfa_challenge_failure''"
| "event_type_value PASSWORD_CHANGE = ''password_change''"
| "event_type_value ROLE_GRANT = ''role_grant''"
| "event_type_value ROLE_REVOKE = ''role_revoke''"
| "event_type_value ACCOUNT_DISABLE = ''account_disable''"
| "event_type_value SESSION_REVOKE = ''session_revoke''"

record audit_event =
  event_id :: string
  event_type :: auth_event_type
  occurred_at :: instant
  ev_user_id :: "string option"
  ip_address_observed :: "string option"
  user_agent_observed :: "string option"
  event_details :: "(string, pyval) dict"

definition forbidden_detail_keys :: "string list" where
  "forbidden_detail_keys =
     [''password'', ''plaintext'', ''new_password'', ''old_password'', ''totp_secret'',
      ''secret'', ''password_hash'', ''code'', ''totp_code'']"

subsection \<open>Recording\<close>

type_synonym 'k sink = "audit_event \<Rightarrow> 'k \<Rightarrow> (exn + unit) \<times> 'k"

record 'k trail_state =
  db :: auth_db
  sink_state :: 'k

text \<open>
  What the process and Postgres supply to a recording call: the clock, a fresh UUID and the
  input checks of the column types.
\<close>

record audit_env =
  audit_now :: instant
  audit_uuid :: string
  pg_ok :: "audit_row \<Rightarrow> bool"

definition row_of_event :: "audit_event \<Rightarrow> string \<Rightarrow> audit_row" where
  "row_of_event ev details =
     \<lparr>ar_event_id = event_id ev, ar_user_id = ev_user_id ev,
      ar_event_type = event_type_value (event_type ev), ar_occurred_at = occurred_at ev,
      ar_ip = ip_address_observed ev, ar_user_agent = user_agent_observed ev,
      ar_details = details\<rparr>"

definition forbidden_in :: "(string, pyval) dict \<Rightarrow> string list" where
  "forbidden_in details =
     filter (\<lambda>k. k \<in> set (map (str_lower \<circ> fst) details)) forbidden_detail_keys"

definition build_event ::
  "audit_env \<Rightarrow> auth_event_type \<Rightarrow> string option \<Rightarrow> string option \<Rightarrow> string option \<Rightarrow>
     (string, pyval) dict \<Rightarrow> instant option \<Rightarrow> audit_event" where
  "build_event en ty user ip ua details at_time =
     \<lparr>event_id = audit_uuid en, event_type = ty,
      occurred_at = (case at_time of Some t \<Rightarrow> t | None \<Rightarrow> audit_now en),
      ev_user_id = user, ip_address_observed = ip, user_agent_observed = ua,
      event_details = details\<rparr>"

definition audit_record ::
  "'k sink \<Rightarrow> audit_env \<Rightarrow> auth_event_type \<Rightarrow> string option \<Rightarrow> string option \<Rightarrow>
     string option \<Rightarrow> (string, pyval) dict \<Rightarrow> instant option \<Rightarrow>
     ('k, 'z) trail_state_scheme \<Rightarrow> (exn + audit_event) \<times> ('k, 'z) trail_state_scheme" where
  "audit_record emit en ty user ip ua details at_time s =
     (if forbidden_in details \<noteq> []
      then (Inl (value_error (''audit event_details must never carry credential material; ''
              @ ''forbidden key(s): '' @ str_join '', '' (sort (forbidden_in details)))), s)
      else let ev = build_event en ty user ip ua details at_time
        in case json_dumps (PDict (event_details ev)) of
             Inl e \<Rightarrow> (Inl e, s)
           | Inr text \<Rightarrow>
               (case insert_audit_event (pg_ok en) (row_of_event ev text) (db s) of
                  (Inl e, d) \<Rightarrow> (Inl e, s\<lparr>db := d\<rparr>)
                | (Inr _, d) \<Rightarrow>
                    (case emit ev (sink_state s) of
                       (Inl e, k) \<Rightarrow> (Inl e, s\<lparr>db := d, sink_state := k\<rparr>)
                     | (Inr _, k) \<Rightarrow> (Inr ev, s\<lparr>db := d, sink_state := k\<rparr>))))"

subsection \<open>The sink contract\<close>

locale audit_event_sink =
  fixes emit :: "'k sink"
  assumes emit_ok: "fst (emit ev k) = Inr ()"
begin

lemma emit_eq: "emit ev k = (Inr (), snd (emit ev k))"
  using emit_ok [of ev k] by (simp add: prod_eq_iff)

lemma record_cases:
  obtains (refused) e where "audit_record emit en ty user ip ua det t s = (Inl e, s)"
      "forbidden_in det = [] \<Longrightarrow> jsonable (PDict det) \<Longrightarrow>
         e \<in> {integrity_error, Exn (Other DataError) ''invalid input''}"
    | (recorded) ev rendered where
      "audit_record emit en ty user ip ua det t s =
         (Inr ev, s\<lparr>db := (db s)\<lparr>audit_events := audit_events (db s) @ [row_of_event ev rendered]\<rparr>,
                   sink_state := snd (emit ev (sink_state s))\<rparr>)"
      "ev = build_event en ty user ip ua det t" "json_dumps (PDict det) = Inr rendered"
      "forbidden_in det = []" "opt_user_exists (db s) user"
      "audit_uuid en \<notin> ar_event_id ` set (audit_events (db s))"
proof (cases "forbidden_in det = []")
  case False
  with refused show ?thesis by (simp add: audit_record_def)
next
  case clean: True
  define ev where "ev = build_event en ty user ip ua det t"
  have details: "event_details ev = det" "ev_user_id ev = user" "event_id ev = audit_uuid en"
    by (simp_all add: ev_def build_event_def)
  show ?thesis
  proof (cases "json_dumps (PDict det)")
    case (Inl e)
    with clean refused show ?thesis
      by (simp add: audit_record_def Let_def build_event_def json_dumps_def split: if_splits)
  next
    case (Inr rendered)
    then have eq: "audit_record emit en ty user ip ua det t s =
        (case insert_audit_event (pg_ok en) (row_of_event ev rendered) (db s) of
           (Inl e, d) \<Rightarrow> (Inl e, s\<lparr>db := d\<rparr>)
         | (Inr _, d) \<Rightarrow> (Inr ev, s\<lparr>db := d, sink_state := snd (emit ev (sink_state s))\<rparr>))"
      using clean
      by (subst audit_record_def, subst emit_eq)
        (simp add: Let_def ev_def [symmetric] details split: prod.split sum.split)
    show ?thesis
    proof (cases "pg_ok en (row_of_event ev rendered) \<and> opt_user_exists (db s) user \<and>
        audit_uuid en \<notin> ar_event_id ` set (audit_events (db s))")
      case True
      then show ?thesis
        by (intro recorded [OF _ ev_def Inr clean])
           (simp_all add: eq insert_audit_event_def row_of_event_def details)
    next
      case False
      then show ?thesis
        by (intro refused [of "if pg_ok en (row_of_event ev rendered) then integrity_error
              else Exn (Other DataError) ''invalid input''"])
           (auto simp: eq insert_audit_event_def row_of_event_def details)
    qed
  qed
qed

text \<open>
  With a sink that keeps its contract a persisted row is never undone by the mirror: the call
  returns normally exactly when the row was inserted.
\<close>

lemma record_ok_iff_inserted:
  "isl (fst (audit_record emit en ty user ip ua details t s)) \<longleftrightarrow>
     audit_events (db (snd (audit_record emit en ty user ip ua details t s)))
       = audit_events (db s)"
proof (cases "forbidden_in details = []")
  case False
  then show ?thesis by (simp add: audit_record_def)
next
  case True
  show ?thesis
  proof (cases "json_dumps (PDict details)")
    case (Inl e)
    with True show ?thesis by (simp add: audit_record_def Let_def build_event_def)
  next
    case (Inr rendered)
    with True show ?thesis
      by (subst (1 2) audit_record_def, subst (1 2) emit_eq)
         (simp add: Let_def build_event_def insert_audit_event_def)
  qed
qed

end

subsection \<open>The sinks\<close>

definition null_emit :: "unit sink" where
  "null_emit ev k = (Inr (), k)"

text \<open>\<open>RecordingAuditEventSink\<close> of \<^verbatim>\<open>testing.py\<close>: retains the events in order.\<close>

definition recording_emit :: "(audit_event list) sink" where
  "recording_emit ev evs = (Inr (), evs @ [ev])"

definition recording_clear :: "audit_event list \<Rightarrow> audit_event list" where
  "recording_clear evs = []"

definition recording_event_types :: "audit_event list \<Rightarrow> string list" where
  "recording_event_types evs = map (\<lambda>ev. event_type_value (event_type ev)) evs"

interpretation null_sink: audit_event_sink null_emit
  by unfold_locales (simp add: null_emit_def)

interpretation recording_sink: audit_event_sink recording_emit
  by unfold_locales (simp add: recording_emit_def)

end
