(* ===== verification/Credentials.thy ===== *)
theory Credentials
  imports Errors Pystr
begin

section \<open>Password hashing and TOTP\<close>

text \<open>
  \<^verbatim>\<open>auth/trustlist_auth/passwords.py\<close> and \<^verbatim>\<open>auth/trustlist_auth/totp.py\<close>.  argon2-cffi and
  pyotp are third-party packages: their operations are the fields of \<open>argon2\<close> and
  \<open>pyotp\<close>, parameters of every definition that uses them, and what the code relies on is
  stated by \<open>argon2_ok\<close> and \<open>pyotp_ok\<close>.
\<close>

record argon2 =
  hasher_hash :: "string \<Rightarrow> string \<Rightarrow> string"       \<comment> \<open>salt, plaintext\<close>
  hasher_verify :: "string \<Rightarrow> string \<Rightarrow> exn + bool"   \<comment> \<open>stored hash, plaintext\<close>
  hasher_needs_rehash :: "string \<Rightarrow> exn + bool"

record pyotp =
  otp_uri :: "string \<Rightarrow> nat \<Rightarrow> nat \<Rightarrow> string \<Rightarrow> string \<Rightarrow> string"
  otp_at :: "string \<Rightarrow> nat \<Rightarrow> nat \<Rightarrow> int \<Rightarrow> string"
  otp_verify :: "string \<Rightarrow> nat \<Rightarrow> nat \<Rightarrow> string \<Rightarrow> instant \<Rightarrow> nat \<Rightarrow> bool"

subsection \<open>Passwords\<close>

definition hash_password :: "argon2 \<Rightarrow> string \<Rightarrow> string \<Rightarrow> string" where
  "hash_password A salt plaintext = hasher_hash A salt plaintext"

definition verify_password :: "argon2 \<Rightarrow> string \<Rightarrow> string \<Rightarrow> exn + bool" where
  "verify_password A stored plaintext =
     (case hasher_verify A stored plaintext of
        Inr b \<Rightarrow> Inr b
      | Inl e \<Rightarrow>
          if catches [Other VerifyMismatchError] e then Inr False
          else if catches [Other VerificationError, Other InvalidHashError] e then Inr False
          else Inl e)"

definition needs_rehash :: "argon2 \<Rightarrow> string \<Rightarrow> exn + bool" where
  "needs_rehash A stored = hasher_needs_rehash A stored"

text \<open>
  argon2-cffi's documented behaviour: a hash it made verifies its plaintext, any other plaintext
  is a mismatch, \<open>verify\<close> raises nothing but the three documented classes, and a hash made
  with the current parameters needs no rehash.
\<close>

definition argon2_ok :: "argon2 \<Rightarrow> bool" where
  "argon2_ok A \<longleftrightarrow>
     (\<forall>salt p. hasher_verify A (hasher_hash A salt p) p = Inr True) \<and>
     (\<forall>salt p q. p \<noteq> q \<longrightarrow>
        hasher_verify A (hasher_hash A salt p) q = Inl (Exn (Other VerifyMismatchError) [])) \<and>
     (\<forall>h q e. hasher_verify A h q = Inl e \<longrightarrow>
        catches [Other VerificationError, Other InvalidHashError] e) \<and>
     (\<forall>salt p. hasher_needs_rehash A (hasher_hash A salt p) = Inr False)"

lemma verify_password_own [simp]:
  "argon2_ok A \<Longrightarrow> verify_password A (hasher_hash A salt p) p = Inr True"
  by (simp add: argon2_ok_def verify_password_def)

lemma verify_password_other:
  "argon2_ok A \<Longrightarrow> verify_password A (hasher_hash A salt p) q = Inr (p = q)"
  by (cases "p = q") (auto simp: argon2_ok_def verify_password_def catches_def)

lemma verify_password_total: "argon2_ok A \<Longrightarrow> \<exists>b. verify_password A h q = Inr b"
  by (cases "hasher_verify A h q")
     (auto simp: argon2_ok_def verify_password_def)

subsection \<open>TOTP\<close>

definition TOTP_DIGITS :: nat where "TOTP_DIGITS = 6"

definition TOTP_INTERVAL_SECONDS :: nat where "TOTP_INTERVAL_SECONDS = 30"

definition DEFAULT_VALID_WINDOW :: nat where "DEFAULT_VALID_WINDOW = 1"

definition ISSUER_NAME :: string where "ISSUER_NAME = ''TrustList''"

definition provisioning_uri :: "pyotp \<Rightarrow> string \<Rightarrow> string \<Rightarrow> string" where
  "provisioning_uri P secret account_label =
     otp_uri P secret TOTP_DIGITS TOTP_INTERVAL_SECONDS account_label ISSUER_NAME"

text \<open>The instant is in microseconds, the counter counts intervals of seconds.\<close>

definition time_step :: "instant \<Rightarrow> int" where
  "time_step t = t div 1000000 div int TOTP_INTERVAL_SECONDS"

definition current_totp :: "pyotp \<Rightarrow> instant \<Rightarrow> string \<Rightarrow> string" where
  "current_totp P now secret = otp_at P secret TOTP_DIGITS TOTP_INTERVAL_SECONDS (time_step now)"

definition verify_totp :: "pyotp \<Rightarrow> instant \<Rightarrow> string \<Rightarrow> string \<Rightarrow> nat \<Rightarrow> bool" where
  "verify_totp P now secret user_code valid_window =
     (let candidate = str_remove_char CHR 0x20 (str_strip user_code)
      in if \<not> str_isdigit candidate then False
         else otp_verify P secret TOTP_DIGITS TOTP_INTERVAL_SECONDS candidate now valid_window)"

text \<open>
  pyotp's documented behaviour: an ASCII candidate verifies when it equals the code of one of the
  time steps at most \<open>valid_window\<close> away (pyotp compares after Unicode normalisation, so nothing
  is said of other candidates), and a code has the requested number of decimal digits.
\<close>

definition pyotp_ok :: "pyotp \<Rightarrow> bool" where
  "pyotp_ok P \<longleftrightarrow>
     (\<forall>secret d n c t w. is_ascii c \<longrightarrow> otp_verify P secret d n c t w =
        (\<exists>i \<in> {- int w..int w}. c = otp_at P secret d n (t div 1000000 div int n + i))) \<and>
     (\<forall>secret d n k. length (otp_at P secret d n k) = d \<and>
        set (otp_at P secret d n k) \<subseteq> set ''0123456789'')"

lemma pyotp_verifyD:
  "pyotp_ok P \<Longrightarrow> is_ascii c \<Longrightarrow>
     otp_verify P secret d n c t w = (\<exists>i \<in> {- int w..int w}. c = otp_at P secret d n
       (t div 1000000 div int n + i))"
  by (simp add: pyotp_ok_def)

lemma otp_at_digits:
  "pyotp_ok P \<Longrightarrow> length (otp_at P secret d n k) = d \<and>
     set (otp_at P secret d n k) \<subseteq> set ''0123456789''"
  unfolding pyotp_ok_def by blast

lemma digit_chars: "c \<in> set ''0123456789'' \<Longrightarrow> is_digit_char c \<and> code c < 128 \<and> \<not> is_space c"
  by (auto simp: is_digit_char_def is_space_def code_def Let_def)

lemma digits_candidate:
  assumes "set s \<subseteq> set ''0123456789''"
  shows "str_remove_char CHR 0x20 (str_strip s) = s" "is_ascii s" "s \<noteq> [] \<Longrightarrow> str_isdigit s"
proof -
  have d: "c \<in> set s \<Longrightarrow> is_digit_char c \<and> code c < 128 \<and> \<not> is_space c" for c
    using assms digit_chars by blast
  then have "str_strip s = s"
    by (intro str_strip_unchanged) (cases s; auto)
  moreover have "c \<in> set s \<Longrightarrow> c \<noteq> CHR 0x20" for c
    using d [of c] by (auto simp: is_space_def code_def)
  then have "filter (\<lambda>x. x \<noteq> CHR 0x20) s = s" by (simp add: filter_id_conv)
  ultimately show "str_remove_char CHR 0x20 (str_strip s) = s"
    by (simp add: str_remove_char_def)
  show "is_ascii s" using d by (auto simp: is_ascii_def list_all_iff)
  show "s \<noteq> [] \<Longrightarrow> str_isdigit s" using d by (auto simp: str_isdigit_def list_all_iff)
qed

lemma is_ascii_strip: "is_ascii s \<Longrightarrow> is_ascii (str_remove_char c (str_strip s))"
  by (auto simp: is_ascii_def list_all_iff str_remove_char_def str_strip_def
      dest!: set_dropWhileD)

subsection \<open>Properties\<close>

text \<open>
  Password verification decides: with argon2-cffi as documented it returns a boolean for
  every stored hash, malformed ones included, and \<open>True\<close> on a hash the library made exactly
  for the hashed plaintext.
\<close>

theorem verify_password_decides:
  assumes "argon2_ok A"
  shows "\<not> isl (verify_password A stored p) \<and>
     verify_password A (hash_password A salt p) q = Inr (p = q)"
  using verify_password_total [OF assms, of stored p] verify_password_other [OF assms]
  by (auto simp: hash_password_def)

definition demo_argon2 :: argon2 where
  "demo_argon2 =
     \<lparr>hasher_hash = (\<lambda>salt p. ''$argon2id$'' @ p),
      hasher_verify = (\<lambda>h p. if take 10 h \<noteq> ''$argon2id$'' then Inl (Exn (Other InvalidHashError) [])
         else if drop 10 h = p then Inr True else Inl (Exn (Other VerifyMismatchError) [])),
      hasher_needs_rehash = (\<lambda>h. Inr False)\<rparr>"

lemma demo_argon2_ok: "argon2_ok demo_argon2"
  by (auto simp: argon2_ok_def demo_argon2_def catches_def split: if_splits)

theorem verify_password_decides_witness:
  "\<not> isl (verify_password demo_argon2 ''not a hash'' ''pw'') \<and>
   verify_password demo_argon2 (hash_password demo_argon2 ''salt'' ''pw'') ''wrong'' = Inr False"
  using verify_password_decides [OF demo_argon2_ok, of "''not a hash''" "''pw''" "''salt''" "''wrong''"]
  by simp

text \<open>
  A code typed in ASCII is accepted exactly when, blanks aside, it is the code of the
  current 30-second step or of one of the \<open>valid_window\<close> steps either side; so the code an
  authenticator shows now is accepted, and anything that is not all digits is refused.
\<close>

theorem verify_totp_window:
  assumes "pyotp_ok P" and "is_ascii user_code"
  shows "verify_totp P now secret user_code w \<longleftrightarrow>
     (\<exists>i \<in> {- int w..int w}. str_remove_char CHR 0x20 (str_strip user_code) =
        otp_at P secret TOTP_DIGITS TOTP_INTERVAL_SECONDS (time_step now + i))"
proof -
  let ?c = "str_remove_char CHR 0x20 (str_strip user_code)"
  have asc: "is_ascii ?c" using assms(2) by (rule is_ascii_strip)
  have "str_isdigit ?c" if "?c = otp_at P secret TOTP_DIGITS TOTP_INTERVAL_SECONDS k" for k
  proof -
    from otp_at_digits [OF assms(1)] that
    have "length ?c = TOTP_DIGITS" and "set ?c \<subseteq> set ''0123456789''" by simp_all
    then show ?thesis by (intro digits_candidate(3)) (auto simp: TOTP_DIGITS_def)
  qed
  then show ?thesis
    using pyotp_verifyD [OF assms(1) asc]
    by (auto simp: verify_totp_def time_step_def Let_def)
qed

definition demo_pyotp :: pyotp where
  "demo_pyotp =
     \<lparr>otp_uri = (\<lambda>s d n l i. ''otpauth://totp/'' @ l),
      otp_at = (\<lambda>s d n k. replicate d (if even k then CHR ''4'' else CHR ''7'')),
      otp_verify = (\<lambda>s d n c t w. \<exists>i \<in> set [- int w..int w].
         c = replicate d (if even (t div 1000000 div int n + i) then CHR ''4'' else CHR ''7''))\<rparr>"

lemma replicate_six: "replicate 6 c = [c, c, c, c, c, c]"
  by (simp add: numeral_eq_Suc)

lemma demo_pyotp_ok: "pyotp_ok demo_pyotp"
  by (auto simp: pyotp_ok_def demo_pyotp_def)

theorem verify_totp_window_witness:
  "verify_totp demo_pyotp 60000000 ''SECRET'' '' 444 444 '' 0 \<and>
   \<not> verify_totp demo_pyotp 60000000 ''SECRET'' ''777777'' 0"
  using verify_totp_window [OF demo_pyotp_ok, of "'' 444 444 ''" 60000000 "''SECRET''" 0]
    verify_totp_window [OF demo_pyotp_ok, of "''777777''" 60000000 "''SECRET''" 0]
  by (simp add: is_ascii_def code_def str_remove_char_def str_strip_def is_space_def
      demo_pyotp_def time_step_def TOTP_DIGITS_def TOTP_INTERVAL_SECONDS_def replicate_six)

end
