(* ===== verification/Provider.thy ===== *)
theory Provider
  imports Rbac Credentials
begin

section \<open>The identity provider\<close>

text \<open>
  \<^verbatim>\<open>auth/trustlist_auth/provider.py\<close> and \<^verbatim>\<open>auth/trustlist_auth/fake_provider.py\<close>.  The
  \<open>IdentityProvider\<close> protocol is the record \<open>identity_provider\<close> of its operations over a
  provider state \<open>'p\<close>, and the locale \<open>identity_provider_contract\<close> is what its docstrings
  promise.  \<open>InMemoryIdentityProvider\<close> is the record \<open>mem_provider\<close> and one definition per
  method; it interprets the contract.

  Its three dictionaries are maps; a stored \<open>_Account\<close> or \<open>_SessionRecord\<close> is mutated
  through the dictionary that holds it, the only alias there is.  What a call reads of the
  process (clock, UUID, salt, random secret) is the record \<open>entropy\<close>; argon2-cffi and pyotp
  are the record \<open>auth_libs\<close>.
\<close>

record entropy =
  env_now :: instant
  env_uuid :: string
  env_salt :: string
  env_base32 :: string

record auth_libs =
  argon :: argon2
  otp :: pyotp

record provider_user =
  pu_user_id :: string
  pu_archetype :: archetype
  pu_email :: string
  pu_email_verified :: bool
  pu_totp_enrolled :: bool
  pu_disabled :: bool

record session =
  ses_session_id :: string
  ses_user_id :: string
  ses_archetype :: archetype
  ses_issued_at :: instant
  ses_expires_at :: instant
  ses_device_fingerprint :: "string option"

record totp_enrolment =
  te_secret :: string
  te_provisioning_uri :: string

record 'p identity_provider =
  ip_register :: "archetype \<Rightarrow> string \<Rightarrow> string \<Rightarrow> 'p \<Rightarrow> (exn + provider_user) \<times> 'p"
  ip_get_user :: "string \<Rightarrow> 'p \<Rightarrow> (exn + provider_user) \<times> 'p"
  ip_find_user_by_email :: "archetype \<Rightarrow> string \<Rightarrow> 'p \<Rightarrow> (exn + provider_user option) \<times> 'p"
  ip_authenticate :: "archetype \<Rightarrow> string \<Rightarrow> string \<Rightarrow> 'p \<Rightarrow> (exn + provider_user) \<times> 'p"
  ip_mark_email_verified :: "string \<Rightarrow> 'p \<Rightarrow> (exn + provider_user) \<times> 'p"
  ip_change_password :: "string \<Rightarrow> string \<Rightarrow> 'p \<Rightarrow> (exn + unit) \<times> 'p"
  ip_issue_session :: "string \<Rightarrow> string option \<Rightarrow> 'p \<Rightarrow> (exn + session) \<times> 'p"
  ip_get_session :: "string \<Rightarrow> 'p \<Rightarrow> (exn + session) \<times> 'p"
  ip_revoke_session :: "string \<Rightarrow> 'p \<Rightarrow> (exn + unit) \<times> 'p"
  ip_revoke_all_sessions :: "string \<Rightarrow> 'p \<Rightarrow> (exn + unit) \<times> 'p"
  ip_enrol_totp :: "string \<Rightarrow> 'p \<Rightarrow> (exn + totp_enrolment) \<times> 'p"
  ip_verify_totp :: "string \<Rightarrow> string \<Rightarrow> 'p \<Rightarrow> (exn + bool) \<times> 'p"
  ip_disable_account :: "string \<Rightarrow> 'p \<Rightarrow> (exn + unit) \<times> 'p"

text \<open>
  What the protocol's docstrings promise of the session operations: revoking is idempotent and
  never raises, what is revoked is not returned again, and disabling an account revokes all of
  its sessions.  \<open>P e\<close> are the operations when the process supplies \<open>e\<close>.
\<close>

locale identity_provider_contract =
  fixes P :: "'e \<Rightarrow> 'p identity_provider"
  assumes revoke_session_returns: "fst (ip_revoke_session (P e) sid p) = Inr ()"
    and revoke_session_dead:
      "fst (ip_get_session (P e') sid (snd (ip_revoke_session (P e) sid p))) \<noteq> Inr ses"
    and revoke_all_returns: "fst (ip_revoke_all_sessions (P e) u p) = Inr ()"
    and revoke_all_dead:
      "fst (ip_get_session (P e') sid (snd (ip_revoke_all_sessions (P e) u p))) = Inr ses \<Longrightarrow>
         ses_user_id ses \<noteq> u"
    and disable_dead:
      "fst (ip_disable_account (P e) u p) = Inr () \<Longrightarrow>
         fst (ip_get_session (P e') sid (snd (ip_disable_account (P e) u p))) = Inr ses \<Longrightarrow>
         ses_user_id ses \<noteq> u"
    and get_session_pure: "snd (ip_get_session (P e) sid p) = p"
begin

lemma revoke_session_eq: "ip_revoke_session (P e) sid p = (Inr (), snd (ip_revoke_session (P e) sid p))"
  using revoke_session_returns [of e sid p] by (simp add: prod_eq_iff)

lemma revoke_all_eq:
  "ip_revoke_all_sessions (P e) u p = (Inr (), snd (ip_revoke_all_sessions (P e) u p))"
  using revoke_all_returns [of e u p] by (simp add: prod_eq_iff)

end

subsection \<open>The in-memory provider\<close>

record account =
  acc_user_id :: string
  acc_archetype :: archetype
  acc_email :: string
  password_hash :: string
  email_verified :: bool
  disabled :: bool
  totp_secret :: "string option"
  totp_confirmed :: bool

definition account_view :: "account \<Rightarrow> provider_user" where
  "account_view a =
     \<lparr>pu_user_id = acc_user_id a, pu_archetype = acc_archetype a, pu_email = acc_email a,
      pu_email_verified = email_verified a, pu_totp_enrolled = totp_confirmed a,
      pu_disabled = disabled a\<rparr>"

record session_record =
  sr_session_id :: string
  sr_user_id :: string
  sr_archetype :: archetype
  issued_at :: instant
  expires_at :: instant
  device_fingerprint :: "string option"
  revoked :: bool

definition session_view :: "session_record \<Rightarrow> session" where
  "session_view r =
     \<lparr>ses_session_id = sr_session_id r, ses_user_id = sr_user_id r,
      ses_archetype = sr_archetype r, ses_issued_at = issued_at r,
      ses_expires_at = expires_at r, ses_device_fingerprint = device_fingerprint r\<rparr>"

record mem_provider =
  session_ttl :: duration
  accounts :: "string \<rightharpoonup> account"
  email_index :: "(archetype \<times> string) \<rightharpoonup> string"
  sessions :: "string \<rightharpoonup> session_record"

definition DEFAULT_SESSION_TTL :: duration where
  "DEFAULT_SESSION_TTL = 12 * 3600 * 1000000"

definition new_provider :: "duration \<Rightarrow> mem_provider" where
  "new_provider ttl =
     \<lparr>session_ttl = ttl, accounts = Map.empty, email_index = Map.empty, sessions = Map.empty\<rparr>"

definition find_account :: "string \<Rightarrow> mem_provider \<Rightarrow> exn + account" where
  "find_account user_id p =
     (case accounts p user_id of
        None \<Rightarrow> Inl (Exn (Auth AuthError) (''no account '' @ py_repr user_id))
      | Some a \<Rightarrow> Inr a)"

definition put_account :: "string \<Rightarrow> account \<Rightarrow> mem_provider \<Rightarrow> mem_provider" where
  "put_account user_id a p = p\<lparr>accounts := (accounts p)(user_id \<mapsto> a)\<rparr>"

definition provider_register ::
  "auth_libs \<Rightarrow> entropy \<Rightarrow> archetype \<Rightarrow> string \<Rightarrow> string \<Rightarrow> mem_provider \<Rightarrow>
     (exn + provider_user) \<times> mem_provider" where
  "provider_register L en a email password p =
     (let key = (a, str_lower email)
      in if key \<in> dom (email_index p)
         then (Inl (Exn (Auth AuthError) (''an account already exists for '' @ py_repr email @
                 '' in the '' @ archetype_value a @ '' archetype'')), p)
         else let acc = \<lparr>acc_user_id = env_uuid en, acc_archetype = a, acc_email = email,
                         password_hash = hash_password (argon L) (env_salt en) password,
                         email_verified = False, disabled = False, totp_secret = None,
                         totp_confirmed = False\<rparr>
           in (Inr (account_view acc),
               (put_account (acc_user_id acc) acc p)
                 \<lparr>email_index := (email_index p)(key \<mapsto> acc_user_id acc)\<rparr>))"

definition provider_get_user ::
  "string \<Rightarrow> mem_provider \<Rightarrow> (exn + provider_user) \<times> mem_provider" where
  "provider_get_user user_id p = (bindE (find_account user_id p) (\<lambda>a. Inr (account_view a)), p)"

definition key_error :: "string \<Rightarrow> exn" where
  "key_error k = Exn (Other KeyError) (py_repr k)"

definition provider_find_user_by_email ::
  "archetype \<Rightarrow> string \<Rightarrow> mem_provider \<Rightarrow> (exn + provider_user option) \<times> mem_provider" where
  "provider_find_user_by_email a email p =
     (case email_index p (a, str_lower email) of
        None \<Rightarrow> (Inr None, p)
      | Some user_id \<Rightarrow>
          (case accounts p user_id of
             None \<Rightarrow> (Inl (key_error user_id), p)
           | Some acc \<Rightarrow> (Inr (Some (account_view acc)), p)))"

definition authentication_failed :: exn where
  "authentication_failed = Exn (Auth AuthenticationFailed) ''authentication failed''"

definition account_disabled :: "string \<Rightarrow> exn" where
  "account_disabled user_id =
     Exn (Auth AccountDisabled) (''account '' @ user_id @ '' is disabled'')"

definition provider_authenticate ::
  "auth_libs \<Rightarrow> entropy \<Rightarrow> archetype \<Rightarrow> string \<Rightarrow> string \<Rightarrow> mem_provider \<Rightarrow>
     (exn + provider_user) \<times> mem_provider" where
  "provider_authenticate L en a email password p =
     (case email_index p (a, str_lower email) of
        None \<Rightarrow>
          (case verify_password (argon L) (hash_password (argon L) (env_salt en) ''decoy'') password of
             Inl e \<Rightarrow> (Inl e, p)
           | Inr _ \<Rightarrow> (Inl authentication_failed, p))
      | Some user_id \<Rightarrow>
          (case accounts p user_id of
             None \<Rightarrow> (Inl (key_error user_id), p)
           | Some acc \<Rightarrow>
               (case verify_password (argon L) (password_hash acc) password of
                  Inl e \<Rightarrow> (Inl e, p)
                | Inr ok \<Rightarrow>
                    if \<not> ok then (Inl authentication_failed, p)
                    else if disabled acc then (Inl (account_disabled user_id), p)
                    else (case needs_rehash (argon L) (password_hash acc) of
                            Inl e \<Rightarrow> (Inl e, p)
                          | Inr stale \<Rightarrow>
                              let acc' = (if stale
                                    then acc\<lparr>password_hash := hash_password (argon L) (env_salt en) password\<rparr>
                                    else acc)
                              in (Inr (account_view acc'), put_account user_id acc' p)))))"

definition provider_mark_email_verified ::
  "string \<Rightarrow> mem_provider \<Rightarrow> (exn + provider_user) \<times> mem_provider" where
  "provider_mark_email_verified user_id p =
     (case find_account user_id p of
        Inl e \<Rightarrow> (Inl e, p)
      | Inr acc \<Rightarrow> let acc' = acc\<lparr>email_verified := True\<rparr>
          in (Inr (account_view acc'), put_account user_id acc' p))"

definition provider_change_password ::
  "auth_libs \<Rightarrow> entropy \<Rightarrow> string \<Rightarrow> string \<Rightarrow> mem_provider \<Rightarrow> (exn + unit) \<times> mem_provider" where
  "provider_change_password L en user_id new_password p =
     (case find_account user_id p of
        Inl e \<Rightarrow> (Inl e, p)
      | Inr acc \<Rightarrow> (Inr (),
          put_account user_id
            (acc\<lparr>password_hash := hash_password (argon L) (env_salt en) new_password\<rparr>) p))"

definition provider_issue_session ::
  "entropy \<Rightarrow> string \<Rightarrow> string option \<Rightarrow> mem_provider \<Rightarrow> (exn + session) \<times> mem_provider" where
  "provider_issue_session en user_id fingerprint p =
     (case find_account user_id p of
        Inl e \<Rightarrow> (Inl e, p)
      | Inr acc \<Rightarrow>
          if disabled acc then (Inl (account_disabled user_id), p)
          else let issued = env_now en;
                   rec = \<lparr>sr_session_id = env_uuid en, sr_user_id = user_id,
                          sr_archetype = acc_archetype acc, issued_at = issued,
                          expires_at = issued + session_ttl p,
                          device_fingerprint = fingerprint, revoked = False\<rparr>
            in (Inr (session_view rec),
                p\<lparr>sessions := (sessions p)(sr_session_id rec \<mapsto> rec)\<rparr>))"

definition provider_get_session ::
  "entropy \<Rightarrow> string \<Rightarrow> mem_provider \<Rightarrow> (exn + session) \<times> mem_provider" where
  "provider_get_session en sid p =
     (case sessions p sid of
        None \<Rightarrow> (Inl (Exn (Auth SessionNotFound) (''no session '' @ py_repr sid)), p)
      | Some r \<Rightarrow>
          if revoked r
          then (Inl (Exn (Auth SessionRevoked) (''session '' @ py_repr sid @ '' is revoked'')), p)
          else if expires_at r \<le> env_now en
          then (Inl (Exn (Auth SessionRevoked) (''session '' @ py_repr sid @ '' has expired'')), p)
          else (Inr (session_view r), p))"

definition provider_revoke_session :: "string \<Rightarrow> mem_provider \<Rightarrow> (exn + unit) \<times> mem_provider" where
  "provider_revoke_session sid p =
     (case sessions p sid of
        None \<Rightarrow> (Inr (), p)
      | Some r \<Rightarrow> (Inr (), p\<lparr>sessions := (sessions p)(sid \<mapsto> r\<lparr>revoked := True\<rparr>)\<rparr>))"

definition revoke_if_user :: "string \<Rightarrow> session_record \<Rightarrow> session_record" where
  "revoke_if_user user_id r = (if sr_user_id r = user_id then r\<lparr>revoked := True\<rparr> else r)"

definition provider_revoke_all_sessions ::
  "string \<Rightarrow> mem_provider \<Rightarrow> (exn + unit) \<times> mem_provider" where
  "provider_revoke_all_sessions user_id p =
     (Inr (), p\<lparr>sessions := map_option (revoke_if_user user_id) \<circ> sessions p\<rparr>)"

definition provider_enrol_totp ::
  "auth_libs \<Rightarrow> entropy \<Rightarrow> string \<Rightarrow> mem_provider \<Rightarrow> (exn + totp_enrolment) \<times> mem_provider" where
  "provider_enrol_totp L en user_id p =
     (case find_account user_id p of
        Inl e \<Rightarrow> (Inl e, p)
      | Inr acc \<Rightarrow>
          if totp_confirmed acc
          then (Inl (Exn (Auth TotpAlreadyEnrolled)
                  (''account '' @ user_id @ '' already has TOTP enrolled'')), p)
          else let secret = env_base32 en
            in (Inr \<lparr>te_secret = secret,
                     te_provisioning_uri = provisioning_uri (otp L) secret (acc_email acc)\<rparr>,
                put_account user_id (acc\<lparr>totp_secret := Some secret, totp_confirmed := False\<rparr>) p))"

definition provider_verify_totp ::
  "auth_libs \<Rightarrow> entropy \<Rightarrow> string \<Rightarrow> string \<Rightarrow> mem_provider \<Rightarrow> (exn + bool) \<times> mem_provider" where
  "provider_verify_totp L en user_id user_code p =
     (case find_account user_id p of
        Inl e \<Rightarrow> (Inl e, p)
      | Inr acc \<Rightarrow>
          (case totp_secret acc of
             None \<Rightarrow> (Inl (Exn (Auth TotpNotEnrolled)
                        (''account '' @ user_id @ '' has not begun TOTP enrolment'')), p)
           | Some secret \<Rightarrow>
               if verify_totp (otp L) (env_now en) secret user_code DEFAULT_VALID_WINDOW
               then (Inr True, put_account user_id (acc\<lparr>totp_confirmed := True\<rparr>) p)
               else (Inr False, p)))"

definition provider_disable_account :: "string \<Rightarrow> mem_provider \<Rightarrow> (exn + unit) \<times> mem_provider" where
  "provider_disable_account user_id p =
     (case find_account user_id p of
        Inl e \<Rightarrow> (Inl e, p)
      | Inr acc \<Rightarrow>
          provider_revoke_all_sessions user_id (put_account user_id (acc\<lparr>disabled := True\<rparr>) p))"

definition mem_identity_provider :: "auth_libs \<Rightarrow> entropy \<Rightarrow> mem_provider identity_provider" where
  "mem_identity_provider L en =
     \<lparr>ip_register = provider_register L en,
      ip_get_user = provider_get_user,
      ip_find_user_by_email = provider_find_user_by_email,
      ip_authenticate = provider_authenticate L en,
      ip_mark_email_verified = provider_mark_email_verified,
      ip_change_password = provider_change_password L en,
      ip_issue_session = provider_issue_session en,
      ip_get_session = provider_get_session en,
      ip_revoke_session = provider_revoke_session,
      ip_revoke_all_sessions = provider_revoke_all_sessions,
      ip_enrol_totp = provider_enrol_totp L en,
      ip_verify_totp = provider_verify_totp L en,
      ip_disable_account = provider_disable_account\<rparr>"


subsection \<open>Runs of the provider\<close>

text \<open>
  A call with its arguments, its effect on the provider, and the runs: sequences of calls in
  each of which \<open>uuid4\<close> returns an id not in use, as its 122 random bits are relied on to.
\<close>

datatype provider_call =
    Call_register archetype string string
  | Call_get_user string
  | Call_find_user_by_email archetype string
  | Call_authenticate archetype string string
  | Call_mark_email_verified string
  | Call_change_password string string
  | Call_issue_session string "string option"
  | Call_get_session string
  | Call_revoke_session string
  | Call_revoke_all_sessions string
  | Call_enrol_totp string
  | Call_verify_totp string string
  | Call_disable_account string

fun run_call :: "auth_libs \<Rightarrow> entropy \<Rightarrow> provider_call \<Rightarrow> mem_provider \<Rightarrow> mem_provider" where
  "run_call L en (Call_register a e pw) p = snd (provider_register L en a e pw p)"
| "run_call L en (Call_get_user u) p = snd (provider_get_user u p)"
| "run_call L en (Call_find_user_by_email a e) p = snd (provider_find_user_by_email a e p)"
| "run_call L en (Call_authenticate a e pw) p = snd (provider_authenticate L en a e pw p)"
| "run_call L en (Call_mark_email_verified u) p = snd (provider_mark_email_verified u p)"
| "run_call L en (Call_change_password u pw) p = snd (provider_change_password L en u pw p)"
| "run_call L en (Call_issue_session u f) p = snd (provider_issue_session en u f p)"
| "run_call L en (Call_get_session sid) p = snd (provider_get_session en sid p)"
| "run_call L en (Call_revoke_session sid) p = snd (provider_revoke_session sid p)"
| "run_call L en (Call_revoke_all_sessions u) p = snd (provider_revoke_all_sessions u p)"
| "run_call L en (Call_enrol_totp u) p = snd (provider_enrol_totp L en u p)"
| "run_call L en (Call_verify_totp u c) p = snd (provider_verify_totp L en u c p)"
| "run_call L en (Call_disable_account u) p = snd (provider_disable_account u p)"

definition fresh_uuid :: "entropy \<Rightarrow> mem_provider \<Rightarrow> bool" where
  "fresh_uuid en p \<longleftrightarrow> accounts p (env_uuid en) = None \<and> sessions p (env_uuid en) = None"

inductive provider_run ::
  "auth_libs \<Rightarrow> mem_provider \<Rightarrow> provider_call list \<Rightarrow> mem_provider \<Rightarrow> bool" for L where
  run_nil: "provider_run L p [] p"
| run_step: "fresh_uuid en p \<Longrightarrow> provider_run L (run_call L en c p) cs p' \<Longrightarrow>
     provider_run L p (c # cs) p'"

inductive_cases provider_run_NilE [elim!]: "provider_run L p [] p'"
inductive_cases provider_run_ConsE [elim!]: "provider_run L p (c # cs) p'"

lemma provider_run_append:
  "provider_run L p cs q \<Longrightarrow> provider_run L q ds r \<Longrightarrow> provider_run L p (cs @ ds) r"
  by (induction rule: provider_run.induct) (auto intro: run_step)

subsection \<open>The invariant\<close>

definition account_ok :: "mem_provider \<Rightarrow> string \<Rightarrow> account \<Rightarrow> bool" where
  "account_ok p uid acc \<longleftrightarrow> acc_user_id acc = uid \<and>
     email_index p (acc_archetype acc, str_lower (acc_email acc)) = Some uid \<and>
     (totp_confirmed acc \<longrightarrow> totp_secret acc \<noteq> None)"

definition session_ok :: "mem_provider \<Rightarrow> string \<Rightarrow> session_record \<Rightarrow> bool" where
  "session_ok p sid r \<longleftrightarrow> sr_session_id r = sid \<and> expires_at r = issued_at r + session_ttl p \<and>
     (\<exists>acc. accounts p (sr_user_id r) = Some acc \<and> acc_archetype acc = sr_archetype r \<and>
        (disabled acc \<longrightarrow> revoked r))"

text \<open>
  The email index and the accounts agree, every session belongs to an account of its archetype,
  a disabled account has no unrevoked session and a confirmed second factor has a secret.
\<close>

definition provider_inv :: "mem_provider \<Rightarrow> bool" where
  "provider_inv p \<longleftrightarrow>
     (\<forall>uid acc. accounts p uid = Some acc \<longrightarrow> account_ok p uid acc) \<and>
     (\<forall>a e uid. email_index p (a, e) = Some uid \<longrightarrow>
        (\<exists>acc. accounts p uid = Some acc \<and> acc_archetype acc = a \<and> str_lower (acc_email acc) = e)) \<and>
     (\<forall>sid r. sessions p sid = Some r \<longrightarrow> session_ok p sid r)"

lemma provider_invD:
  assumes "provider_inv p"
  shows "accounts p uid = Some acc \<Longrightarrow> account_ok p uid acc"
    and "email_index p (a, e) = Some uid \<Longrightarrow>
      \<exists>acc. accounts p uid = Some acc \<and> acc_archetype acc = a \<and> str_lower (acc_email acc) = e"
    and "sessions p sid = Some r \<Longrightarrow> session_ok p sid r"
  using assms unfolding provider_inv_def by blast+

lemma find_account_simps [simp]:
  "find_account u p = Inr acc \<longleftrightarrow> accounts p u = Some acc"
  by (auto simp: find_account_def split: option.splits)

lemma find_account_known [simp]: "accounts p u = Some acc \<Longrightarrow> find_account u p = Inr acc"
  by simp

lemma put_account_sel [simp]:
  "accounts (put_account u a p) = (accounts p)(u \<mapsto> a)"
  "email_index (put_account u a p) = email_index p"
  "sessions (put_account u a p) = sessions p"
  "session_ttl (put_account u a p) = session_ttl p"
  by (simp_all add: put_account_def)

lemma revoke_if_user_sel [simp]:
  "sr_session_id (revoke_if_user u r) = sr_session_id r"
  "sr_user_id (revoke_if_user u r) = sr_user_id r"
  "sr_archetype (revoke_if_user u r) = sr_archetype r"
  "issued_at (revoke_if_user u r) = issued_at r"
  "expires_at (revoke_if_user u r) = expires_at r"
  "device_fingerprint (revoke_if_user u r) = device_fingerprint r"
  "revoked (revoke_if_user u r) \<longleftrightarrow> revoked r \<or> sr_user_id r = u"
  by (simp_all add: revoke_if_user_def)

lemma revoke_if_user_eq: "revoke_if_user u z = r \<Longrightarrow> revoked r \<longleftrightarrow> revoked z \<or> sr_user_id r = u"
  by auto

text \<open>Replacing an account by one with the same identity keeps the invariant.\<close>

lemma put_account_inv:
  assumes "provider_inv p" and "accounts p u = Some acc"
    and "acc_user_id acc' = acc_user_id acc" "acc_archetype acc' = acc_archetype acc"
      "acc_email acc' = acc_email acc"
    and "totp_confirmed acc' \<Longrightarrow> totp_secret acc' \<noteq> None"
    and "\<And>sid r. disabled acc' \<Longrightarrow> sessions p sid = Some r \<Longrightarrow> sr_user_id r = u \<Longrightarrow> revoked r"
  shows "provider_inv (put_account u acc' p)"
  using assms unfolding provider_inv_def account_ok_def session_ok_def
  by (auto split: if_splits) fastforce+

lemma disable_inv:
  assumes "provider_inv p"
  shows "provider_inv (snd (provider_disable_account u p))"
proof (cases "accounts p u")
  case None
  then show ?thesis using assms by (simp add: provider_disable_account_def find_account_def)
next
  case (Some acc)
  let ?q = "p\<lparr>sessions := map_option (revoke_if_user u) \<circ> sessions p\<rparr>"
  have q: "provider_inv ?q"
    using assms unfolding provider_inv_def account_ok_def session_ok_def
    by auto metis+
  have "snd (provider_disable_account u p) = put_account u (acc\<lparr>disabled := True\<rparr>) ?q"
    using Some by (simp add: provider_disable_account_def find_account_def
        provider_revoke_all_sessions_def put_account_def)
  moreover have "provider_inv (put_account u (acc\<lparr>disabled := True\<rparr>) ?q)"
  proof (rule put_account_inv [OF q])
    show "accounts ?q u = Some acc" using Some by simp
    show "totp_confirmed (acc\<lparr>disabled := True\<rparr>) \<Longrightarrow> totp_secret (acc\<lparr>disabled := True\<rparr>) \<noteq> None"
      using provider_invD(1) [OF assms Some] by (simp add: account_ok_def)
    show "\<And>sid r. sessions ?q sid = Some r \<Longrightarrow> sr_user_id r = u \<Longrightarrow> revoked r"
      by (auto dest: revoke_if_user_eq)
  qed simp_all
  ultimately show ?thesis by simp
qed


lemma register_inv:
  assumes "provider_inv p" and "fresh_uuid en p"
  shows "provider_inv (snd (provider_register L en a email pw p))"
proof (cases "email_index p (a, str_lower email)")
  case (Some u)
  then show ?thesis using assms by (simp add: provider_register_def Let_def domI)
next
  case None
  let ?u = "env_uuid en"
  define acc where "acc = \<lparr>acc_user_id = ?u, acc_archetype = a, acc_email = email,
    password_hash = hash_password (argon L) (env_salt en) pw, email_verified = False,
    disabled = False, totp_secret = None, totp_confirmed = False\<rparr>"
  define q where "q = (put_account ?u acc p)\<lparr>email_index := (email_index p)((a, str_lower email) \<mapsto> ?u)\<rparr>"
  have res: "snd (provider_register L en a email pw p) = q"
    using None by (simp add: provider_register_def Let_def q_def acc_def dom_def)
  have free: "accounts p ?u = None" using assms(2) by (simp add: fresh_uuid_def)
  have "account_ok q uid x" if "accounts q uid = Some x" for uid x
  proof (cases "uid = ?u")
    case True
    with that show ?thesis by (auto simp: q_def account_ok_def acc_def)
  next
    case False
    with that have "account_ok p uid x" using provider_invD(1) [OF assms(1)] by (simp add: q_def)
    with False None show ?thesis by (auto simp: q_def account_ok_def)
  qed
  moreover have "\<exists>x. accounts q uid = Some x \<and> acc_archetype x = b \<and> str_lower (acc_email x) = e"
    if "email_index q (b, e) = Some uid" for b e uid
  proof (cases "(b, e) = (a, str_lower email)")
    case True
    with that show ?thesis by (auto simp: q_def acc_def)
  next
    case False
    with that have "email_index p (b, e) = Some uid" by (auto simp: q_def split: if_splits)
    with provider_invD(2) [OF assms(1)] obtain x where
      "accounts p uid = Some x" "acc_archetype x = b" "str_lower (acc_email x) = e" by blast
    with free show ?thesis by (auto simp: q_def)
  qed
  moreover have "session_ok q sid r" if "sessions q sid = Some r" for sid r
    using that provider_invD(3) [OF assms(1), of sid r] free
    by (auto simp: q_def session_ok_def)
  ultimately show ?thesis unfolding res provider_inv_def by blast
qed

lemma issue_session_inv:
  assumes "provider_inv p"
  shows "provider_inv (snd (provider_issue_session en u f p))"
proof (cases "accounts p u")
  case None
  then show ?thesis using assms by (simp add: provider_issue_session_def find_account_def)
next
  case (Some acc)
  then show ?thesis
    using assms
    by (auto simp: provider_issue_session_def Let_def provider_inv_def account_ok_def
        session_ok_def)
qed

lemma revoke_session_inv:
  "provider_inv p \<Longrightarrow> provider_inv (snd (provider_revoke_session sid p))"
  unfolding provider_revoke_session_def provider_inv_def account_ok_def session_ok_def
  by (auto split: option.split) metis+

lemma revoke_all_sessions_inv:
  "provider_inv p \<Longrightarrow> provider_inv (snd (provider_revoke_all_sessions u p))"
  unfolding provider_revoke_all_sessions_def provider_inv_def account_ok_def session_ok_def
  by auto metis+

text \<open>The calls that change one account and neither its identity nor its sessions.\<close>

definition account_tweak :: "account \<Rightarrow> account \<Rightarrow> bool" where
  "account_tweak acc acc' \<longleftrightarrow> acc_user_id acc' = acc_user_id acc \<and>
     acc_archetype acc' = acc_archetype acc \<and> acc_email acc' = acc_email acc \<and>
     disabled acc' = disabled acc \<and> (totp_confirmed acc' \<longrightarrow> totp_secret acc' \<noteq> None)"

lemma put_account_tweak_inv:
  assumes "provider_inv p" and "accounts p u = Some acc" and "account_tweak acc acc'"
  shows "provider_inv (put_account u acc' p)"
proof (rule put_account_inv [OF assms(1,2)])
  fix sid r
  assume "disabled acc'" "sessions p sid = Some r" "sr_user_id r = u"
  with assms(3) provider_invD(3) [OF assms(1)] assms(2) show "revoked r"
    by (force simp: session_ok_def account_tweak_def)
qed (use assms(3) in \<open>simp_all add: account_tweak_def\<close>)

lemma on_account_inv:
  assumes "provider_inv p"
    and "\<And>acc. accounts p u = Some acc \<Longrightarrow> account_ok p u acc \<Longrightarrow> provider_inv (snd (f acc))"
  shows "provider_inv (snd (case find_account u p of Inl e \<Rightarrow> (Inl e, p) | Inr acc \<Rightarrow> f acc))"
  using assms by (cases "accounts p u") (auto simp: find_account_def provider_inv_def)

lemma account_tweaks:
  assumes inv: "provider_inv p"
  shows "provider_inv (snd (provider_mark_email_verified u p))"
    and "provider_inv (snd (provider_change_password L en u pw p))"
    and "provider_inv (snd (provider_enrol_totp L en u p))"
    and "provider_inv (snd (provider_verify_totp L en u c p))"
  unfolding provider_mark_email_verified_def provider_change_password_def
    provider_enrol_totp_def provider_verify_totp_def
  by (rule on_account_inv [OF inv], auto simp: Let_def inv account_ok_def account_tweak_def
      split: option.split intro!: put_account_tweak_inv [OF inv])+

lemma authenticate_inv:
  assumes inv: "provider_inv p"
  shows "provider_inv (snd (provider_authenticate L en a e pw p))"
proof (cases "email_index p (a, str_lower e)")
  case None
  then show ?thesis using inv by (auto simp: provider_authenticate_def split: sum.split)
next
  case (Some u)
  with provider_invD(2) [OF inv] obtain acc where acc: "accounts p u = Some acc" by blast
  then have "account_ok p u acc" by (rule provider_invD(1) [OF inv])
  with Some acc show ?thesis
    by (auto simp: provider_authenticate_def Let_def account_ok_def account_tweak_def inv
        split: sum.split intro!: put_account_tweak_inv [OF inv])
qed

lemma pure_calls [simp]:
  "snd (provider_get_user u p) = p"
  "snd (provider_find_user_by_email a e p) = p"
  "snd (provider_get_session en sid p) = p"
  by (simp_all add: provider_get_user_def provider_find_user_by_email_def
      provider_get_session_def split: option.split)

lemma run_call_inv:
  assumes "provider_inv p" and "fresh_uuid en p"
  shows "provider_inv (run_call L en c p)"
  by (cases c)
     (simp_all add: assms register_inv authenticate_inv account_tweaks issue_session_inv
       revoke_session_inv revoke_all_sessions_inv disable_inv)

lemma provider_run_inv: "provider_run L p cs q \<Longrightarrow> provider_inv p \<Longrightarrow> provider_inv q"
  by (induction rule: provider_run.induct) (auto intro: run_call_inv)

lemma new_provider_inv: "provider_inv (new_provider ttl)"
  by (simp add: provider_inv_def new_provider_def)


subsection \<open>What one call does to an account and to a session\<close>

text \<open>
  An account keeps its identity for ever, is never re-enabled, and its password hash and its
  second factor change only through the calls meant to change them.
\<close>

definition account_next ::
  "auth_libs \<Rightarrow> entropy \<Rightarrow> provider_call \<Rightarrow> account \<Rightarrow> account \<Rightarrow> bool" where
  "account_next L en c acc acc' \<longleftrightarrow>
     acc_user_id acc' = acc_user_id acc \<and> acc_archetype acc' = acc_archetype acc \<and>
     acc_email acc' = acc_email acc \<and>
     (disabled acc' \<longleftrightarrow> disabled acc \<or> c = Call_disable_account (acc_user_id acc)) \<and>
     (password_hash acc' = password_hash acc \<or>
      (\<exists>pw. password_hash acc' = hasher_hash (argon L) (env_salt en) pw \<and>
         (c = Call_change_password (acc_user_id acc) pw \<or>
          verify_password (argon L) (password_hash acc) pw = Inr True))) \<and>
     (totp_confirmed acc' = totp_confirmed acc \<or>
      (\<exists>user_code secret. c = Call_verify_totp (acc_user_id acc) user_code \<and> totp_confirmed acc' \<and>
         totp_secret acc = Some secret \<and>
         verify_totp (otp L) (env_now en) secret user_code DEFAULT_VALID_WINDOW))"

lemma account_next_refl:
  "c \<noteq> Call_disable_account (acc_user_id acc) \<Longrightarrow> account_next L en c acc acc"
  by (auto simp: account_next_def)

lemma register_accounts:
  assumes "accounts p u = Some acc" and "fresh_uuid en p"
  shows "accounts (snd (provider_register L en a e pw p)) u = Some acc"
  using assms by (auto simp: provider_register_def Let_def fresh_uuid_def)

lemma revoke_accounts [simp]:
  "accounts (snd (provider_revoke_session sid p)) = accounts p"
  "accounts (snd (provider_revoke_all_sessions u p)) = accounts p"
  "accounts (snd (provider_issue_session en u f p)) = accounts p"
  by (auto simp: provider_revoke_session_def provider_revoke_all_sessions_def
      provider_issue_session_def Let_def split: option.split sum.split)

lemma authenticate_accounts:
  assumes "provider_inv p" and "accounts p u = Some acc"
  shows "\<exists>acc'. accounts (snd (provider_authenticate L en a e pw p)) u = Some acc' \<and>
     account_next L en (Call_authenticate a e pw) acc acc'"
proof (cases "email_index p (a, str_lower e)")
  case None
  then have "snd (provider_authenticate L en a e pw p) = p"
    by (simp add: provider_authenticate_def split: sum.split)
  with assms(2) show ?thesis by (simp add: account_next_refl)
next
  case (Some v)
  with provider_invD(2) [OF assms(1)] obtain x where x: "accounts p v = Some x" by blast
  have same: ?thesis if "accounts (snd (provider_authenticate L en a e pw p)) u = Some acc"
    using that by (simp add: account_next_refl)
  show ?thesis
  proof (cases "u = v \<and> verify_password (argon L) (password_hash x) pw = Inr True")
    case True
    with x assms(2) Some show ?thesis
      by (auto simp: provider_authenticate_def Let_def account_next_def hash_password_def
          split: sum.split)
  next
    case False
    with x assms(2) Some show ?thesis
      by (intro same) (auto simp: provider_authenticate_def Let_def split: sum.split)
  qed
qed

lemma run_call_accounts:
  assumes inv: "provider_inv p" and acc: "accounts p u = Some acc" and "fresh_uuid en p"
  shows "\<exists>acc'. accounts (run_call L en c p) u = Some acc' \<and> account_next L en c acc acc'"
proof -
  have u: "acc_user_id acc = u" using provider_invD(1) [OF inv acc] by (simp add: account_ok_def)
  show ?thesis
  proof (cases c)
    case (Call_register a e pw)
    with assms show ?thesis by (auto simp: register_accounts account_next_refl)
  next
    case (Call_authenticate a e pw)
    with authenticate_accounts [OF inv acc] show ?thesis by simp
  next
    case (Call_mark_email_verified v)
    with acc u show ?thesis
      by (cases "accounts p v")
         (auto simp: provider_mark_email_verified_def find_account_def Let_def account_next_def)
  next
    case (Call_change_password v pw)
    with acc u show ?thesis
      by (cases "accounts p v")
         (auto simp: provider_change_password_def find_account_def account_next_def hash_password_def)
  next
    case (Call_enrol_totp v)
    with acc u show ?thesis
      by (cases "accounts p v")
         (auto simp: provider_enrol_totp_def find_account_def Let_def account_next_def)
  next
    case (Call_verify_totp v user_code)
    with acc u show ?thesis
      by (cases "accounts p v")
         (auto simp: provider_verify_totp_def find_account_def account_next_def split: option.split)
  next
    case (Call_disable_account v)
    with acc u show ?thesis
      by (cases "accounts p v")
         (auto simp: provider_disable_account_def find_account_def account_next_def)
  qed (use acc in \<open>simp_all add: account_next_refl\<close>)
qed

text \<open>A session keeps everything but its revocation flag, which is never cleared.\<close>

definition revoking :: "session_record \<Rightarrow> provider_call \<Rightarrow> bool" where
  "revoking r c \<longleftrightarrow> c = Call_revoke_session (sr_session_id r) \<or>
     c = Call_revoke_all_sessions (sr_user_id r) \<or> c = Call_disable_account (sr_user_id r)"

lemma run_call_sessions:
  assumes inv: "provider_inv p" and r: "sessions p sid = Some r" and fresh: "fresh_uuid en p"
  shows "sessions (run_call L en c p) sid = Some (r\<lparr>revoked := revoked r \<or> revoking r c\<rparr>)"
proof -
  have sid: "sr_session_id r = sid" and acc: "\<exists>x. accounts p (sr_user_id r) = Some x"
    using provider_invD(3) [OF inv r] by (auto simp: session_ok_def)
  have keep: "r\<lparr>revoked := revoked r\<rparr> = r" "revoked r \<Longrightarrow> r\<lparr>revoked := True\<rparr> = r" by simp_all
  show ?thesis
  proof (cases c)
    case (Call_issue_session u f)
    with r fresh show ?thesis
      by (auto simp: provider_issue_session_def Let_def revoking_def fresh_uuid_def split: sum.split)
  next
    case (Call_revoke_session s)
    with r sid show ?thesis
      by (cases "s = sid") (auto simp: provider_revoke_session_def revoking_def split: option.split)
  next
    case (Call_revoke_all_sessions u)
    with r show ?thesis
      by (auto simp: provider_revoke_all_sessions_def revoking_def revoke_if_user_def)
  next
    case (Call_disable_account u)
    with r acc show ?thesis
      by (cases "u = sr_user_id r"; cases "accounts p u")
         (auto simp: provider_disable_account_def find_account_def revoking_def
           provider_revoke_all_sessions_def revoke_if_user_def)
  qed (use r in \<open>auto simp: revoking_def provider_register_def provider_authenticate_def
      provider_mark_email_verified_def provider_change_password_def provider_enrol_totp_def
      provider_verify_totp_def Let_def split: sum.split option.split\<close>)
qed

lemma provider_run_session:
  assumes "provider_run L p cs q" and "provider_inv p" and "sessions p sid = Some r"
  shows "sessions q sid = Some (r\<lparr>revoked := revoked r \<or> (\<exists>c \<in> set cs. revoking r c)\<rparr>)"
  using assms
proof (induction arbitrary: r rule: provider_run.induct)
  case (run_nil p)
  then show ?case by simp
next
  case (run_step en p c cs q)
  let ?r = "r\<lparr>revoked := revoked r \<or> revoking r c\<rparr>"
  have "revoking ?r = revoking r" by (simp add: revoking_def fun_eq_iff)
  with run_step.IH [OF run_call_inv [OF run_step.prems(1) run_step.hyps(1)]
      run_call_sessions [OF run_step.prems run_step.hyps(1)]]
  show ?case by (simp add: disj_assoc)
qed

lemma provider_run_account:
  assumes "provider_run L p cs q" and "provider_inv p" and "accounts p u = Some acc"
  shows "\<exists>acc'. accounts q u = Some acc' \<and> acc_archetype acc' = acc_archetype acc \<and>
     acc_email acc' = acc_email acc \<and> (disabled acc \<longrightarrow> disabled acc')"
  using assms
proof (induction arbitrary: acc rule: provider_run.induct)
  case (run_nil p)
  then show ?case by simp
next
  case (run_step en p c cs q)
  from run_call_accounts [OF run_step.prems run_step.hyps(1), of L c] obtain x where
    x: "accounts (run_call L en c p) u = Some x" "account_next L en c acc x" by blast
  from run_step.IH [OF run_call_inv [OF run_step.prems(1) run_step.hyps(1)] x(1)] x(2)
  show ?case by (auto simp: account_next_def)
qed


lemma authenticate_outcome:
  assumes "argon2_ok (argon L)"
  shows "fst (provider_authenticate L en a e pw p) =
     (case email_index p (a, str_lower e) of
        None \<Rightarrow> Inl authentication_failed
      | Some u \<Rightarrow>
          (case accounts p u of
             None \<Rightarrow> Inl (key_error u)
           | Some acc \<Rightarrow>
               if verify_password (argon L) (password_hash acc) pw \<noteq> Inr True
               then Inl authentication_failed
               else if disabled acc then Inl (account_disabled u)
               else (case needs_rehash (argon L) (password_hash acc) of
                       Inl x \<Rightarrow> Inl x | Inr _ \<Rightarrow> Inr (account_view acc))))"
proof -
  have total: "\<exists>b. verify_password (argon L) h q = Inr b" for h q
    using verify_password_total [OF assms] .
  obtain b where decoy: "verify_password (argon L) (hash_password (argon L) (env_salt en) ''decoy'') pw = Inr b"
    using total by blast
  show ?thesis
  proof (cases "email_index p (a, str_lower e)")
    case None
    with decoy show ?thesis by (simp add: provider_authenticate_def)
  next
    case (Some u)
    show ?thesis
    proof (cases "accounts p u")
      case None
      with Some show ?thesis by (simp add: provider_authenticate_def)
    next
      case acc: (Some acc)
      obtain b where "verify_password (argon L) (password_hash acc) pw = Inr b"
        using total by blast
      with Some acc show ?thesis
        by (simp add: provider_authenticate_def Let_def account_view_def split: sum.split)
    qed
  qed
qed

text \<open>The stored hash is one of the plaintext \<open>pw\<close>, made with the current cost profile.\<close>

definition has_password :: "auth_libs \<Rightarrow> mem_provider \<Rightarrow> string \<Rightarrow> string \<Rightarrow> bool" where
  "has_password L p u pw \<longleftrightarrow>
     (\<exists>acc salt. accounts p u = Some acc \<and> password_hash acc = hasher_hash (argon L) salt pw)"

lemma has_password_authenticate:
  assumes "argon2_ok (argon L)" and "provider_inv p"
    and "accounts p u = Some acc" and "password_hash acc = hasher_hash (argon L) salt pw"
    and "str_lower e = str_lower (acc_email acc)"
  shows "fst (provider_authenticate L en (acc_archetype acc) e q p) =
     (if q \<noteq> pw then Inl authentication_failed
      else if disabled acc then Inl (account_disabled u) else Inr (account_view acc))"
proof -
  have "email_index p (acc_archetype acc, str_lower e) = Some u"
    using provider_invD(1) [OF assms(2,3)] assms(5) by (simp add: account_ok_def)
  moreover have "needs_rehash (argon L) (password_hash acc) = Inr False"
    using assms(1,4) by (simp add: argon2_ok_def needs_rehash_def)
  ultimately show ?thesis
    using assms by (simp add: authenticate_outcome verify_password_other eq_commute [of pw])
qed

lemma has_password_step:
  assumes "argon2_ok (argon L)" and "provider_inv p" and "fresh_uuid en p"
    and "has_password L p u pw" and "\<And>q. c \<noteq> Call_change_password u q"
  shows "has_password L (run_call L en c p) u pw"
proof -
  from assms(4) obtain acc salt where
    acc: "accounts p u = Some acc" "password_hash acc = hasher_hash (argon L) salt pw"
    by (auto simp: has_password_def)
  have u: "acc_user_id acc = u" using provider_invD(1) [OF assms(2) acc(1)] by (simp add: account_ok_def)
  from run_call_accounts [OF assms(2) acc(1) assms(3), of L c] obtain acc' where
    acc': "accounts (run_call L en c p) u = Some acc'" "account_next L en c acc acc'" by blast
  from acc'(2) have "\<exists>salt. password_hash acc' = hasher_hash (argon L) salt pw"
    using assms(5) u acc(2) verify_password_other [OF assms(1)]
    by (auto simp: account_next_def)
  with acc'(1) show ?thesis by (auto simp: has_password_def)
qed

lemma has_password_run:
  assumes "provider_run L p cs q" and "argon2_ok (argon L)" and "provider_inv p"
    and "has_password L p u pw" and "\<And>x. Call_change_password u x \<notin> set cs"
  shows "has_password L q u pw"
  using assms
proof (induction rule: provider_run.induct)
  case (run_nil p)
  then show ?case by simp
next
  case (run_step en p c cs q)
  then have "has_password L (run_call L en c p) u pw"
    by (intro has_password_step) auto
  with run_step show ?case by (auto intro: run_call_inv)
qed

lemma get_session_Inr:
  "fst (provider_get_session en sid p) = Inr ses \<longleftrightarrow>
     (\<exists>r. sessions p sid = Some r \<and> \<not> revoked r \<and> env_now en < expires_at r \<and> ses = session_view r)"
  by (auto simp: provider_get_session_def split: option.split)

text \<open>The in-memory provider keeps the protocol's contract.\<close>

interpretation mem_idp: identity_provider_contract "mem_identity_provider L" for L
proof unfold_locales
  fix en en' u sid ses p
  let ?P = "mem_identity_provider L en" and ?P' = "mem_identity_provider L en'"
  show "fst (ip_revoke_session ?P sid p) = Inr ()"
    by (simp add: mem_identity_provider_def provider_revoke_session_def split: option.split)
  show "fst (ip_get_session ?P' sid (snd (ip_revoke_session ?P sid p))) \<noteq> Inr ses"
    by (auto simp: mem_identity_provider_def get_session_Inr provider_revoke_session_def
        split: option.split)
  show "fst (ip_revoke_all_sessions ?P u p) = Inr ()"
    by (simp add: mem_identity_provider_def provider_revoke_all_sessions_def)
  show "ses_user_id ses \<noteq> u"
    if "fst (ip_get_session ?P' sid (snd (ip_revoke_all_sessions ?P u p))) = Inr ses"
    using that by (auto simp: mem_identity_provider_def get_session_Inr
        provider_revoke_all_sessions_def session_view_def)
  show "ses_user_id ses \<noteq> u"
    if "fst (ip_disable_account ?P u p) = Inr ()"
      "fst (ip_get_session ?P' sid (snd (ip_disable_account ?P u p))) = Inr ses"
    using that by (auto simp: mem_identity_provider_def get_session_Inr provider_disable_account_def
        provider_revoke_all_sessions_def session_view_def split: sum.splits)
  show "snd (ip_get_session ?P sid p) = p"
    by (simp add: mem_identity_provider_def)
qed

subsection \<open>A concrete provider\<close>

text \<open>One registered account, with the sample libraries of \<open>Credentials\<close>.\<close>

definition demo_libs :: auth_libs where
  "demo_libs = \<lparr>argon = demo_argon2, otp = demo_pyotp\<rparr>"

definition demo_entropy :: "instant \<Rightarrow> string \<Rightarrow> entropy" where
  "demo_entropy t u = \<lparr>env_now = t, env_uuid = u, env_salt = ''salt'', env_base32 = ''JBSW''\<rparr>"

definition demo_account :: account where
  "demo_account = \<lparr>acc_user_id = ''u1'', acc_archetype = OPERATOR, acc_email = ''Ann'',
     password_hash = ''$argon2id$pw'', email_verified = False, disabled = False,
     totp_secret = None, totp_confirmed = False\<rparr>"

definition demo_provider :: mem_provider where
  "demo_provider = \<lparr>session_ttl = 100, accounts = [''u1'' \<mapsto> demo_account],
     email_index = [(OPERATOR, ''ann'') \<mapsto> ''u1''], sessions = Map.empty\<rparr>"

lemma demo_libs_ok [simp]: "argon2_ok (argon demo_libs)"
  by (simp add: demo_libs_def demo_argon2_ok)

lemma str_lower_ann [simp]: "str_lower ''Ann'' = ''ann''" "str_lower ''ANN'' = ''ann''"
  by code_simp+

lemma demo_register:
  "provider_register demo_libs (demo_entropy 0 ''u1'') OPERATOR ''Ann'' ''pw'' (new_provider 100) =
     (Inr (account_view demo_account), demo_provider)"
  by (simp add: provider_register_def Let_def new_provider_def put_account_def demo_provider_def
      demo_account_def demo_entropy_def demo_libs_def demo_argon2_def hash_password_def)

lemma demo_accounts [simp]: "accounts demo_provider ''u1'' = Some demo_account"
  by (simp add: demo_provider_def)

lemma demo_account_view [simp]:
  "pu_user_id (account_view demo_account) = ''u1''" "\<not> pu_totp_enrolled (account_view demo_account)"
  "\<not> disabled demo_account"
  by (simp_all add: account_view_def demo_account_def)

lemma demo_fresh: "u \<noteq> ''u1'' \<Longrightarrow> fresh_uuid (demo_entropy t u) demo_provider"
  by (simp add: fresh_uuid_def demo_provider_def demo_entropy_def)

lemma demo_run:
  "provider_run demo_libs (new_provider 100) [Call_register OPERATOR ''Ann'' ''pw''] demo_provider"
  by (rule run_step [of "demo_entropy 0 ''u1''"])
     (simp_all add: demo_register fresh_uuid_def new_provider_def [symmetric] run_nil,
      simp add: new_provider_def)

lemma demo_wrong_password:
  "x \<noteq> ''pw'' \<Longrightarrow>
     fst (provider_authenticate demo_libs en OPERATOR ''Ann'' x demo_provider) = Inl authentication_failed"
  using has_password_authenticate [OF demo_libs_ok provider_run_inv [OF demo_run new_provider_inv]
      demo_accounts, of "''salt''" "''pw''" "''Ann''" en x]
  by (simp add: demo_libs_def demo_argon2_def demo_account_def)

subsection \<open>Properties\<close>

text \<open>
  C29: every state the provider reaches from an empty one satisfies \<open>provider_inv\<close>: the email
  index and the accounts name each other, every session belongs to an existing account of the
  same archetype and lasts the configured time, a disabled account has only revoked sessions, and
  a confirmed second factor has a secret.
\<close>

theorem provider_reachable_inv:
  assumes "provider_run L (new_provider ttl) cs p"
  shows "provider_inv p"
  using assms new_provider_inv by (rule provider_run_inv)

theorem provider_reachable_inv_witness: "provider_inv demo_provider"
  by (rule provider_reachable_inv [OF demo_run])

text \<open>
  C8: authentication does not tell whether an address is registered: in every reachable state the
  call raises one and the same exception, class and message, for an unknown address and for a
  wrong password, and a disabled account shows only to a caller who holds its password; it never
  ends in a \<open>KeyError\<close>, and it changes no account on failure.
\<close>

theorem authenticate_no_enumeration:
  assumes "argon2_ok (argon L)" and "provider_run L (new_provider ttl) cs p"
  shows "case provider_authenticate L en a e pw p of
     (Inl x, p') \<Rightarrow> p' = p \<and>
       (case email_index p (a, str_lower e) of
          None \<Rightarrow> x = authentication_failed
        | Some u \<Rightarrow> \<exists>acc. accounts p u = Some acc \<and>
            (verify_password (argon L) (password_hash acc) pw = Inr False \<and> x = authentication_failed \<or>
             verify_password (argon L) (password_hash acc) pw = Inr True \<and>
               (disabled acc \<and> x = account_disabled u \<or>
                \<not> disabled acc \<and> needs_rehash (argon L) (password_hash acc) = Inl x)))
   | (Inr user, p') \<Rightarrow> \<exists>u acc. email_index p (a, str_lower e) = Some u \<and> accounts p u = Some acc \<and>
       verify_password (argon L) (password_hash acc) pw = Inr True \<and> \<not> disabled acc \<and>
       user = account_view acc"
proof -
  have inv: "provider_inv p"
    using assms(2) new_provider_inv by (rule provider_run_inv)
  have total: "\<exists>b. verify_password (argon L) h q = Inr b" for h q
    using verify_password_total [OF assms(1)] .
  obtain b where decoy: "verify_password (argon L) (hash_password (argon L) (env_salt en) ''decoy'') pw = Inr b"
    using total by blast
  show ?thesis
  proof (cases "email_index p (a, str_lower e)")
    case None
    with decoy show ?thesis by (simp add: provider_authenticate_def)
  next
    case (Some u)
    with provider_invD(2) [OF inv] obtain acc where acc: "accounts p u = Some acc" by blast
    obtain b where "verify_password (argon L) (password_hash acc) pw = Inr b"
      using total by blast
    with Some acc show ?thesis
      by (simp add: provider_authenticate_def Let_def account_view_def split: sum.split)
  qed
qed


theorem authenticate_no_enumeration_witness:
  "fst (provider_authenticate demo_libs (demo_entropy 5 ''r'') OPERATOR ''bob'' ''pw'' demo_provider) =
     Inl authentication_failed \<and>
   fst (provider_authenticate demo_libs (demo_entropy 5 ''r'') OPERATOR ''ANN'' ''no'' demo_provider) =
     Inl authentication_failed"
proof -
  let ?en = "demo_entropy 5 ''r''"
  have "str_lower ''bob'' = ''bob''" by code_simp
  then have "fst (provider_authenticate demo_libs ?en OPERATOR ''bob'' ''pw'' demo_provider) =
      Inl authentication_failed"
    using authenticate_no_enumeration [OF demo_libs_ok demo_run, where en = ?en and a = OPERATOR
        and e = "''bob''" and pw = "''pw''"]
    by (simp add: case_prod_beta demo_provider_def split: sum.splits)
  moreover have "verify_password (argon demo_libs) (password_hash demo_account) ''no'' = Inr False"
    by (simp add: demo_libs_def demo_account_def demo_argon2_def verify_password_def catches_def)
  then have "fst (provider_authenticate demo_libs ?en OPERATOR ''ANN'' ''no'' demo_provider) =
      Inl authentication_failed"
    using authenticate_no_enumeration [OF demo_libs_ok demo_run, where en = ?en and a = OPERATOR
        and e = "''ANN''" and pw = "''no''"]
    by (simp add: case_prod_beta demo_provider_def split: sum.splits)
  ultimately show ?thesis by blast
qed

text \<open>
  A password holds until it is changed: after \<open>change_password\<close> succeeds, and through any
  sequence of provider calls that does not change this account's password again, authenticating
  with the account's address in any letter case accepts exactly the new password.
\<close>

theorem change_password_replaces:
  assumes "argon2_ok (argon L)" and "provider_run L (new_provider ttl) cs p"
    and "fresh_uuid en p" and "provider_change_password L en u pw p = (Inr (), p1)"
    and "provider_run L p1 ds q" and "\<And>x. Call_change_password u x \<notin> set ds"
    and "accounts q u = Some acc" and "str_lower e = str_lower (acc_email acc)"
  shows "fst (provider_authenticate L en' (acc_archetype acc) e x q) =
     (if x \<noteq> pw then Inl authentication_failed
      else if disabled acc then Inl (account_disabled u) else Inr (account_view acc))"
proof -
  have inv: "provider_inv p" using assms(2) new_provider_inv by (rule provider_run_inv)
  then have inv1: "provider_inv p1"
    using assms(4) account_tweaks(2) [OF inv, of L en u pw] by simp
  have "has_password L p1 u pw"
    using assms(4) by (auto simp: provider_change_password_def has_password_def hash_password_def
        split: sum.splits)
  then have "has_password L q u pw"
    using has_password_run [OF assms(5,1) inv1] assms(6) by blast
  then show ?thesis
    using has_password_authenticate [OF assms(1) provider_run_inv [OF assms(5) inv1] assms(7) _ assms(8)]
      assms(7) by (auto simp: has_password_def)
qed

theorem change_password_replaces_witness:
  "let q = snd (provider_change_password demo_libs (demo_entropy 5 ''r'') ''u1'' ''new'' demo_provider)
   in isl (fst (provider_authenticate demo_libs (demo_entropy 6 ''r'') OPERATOR ''ANN'' ''pw'' q)) \<and>
      \<not> isl (fst (provider_authenticate demo_libs (demo_entropy 6 ''r'') OPERATOR ''ANN'' ''new'' q))"
proof -
  let ?en = "demo_entropy 5 ''r''" and ?en' = "demo_entropy 6 ''r''"
  define q where "q = snd (provider_change_password demo_libs ?en ''u1'' ''new'' demo_provider)"
  have change: "provider_change_password demo_libs ?en ''u1'' ''new'' demo_provider = (Inr (), q)"
    by (simp add: q_def provider_change_password_def find_account_def demo_provider_def)
  have acc: "accounts q ''u1'' = Some (demo_account\<lparr>password_hash := ''$argon2id$new''\<rparr>)"
    by (simp add: q_def provider_change_password_def find_account_def demo_provider_def
        demo_libs_def demo_argon2_def hash_password_def)
  have "fst (provider_authenticate demo_libs ?en' OPERATOR ''ANN'' x q) =
      (if x \<noteq> ''new'' then Inl authentication_failed
       else Inr (account_view (demo_account\<lparr>password_hash := ''$argon2id$new''\<rparr>)))" for x
    using change_password_replaces [OF demo_libs_ok demo_run demo_fresh change run_nil _ acc,
        where e = "''ANN''" and x = x and en' = ?en']
    by (simp add: demo_account_def)
  then show ?thesis unfolding Let_def q_def [symmetric] by simp
qed

text \<open>
  A registered account can be authenticated at once: registration of a free address returns an
  unverified, enabled account without a second factor, leaves every other account and all
  sessions alone, and until the password is changed the account authenticates with exactly the
  registered password; registering the address again, in any letter case, is refused.
\<close>

theorem register_then_authenticate:
  assumes "argon2_ok (argon L)" and "provider_run L (new_provider ttl) cs p"
    and "fresh_uuid en p" and "provider_register L en a email pw p = (Inr user, p1)"
    and "provider_run L p1 ds q" and "\<And>x. Call_change_password (pu_user_id user) x \<notin> set ds"
    and "str_lower e = str_lower email"
  shows "\<not> pu_email_verified user \<and> \<not> pu_totp_enrolled user \<and> \<not> pu_disabled user \<and>
     accounts p1 = (accounts p)(pu_user_id user \<mapsto> the (accounts p1 (pu_user_id user))) \<and>
     sessions p1 = sessions p \<and>
     (\<exists>acc. accounts q (pu_user_id user) = Some acc \<and> acc_email acc = email \<and>
        fst (provider_authenticate L en' a e x q) =
          (if x \<noteq> pw then Inl authentication_failed
           else if disabled acc then Inl (account_disabled (pu_user_id user))
           else Inr (account_view acc))) \<and>
     raises (fst (provider_register L en'' a e y q)) (Auth AuthError)"
proof -
  have inv: "provider_inv p" using assms(2) new_provider_inv by (rule provider_run_inv)
  then have inv1: "provider_inv p1"
    using assms(4) register_inv [OF inv assms(3), of L a email pw] by simp
  let ?u = "pu_user_id user"
  have free: "(a, str_lower email) \<notin> dom (email_index p)"
    using assms(4) by (auto simp: provider_register_def Let_def split: if_splits)
  define acc where "acc = \<lparr>acc_user_id = env_uuid en, acc_archetype = a, acc_email = email,
    password_hash = hash_password (argon L) (env_salt en) pw, email_verified = False,
    disabled = False, totp_secret = None, totp_confirmed = False\<rparr>"
  have "user = account_view acc"
    and p1: "p1 = (put_account (env_uuid en) acc p)
      \<lparr>email_index := (email_index p)((a, str_lower email) \<mapsto> env_uuid en)\<rparr>"
    using assms(4) free by (simp_all add: provider_register_def Let_def acc_def split: if_splits)
  then have rest: "accounts p1 = (accounts p)(?u \<mapsto> acc)" "sessions p1 = sessions p"
    by (simp_all add: account_view_def acc_def)
  have acc: "accounts p1 ?u = Some acc" "acc_archetype acc = a" "acc_email acc = email"
      "password_hash acc = hasher_hash (argon L) (env_salt en) pw" "user = account_view acc"
      "\<not> email_verified acc" "\<not> totp_confirmed acc" "\<not> disabled acc"
    using rest \<open>user = account_view acc\<close> by (simp_all add: acc_def hash_password_def)
  then have "has_password L p1 ?u pw" by (auto simp: has_password_def)
  then have hp: "has_password L q ?u pw"
    using has_password_run [OF assms(5,1) inv1] assms(6) by blast
  have invq: "provider_inv q" using assms(5) inv1 by (rule provider_run_inv)
  from provider_run_account [OF assms(5) inv1 acc(1)] acc obtain acc' where
    acc': "accounts q ?u = Some acc'" "acc_archetype acc' = a" "acc_email acc' = email" by auto
  have "email_index q (a, str_lower e) = Some ?u"
    using provider_invD(1) [OF invq acc'(1)] acc' assms(7) by (simp add: account_ok_def)
  then have "raises (fst (provider_register L en'' a e y q)) (Auth AuthError)"
    by (simp add: provider_register_def Let_def domI)
  moreover have "fst (provider_authenticate L en' a e x q) =
      (if x \<noteq> pw then Inl authentication_failed
       else if disabled acc' then Inl (account_disabled ?u) else Inr (account_view acc'))"
    using has_password_authenticate [OF assms(1) invq acc'(1), of _ pw e en' x] hp acc' assms(7)
    by (auto simp: has_password_def)
  ultimately show ?thesis using acc rest acc' by (auto simp: account_view_def)
qed

theorem register_then_authenticate_witness:
  "\<not> isl (fst (provider_authenticate demo_libs (demo_entropy 6 ''r'') OPERATOR ''ANN'' ''pw'' demo_provider)) \<and>
   isl (fst (provider_authenticate demo_libs (demo_entropy 6 ''r'') OPERATOR ''ANN'' ''PW'' demo_provider))"
proof -
  have "fresh_uuid (demo_entropy 0 ''u1'') (new_provider 100)"
    by (simp add: fresh_uuid_def new_provider_def)
  from register_then_authenticate [OF demo_libs_ok run_nil this demo_register run_nil,
      where e = "''ANN''" and en' = "demo_entropy 6 ''r''" and x = "''pw''"]
    register_then_authenticate [OF demo_libs_ok run_nil this demo_register run_nil,
      where e = "''ANN''" and en' = "demo_entropy 6 ''r''" and x = "''PW''"]
  show ?thesis by simp
qed

text \<open>
  C30: disabling an account is final and immediate: after it, and through any sequence of provider
  calls, no login of this account succeeds, no session of it is returned and none can be issued.
\<close>

theorem disabled_account_locked_out:
  assumes "argon2_ok (argon L)" and "provider_run L (new_provider ttl) cs p"
    and "provider_disable_account u p = (Inr (), p1)" and "provider_run L p1 ds q"
  shows "(fst (provider_authenticate L en a e pw q) = Inr user \<longrightarrow> pu_user_id user \<noteq> u) \<and>
     (fst (provider_get_session en sid q) = Inr ses \<longrightarrow> ses_user_id ses \<noteq> u) \<and>
     provider_issue_session en u f q = (Inl (account_disabled u), q)"
proof -
  have inv: "provider_inv p" using assms(2) new_provider_inv by (rule provider_run_inv)
  then have inv1: "provider_inv p1" using assms(3) disable_inv [OF inv, of u] by simp
  obtain acc where "accounts p1 u = Some acc" "disabled acc"
    using assms(3)
    by (auto simp: provider_disable_account_def provider_revoke_all_sessions_def split: sum.splits)
  with provider_run_account [OF assms(4) inv1] obtain acc' where
    acc: "accounts q u = Some acc'" "disabled acc'" by blast
  have invq: "provider_inv q" using assms(4) inv1 by (rule provider_run_inv)
  have "pu_user_id user \<noteq> u" if "fst (provider_authenticate L en a e pw q) = Inr user"
  proof
    assume "pu_user_id user = u"
    from that obtain v x where x: "accounts q v = Some x" "\<not> disabled x" "user = account_view x"
      by (auto simp: authenticate_outcome [OF assms(1)] split: option.splits if_splits sum.splits)
    with provider_invD(1) [OF invq x(1)] \<open>pu_user_id user = u\<close> have "v = u"
      by (simp add: account_view_def account_ok_def)
    with acc x show False by simp
  qed
  moreover have "ses_user_id ses \<noteq> u" if "fst (provider_get_session en sid q) = Inr ses"
    using that provider_invD(3) [OF invq] acc
    by (force simp: get_session_Inr session_ok_def session_view_def)
  moreover have "provider_issue_session en u f q = (Inl (account_disabled u), q)"
    using acc by (simp add: provider_issue_session_def)
  ultimately show ?thesis by blast
qed

theorem disabled_account_locked_out_witness:
  "let q = snd (provider_disable_account ''u1'' demo_provider)
   in provider_issue_session (demo_entropy 6 ''s'') ''u1'' None q = (Inl (account_disabled ''u1''), q)"
proof -
  define q where "q = snd (provider_disable_account ''u1'' demo_provider)"
  have "provider_disable_account ''u1'' demo_provider = (Inr (), q)"
    by (simp add: q_def provider_disable_account_def find_account_def demo_provider_def
        provider_revoke_all_sessions_def)
  from disabled_account_locked_out [OF demo_libs_ok demo_run this run_nil,
      where en = "demo_entropy 6 ''s''" and f = None]
  show ?thesis unfolding Let_def q_def [symmetric] by blast
qed

text \<open>
  C7: an issued session is returned, unchanged, exactly until the first call that revokes it (by
  its id, with all of its account's sessions, or by disabling the account) or until its
  time-to-live has elapsed, whatever else happens in between; from then on
  \<open>get_session\<close> raises \<open>SessionRevoked\<close>, for ever.
\<close>

theorem session_live_until_revoked:
  assumes "provider_run L (new_provider ttl) cs p" and "fresh_uuid en p"
    and "provider_issue_session en u f p = (Inr ses, p1)" and "provider_run L p1 ds q"
  shows "fst (provider_get_session en' (ses_session_id ses) q) =
     (if (\<exists>c \<in> set ds. c \<in> {Call_revoke_session (ses_session_id ses),
            Call_revoke_all_sessions u, Call_disable_account u})
      then Inl (Exn (Auth SessionRevoked)
             (''session '' @ py_repr (ses_session_id ses) @ '' is revoked''))
      else if env_now en + session_ttl p \<le> env_now en'
      then Inl (Exn (Auth SessionRevoked)
             (''session '' @ py_repr (ses_session_id ses) @ '' has expired''))
      else Inr ses)"
proof -
  have inv: "provider_inv p" using assms(1) new_provider_inv by (rule provider_run_inv)
  then have inv1: "provider_inv p1" using assms(3) issue_session_inv [OF inv, of en u f] by simp
  obtain acc where acc: "find_account u p = Inr acc" "\<not> disabled acc"
    using assms(3) unfolding provider_issue_session_def
    by (cases "find_account u p") (auto split: if_splits)
  define r where "r = \<lparr>sr_session_id = env_uuid en, sr_user_id = u,
    sr_archetype = acc_archetype acc, issued_at = env_now en,
    expires_at = env_now en + session_ttl p, device_fingerprint = f, revoked = False\<rparr>"
  have ses: "ses = session_view r" and "p1 = p\<lparr>sessions := (sessions p)(env_uuid en \<mapsto> r)\<rparr>"
    using assms(3) acc unfolding provider_issue_session_def Let_def r_def by simp_all
  then have r: "sessions p1 (ses_session_id ses) = Some r" "sr_user_id r = u"
      "sr_session_id r = ses_session_id ses" "\<not> revoked r"
      "expires_at r = env_now en + session_ttl p" "ses = session_view r"
    by (simp_all add: session_view_def r_def)
  have "sessions q (ses_session_id ses) = Some (r\<lparr>revoked := \<exists>c \<in> set ds. revoking r c\<rparr>)"
    using provider_run_session [OF assms(4) inv1 r(1)] r(4) by simp
  moreover have "revoking r c \<longleftrightarrow> c \<in> {Call_revoke_session (ses_session_id ses),
      Call_revoke_all_sessions u, Call_disable_account u}" for c
    using r by (auto simp: revoking_def)
  ultimately have "sessions q (ses_session_id ses) = Some (r\<lparr>revoked :=
      \<exists>c \<in> set ds. c \<in> {Call_revoke_session (ses_session_id ses),
        Call_revoke_all_sessions u, Call_disable_account u}\<rparr>)"
    by simp
  moreover have "session_view (r\<lparr>revoked := b\<rparr>) = ses" for b
    by (simp add: ses session_view_def)
  ultimately show ?thesis
    using r(5) by (simp add: provider_get_session_def del: insert_iff)
qed

theorem session_live_until_revoked_witness:
  "let (res, q) = provider_issue_session (demo_entropy 6 ''s'') ''u1'' None demo_provider
   in fst (provider_get_session (demo_entropy 105 ''r'') ''s'' q) = res \<and>
      isl (fst (provider_get_session (demo_entropy 106 ''r'') ''s'' q))"
proof -
  let ?en = "demo_entropy 6 ''s''"
  obtain ses q where issue: "provider_issue_session ?en ''u1'' None demo_provider = (Inr ses, q)"
      and sid: "ses_session_id ses = ''s''"
    by (simp add: provider_issue_session_def find_account_def demo_provider_def demo_account_def
        Let_def session_view_def demo_entropy_def)
  have "fst (provider_get_session (demo_entropy t ''r'') ''s'' q) =
      (if 106 \<le> t then Inl (Exn (Auth SessionRevoked)
             (''session '' @ py_repr ''s'' @ '' has expired'')) else Inr ses)" for t
    using session_live_until_revoked [OF demo_run demo_fresh issue run_nil,
        where en' = "demo_entropy t ''r''"]
    by (simp add: sid demo_entropy_def demo_provider_def)
  then show ?thesis by (simp add: issue)
qed

text \<open>
  C31: no call ever drops a second factor or re-enables an account: the record of a user keeps its
  identity, \<open>totp_enrolled\<close> turns true only by a \<open>verify_totp\<close> call for that user whose
  code is accepted and is never reset, and \<open>disabled\<close> turns true only by
  \<open>disable_account\<close> for that user and is never reset.
\<close>

theorem second_factor_only_by_verified_code:
  assumes "provider_run L (new_provider ttl) cs p" and "fresh_uuid en p"
    and "fst (provider_get_user u p) = Inr v"
  shows "\<exists>v'. fst (provider_get_user u (run_call L en c p)) = Inr v' \<and>
     pu_user_id v' = pu_user_id v \<and> pu_archetype v' = pu_archetype v \<and> pu_email v' = pu_email v \<and>
     (pu_totp_enrolled v' \<longleftrightarrow> pu_totp_enrolled v \<or>
        (\<exists>user_code. c = Call_verify_totp u user_code \<and>
           fst (provider_verify_totp L en u user_code p) = Inr True)) \<and>
     (pu_disabled v' \<longleftrightarrow> pu_disabled v \<or> c = Call_disable_account u)"
proof -
  have inv: "provider_inv p" using assms(1) new_provider_inv by (rule provider_run_inv)
  obtain acc where acc: "accounts p u = Some acc" "v = account_view acc"
    using assms(3) by (auto simp: provider_get_user_def)
  then have u: "acc_user_id acc = u"
    using provider_invD(1) [OF inv] by (simp add: account_ok_def)
  from run_call_accounts [OF inv acc(1) assms(2), of L c] obtain acc' where
    acc': "accounts (run_call L en c p) u = Some acc'" "account_next L en c acc acc'" by blast
  have v': "fst (provider_get_user u (run_call L en c p)) = Inr (account_view acc')"
    using acc'(1) by (simp add: provider_get_user_def)
  have verified: "fst (provider_verify_totp L en u user_code p) = Inr True \<longleftrightarrow>
      (\<exists>secret. totp_secret acc = Some secret \<and>
         verify_totp (otp L) (env_now en) secret user_code DEFAULT_VALID_WINDOW)" for user_code
    using acc(1) by (simp add: provider_verify_totp_def split: option.split)
  have "totp_confirmed acc'" if "c = Call_verify_totp u user_code"
      "fst (provider_verify_totp L en u user_code p) = Inr True" for user_code
    using that acc(1) acc'(1)
    by (auto simp: provider_verify_totp_def split: option.splits if_splits)
  then have "totp_confirmed acc' \<longleftrightarrow> totp_confirmed acc \<or> (\<exists>user_code. c = Call_verify_totp u user_code \<and>
      fst (provider_verify_totp L en u user_code p) = Inr True)"
    using acc'(2) u unfolding account_next_def verified by blast
  with v' acc(2) acc'(2) u show ?thesis by (simp add: account_view_def account_next_def)
qed


theorem second_factor_only_by_verified_code_witness:
  "\<exists>v'. fst (provider_get_user ''u1'' (run_call demo_libs (demo_entropy 6 ''r'')
       (Call_disable_account ''u1'') demo_provider)) = Inr v' \<and> pu_disabled v' \<and> \<not> pu_totp_enrolled v'"
proof -
  have "fst (provider_get_user ''u1'' demo_provider) = Inr (account_view demo_account)"
    by (simp add: provider_get_user_def demo_provider_def find_account_def)
  moreover have "fresh_uuid (demo_entropy 6 ''r'') demo_provider"
    by (rule demo_fresh) simp
  ultimately show ?thesis
    using second_factor_only_by_verified_code [OF demo_run,
      where c = "Call_disable_account ''u1''"] by fastforce
qed

end
