(* ===== verification/Auth_Service.thy ===== *)
theory Auth_Service
  imports Role_Store Audit_Trail Provider
begin

section \<open>The authentication service\<close>

text \<open>
  \<^verbatim>\<open>auth/trustlist_auth/service.py\<close>.  \<open>AuthService\<close> composes an identity provider, the
  audit trail and the role store; its state is theirs: the tables, the sink's state and the
  provider's state.  Its operations take the provider's and the sink's operations, as the class
  takes the objects.  An exception leaves in the state what was done before it; rolling the
  tables back is the caller's transaction.
\<close>

record ('k, 'p) service_state = "'k trail_state" +
  provider :: 'p

text \<open>What the process supplies besides the audit trail's clock: the role store's clock.\<close>

record service_env = audit_env +
  role_now :: instant

definition on_provider ::
  "('p \<Rightarrow> (exn + 'a) \<times> 'p) \<Rightarrow> ('k, 'p) service_state \<Rightarrow> (exn + 'a) \<times> ('k, 'p) service_state" where
  "on_provider f s = (case f (provider s) of (r, p) \<Rightarrow> (r, s\<lparr>provider := p\<rparr>))"

definition on_db ::
  "(auth_db \<Rightarrow> (exn + 'a) \<times> auth_db) \<Rightarrow> ('k, 'p) service_state \<Rightarrow> (exn + 'a) \<times> ('k, 'p) service_state" where
  "on_db f s = (case f (db s) of (r, d) \<Rightarrow> (r, s\<lparr>db := d\<rparr>))"

definition opt_str :: "string option \<Rightarrow> pyval" where
  "opt_str x = (case x of None \<Rightarrow> PNone | Some t \<Rightarrow> PStr t)"

definition svc_register ::
  "'p identity_provider \<Rightarrow> archetype \<Rightarrow> string \<Rightarrow> string \<Rightarrow> ('k, 'p) service_state \<Rightarrow>
     (exn + provider_user) \<times> ('k, 'p) service_state" where
  "svc_register P a email password = on_provider (ip_register P a email password)"

definition svc_mark_email_verified ::
  "'p identity_provider \<Rightarrow> string \<Rightarrow> ('k, 'p) service_state \<Rightarrow>
     (exn + provider_user) \<times> ('k, 'p) service_state" where
  "svc_mark_email_verified P user_id = on_provider (ip_mark_email_verified P user_id)"

definition svc_authenticate ::
  "'p identity_provider \<Rightarrow> 'k sink \<Rightarrow> service_env \<Rightarrow> archetype \<Rightarrow> string \<Rightarrow> string \<Rightarrow>
     string option \<Rightarrow> string option \<Rightarrow> ('k, 'p) service_state \<Rightarrow>
     (exn + provider_user) \<times> ('k, 'p) service_state" where
  "svc_authenticate P emit en a email password ip ua =
     andthen
       (try_except (on_provider (ip_authenticate P a email password))
         (\<lambda>e. if catches [Exception] e
            then andthen
              (audit_record emit (audit_env.truncate en) LOGIN_FAILURE None ip ua
                 [(''archetype'', PStr (archetype_value a)), (''email'', PStr email)] None)
              (\<lambda>_. raise e)
            else raise e))
       (\<lambda>user. andthen
          (audit_record emit (audit_env.truncate en) LOGIN_SUCCESS (Some (pu_user_id user)) ip ua
             [(''archetype'', PStr (archetype_value a))] None)
          (\<lambda>_. ret user))"

definition svc_change_password ::
  "'p identity_provider \<Rightarrow> 'k sink \<Rightarrow> service_env \<Rightarrow> string \<Rightarrow> string \<Rightarrow> string option \<Rightarrow>
     ('k, 'p) service_state \<Rightarrow> (exn + unit) \<times> ('k, 'p) service_state" where
  "svc_change_password P emit en user_id new_password ip =
     andthen (on_provider (ip_change_password P user_id new_password)) (\<lambda>_.
     andthen (on_provider (ip_revoke_all_sessions P user_id)) (\<lambda>_.
     andthen (audit_record emit (audit_env.truncate en) PASSWORD_CHANGE (Some user_id) ip None
                [(''sessions_revoked'', PBool True)] None) (\<lambda>_. ret ())))"

definition svc_issue_session ::
  "'p identity_provider \<Rightarrow> string \<Rightarrow> string option \<Rightarrow> ('k, 'p) service_state \<Rightarrow>
     (exn + session) \<times> ('k, 'p) service_state" where
  "svc_issue_session P user_id fingerprint = on_provider (ip_issue_session P user_id fingerprint)"

definition svc_get_session ::
  "'p identity_provider \<Rightarrow> string \<Rightarrow> ('k, 'p) service_state \<Rightarrow>
     (exn + session) \<times> ('k, 'p) service_state" where
  "svc_get_session P sid = on_provider (ip_get_session P sid)"

definition svc_revoke_session ::
  "'p identity_provider \<Rightarrow> 'k sink \<Rightarrow> service_env \<Rightarrow> string \<Rightarrow> string option \<Rightarrow> string option \<Rightarrow>
     ('k, 'p) service_state \<Rightarrow> (exn + unit) \<times> ('k, 'p) service_state" where
  "svc_revoke_session P emit en sid user_id ip =
     andthen (on_provider (ip_revoke_session P sid)) (\<lambda>_.
     andthen (audit_record emit (audit_env.truncate en) SESSION_REVOKE user_id ip None
                [(''session_id'', PStr sid)] None) (\<lambda>_. ret ()))"

definition svc_enrol_totp ::
  "'p identity_provider \<Rightarrow> 'k sink \<Rightarrow> service_env \<Rightarrow> string \<Rightarrow> ('k, 'p) service_state \<Rightarrow>
     (exn + totp_enrolment) \<times> ('k, 'p) service_state" where
  "svc_enrol_totp P emit en user_id =
     andthen (on_provider (ip_enrol_totp P user_id)) (\<lambda>enrolment.
     andthen (audit_record emit (audit_env.truncate en) MFA_CHALLENGE_ISSUED (Some user_id) None None
                [(''purpose'', PStr ''totp_enrolment'')] None) (\<lambda>_. ret enrolment))"

definition svc_verify_totp ::
  "'p identity_provider \<Rightarrow> 'k sink \<Rightarrow> service_env \<Rightarrow> string \<Rightarrow> string \<Rightarrow> string option \<Rightarrow>
     ('k, 'p) service_state \<Rightarrow> (exn + bool) \<times> ('k, 'p) service_state" where
  "svc_verify_totp P emit en user_id user_code ip =
     andthen (on_provider (ip_verify_totp P user_id user_code)) (\<lambda>verified.
     andthen (audit_record emit (audit_env.truncate en)
                (if verified then MFA_CHALLENGE_SUCCESS else MFA_CHALLENGE_FAILURE)
                (Some user_id) ip None [(''factor'', PStr ''totp'')] None) (\<lambda>_. ret verified))"

definition svc_verify_totp_strict ::
  "'p identity_provider \<Rightarrow> 'k sink \<Rightarrow> service_env \<Rightarrow> string \<Rightarrow> string \<Rightarrow> string option \<Rightarrow>
     ('k, 'p) service_state \<Rightarrow> (exn + unit) \<times> ('k, 'p) service_state" where
  "svc_verify_totp_strict P emit en user_id user_code ip =
     andthen (svc_verify_totp P emit en user_id user_code ip) (\<lambda>verified.
       if \<not> verified
       then raise (Exn (Auth TotpVerificationFailed) ''TOTP code did not verify'') else ret ())"

definition svc_disable_account ::
  "'p identity_provider \<Rightarrow> 'k sink \<Rightarrow> service_env \<Rightarrow> string \<Rightarrow> string option \<Rightarrow>
     ('k, 'p) service_state \<Rightarrow> (exn + unit) \<times> ('k, 'p) service_state" where
  "svc_disable_account P emit en user_id disabled_by =
     andthen (on_provider (ip_disable_account P user_id)) (\<lambda>_.
     andthen (audit_record emit (audit_env.truncate en) ACCOUNT_DISABLE (Some user_id) None None
                [(''disabled_by'', opt_str disabled_by)] None) (\<lambda>_. ret ()))"

definition svc_assign_role ::
  "'k sink \<Rightarrow> service_env \<Rightarrow> string \<Rightarrow> archetype \<Rightarrow> string \<Rightarrow> string option \<Rightarrow> string option \<Rightarrow>
     ('k, 'p) service_state \<Rightarrow> (exn + role_assignment) \<times> ('k, 'p) service_state" where
  "svc_assign_role emit en user_id a role granted_by cust =
     andthen (on_db (grant_role (role_now en) user_id a role granted_by cust None)) (\<lambda>assignment.
     andthen (audit_record emit (audit_env.truncate en) ROLE_GRANT (Some user_id) None None
                [(''role'', PStr role), (''granted_by'', opt_str granted_by),
                 (''customer_id'', opt_str cust)] None) (\<lambda>_. ret assignment))"

definition svc_revoke_role ::
  "'p identity_provider \<Rightarrow> 'k sink \<Rightarrow> service_env \<Rightarrow> string \<Rightarrow> string \<Rightarrow> instant \<Rightarrow>
     string option \<Rightarrow> ('k, 'p) service_state \<Rightarrow> (exn + bool) \<times> ('k, 'p) service_state" where
  "svc_revoke_role P emit en user_id role at_time revoked_by =
     andthen (on_db (revoke_role (role_now en) user_id role at_time None)) (\<lambda>hit.
       if hit then
         andthen (on_provider (ip_revoke_all_sessions P user_id)) (\<lambda>_.
         andthen (audit_record emit (audit_env.truncate en) ROLE_REVOKE (Some user_id) None None
                    [(''role'', PStr role), (''revoked_by'', opt_str revoked_by)] None) (\<lambda>_. ret hit))
       else ret hit)"

definition svc_roles_for ::
  "string \<Rightarrow> string option \<Rightarrow> ('k, 'p) service_state \<Rightarrow>
     (exn + string list) \<times> ('k, 'p) service_state" where
  "svc_roles_for user_id cust s = (Inr (live_role_identifiers user_id cust (db s)), s)"

text \<open>
  \<open>permission\<close> is a \<open>Permission\<close> or a string; a \<open>Permission\<close> is taken as it is.
\<close>

definition svc_has_permission ::
  "string \<Rightarrow> archetype \<Rightarrow> permission + string \<Rightarrow> string option \<Rightarrow> ('k, 'p) service_state \<Rightarrow>
     (exn + bool) \<times> ('k, 'p) service_state" where
  "svc_has_permission user_id a perm cust s =
     (case (case perm of Inl q \<Rightarrow> Inr q | Inr str \<Rightarrow> validate_permission str) of
        Inl e \<Rightarrow> (Inl e, s)
      | Inr resolved \<Rightarrow>
          (cat_has_permission (catalogue_for a) (live_role_identifiers user_id cust (db s)) resolved,
           s))"

text \<open>\<open>build_in_memory_service\<close> of \<^verbatim>\<open>testing.py\<close>, over given tables.\<close>

definition build_in_memory_service :: "auth_db \<Rightarrow> (audit_event list, mem_provider) service_state" where
  "build_in_memory_service d =
     \<lparr>db = d, sink_state = [], provider = new_provider DEFAULT_SESSION_TTL\<rparr>"


subsection \<open>What an operation does to the audit trail\<close>

text \<open>
  \<open>quiet\<close> operations touch neither the audit rows nor the sink; an operation that \<open>logs\<close>
  appends at most one row, mirrors exactly that row's event, and never a credential key.
  Both keep the table constraints.
\<close>

definition db_frame :: "auth_db \<Rightarrow> auth_db \<Rightarrow> bool" where
  "db_frame d d' \<longleftrightarrow> user_accounts d' = user_accounts d \<and> (db_ok d \<longrightarrow> db_ok d')"

definition quiet :: "(('k, 'p) service_state \<Rightarrow> 'r \<times> ('k, 'p) service_state) \<Rightarrow> bool" where
  "quiet m \<longleftrightarrow> (\<forall>s. audit_events (db (snd (m s))) = audit_events (db s) \<and>
     sink_state (snd (m s)) = sink_state s \<and> db_frame (db s) (db (snd (m s))))"

definition audit_step ::
  "'k sink \<Rightarrow> ('k, 'p) service_state \<Rightarrow> ('k, 'p) service_state \<Rightarrow> bool" where
  "audit_step emit s s' \<longleftrightarrow> db_frame (db s) (db s') \<and>
     (audit_events (db s') = audit_events (db s) \<and> sink_state s' = sink_state s \<or>
      (\<exists>ev rendered. audit_events (db s') = audit_events (db s) @ [row_of_event ev rendered] \<and>
         sink_state s' = snd (emit ev (sink_state s)) \<and>
         json_dumps (PDict (event_details ev)) = Inr rendered \<and>
         forbidden_in (event_details ev) = []))"

definition logs :: "'k sink \<Rightarrow> (('k, 'p) service_state \<Rightarrow> 'r \<times> ('k, 'p) service_state) \<Rightarrow> bool" where
  "logs emit m \<longleftrightarrow> (\<forall>s. audit_step emit s (snd (m s)))"

lemma db_frame_refl [simp]: "db_frame d d"
  by (simp add: db_frame_def)

lemma db_frame_trans: "db_frame d d' \<Longrightarrow> db_frame d' d'' \<Longrightarrow> db_frame d d''"
  by (simp add: db_frame_def)

lemma quiet_logs: "quiet m \<Longrightarrow> logs emit m"
  by (simp add: quiet_def logs_def audit_step_def)

lemma quiet_pure [inv_intros]: "quiet (ret x)" "quiet (raise e)"
  by (simp_all add: quiet_def)

lemma quiet_on_provider [inv_intros]: "quiet (on_provider f)"
  by (simp add: quiet_def on_provider_def split: prod.split)

lemma quiet_on_db:
  "(\<And>d. audit_events (snd (f d)) = audit_events d \<and> db_frame d (snd (f d))) \<Longrightarrow> quiet (on_db f)"
  by (simp add: quiet_def on_db_def case_prod_beta)

lemma quiet_role_store [inv_intros]:
  "quiet (on_db (grant_role now u a role g c t))"
  "quiet (on_db (revoke_role now u role gt rt))"
  by (rule quiet_on_db, simp add: db_frame_def grant_role_db_ok revoke_role_db_ok)+

lemma quiet_andthen_logs [inv_intros]:
  assumes "quiet m" and "\<And>x. logs emit (k x)"
  shows "logs emit (andthen m k)"
proof -
  have "audit_step emit s (snd (andthen m k s))" for s
  proof (cases "m s")
    case (Pair r s1)
    from assms(1) Pair have q: "audit_events (db s1) = audit_events (db s)"
        "sink_state s1 = sink_state s" "db_frame (db s) (db s1)"
      by (simp_all add: quiet_def) (metis snd_conv)+
    show ?thesis
    proof (cases r)
      case (Inl e)
      with Pair q show ?thesis by (simp add: andthen_def audit_step_def)
    next
      case (Inr x)
      have "audit_step emit s1 (snd (k x s1))" using assms(2) by (simp add: logs_def)
      with q show ?thesis using Pair Inr
        by (auto simp: andthen_def audit_step_def intro: db_frame_trans)
    qed
  qed
  then show ?thesis by (simp add: logs_def)
qed

lemma logs_andthen_quiet:
  assumes "logs emit m" and "\<And>x. quiet (k x)"
  shows "logs emit (andthen m k)"
proof -
  have "audit_step emit s (snd (andthen m k s))" for s
  proof (cases "m s")
    case (Pair r s1)
    with assms(1) have st: "audit_step emit s s1" by (metis logs_def snd_conv)
    show ?thesis
    proof (cases r)
      case (Inl e)
      with Pair st show ?thesis by (simp add: andthen_def)
    next
      case (Inr x)
      from assms(2) [of x] have "audit_events (db (snd (k x s1))) = audit_events (db s1)"
          "sink_state (snd (k x s1)) = sink_state s1" "db_frame (db s1) (db (snd (k x s1)))"
        by (simp_all add: quiet_def)
      with st show ?thesis using Pair Inr
        by (auto simp: andthen_def audit_step_def intro: db_frame_trans)
    qed
  qed
  then show ?thesis by (simp add: logs_def)
qed

lemma svc_authenticate_eq:
  "svc_authenticate P emit en a email password ip ua s =
     (case on_provider (ip_authenticate P a email password) s of
        (Inl e, s1) \<Rightarrow> andthen
           (audit_record emit (audit_env.truncate en) LOGIN_FAILURE None ip ua
              [(''archetype'', PStr (archetype_value a)), (''email'', PStr email)] None)
           (\<lambda>_. raise e) s1
      | (Inr user, s1) \<Rightarrow> andthen
           (audit_record emit (audit_env.truncate en) LOGIN_SUCCESS (Some (pu_user_id user)) ip ua
              [(''archetype'', PStr (archetype_value a))] None)
           (\<lambda>_. ret user) s1)"
  by (auto simp: svc_authenticate_def andthen_def try_except_def split: prod.splits sum.splits)

lemma logs_if: "logs emit m \<Longrightarrow> logs emit n \<Longrightarrow> logs emit (if b then m else n)"
  by simp

text \<open>The mirror's contract is all the audit behaviour rests on.\<close>

context audit_event_sink
begin

lemma audit_record_logs:
  "logs emit (audit_record emit en ty user ip ua det t :: ('k, 'p) service_state \<Rightarrow> _)"
proof -
  have "audit_step emit s (snd (audit_record emit en ty user ip ua det t s))"
    for s :: "('k, 'p) service_state"
  proof (cases rule: record_cases [of en ty user ip ua det t s])
    case (refused e)
    then show ?thesis by (simp add: audit_step_def)
  next
    case (recorded ev rendered)
    then have det: "event_details ev = det" "event_id ev = audit_uuid en" "ev_user_id ev = user"
      by (simp_all add: build_event_def)
    have "db_frame (db s) ((db s)\<lparr>audit_events := audit_events (db s) @ [row_of_event ev rendered]\<rparr>)"
      using recorded(5,6) det by (auto simp: db_frame_def db_ok_def row_of_event_def)
    then show ?thesis
      unfolding audit_step_def recorded(1) snd_conv
      using recorded(3,4) det
      by (intro conjI disjI2 exI [of _ ev] exI [of _ rendered]) simp_all
  qed
  then show ?thesis by (simp add: logs_def)
qed

lemma record_then_logs: "(\<And>x. quiet (k x)) \<Longrightarrow>
    logs emit (andthen (audit_record emit en ty user ip ua det t) k)"
  by (rule logs_andthen_quiet [OF audit_record_logs])

lemma svc_authenticate_logs: "logs emit (svc_authenticate P emit en a email pw ip ua)"
proof -
  have "audit_step emit s (snd (svc_authenticate P emit en a email pw ip ua s))" for s
  proof (cases "on_provider (ip_authenticate P a email pw) s")
    case (Pair r s1)
    then have s1: "db s1 = db s" "sink_state s1 = sink_state s"
      by (auto simp: on_provider_def split: prod.splits)
    have step: "audit_step emit s1 s2 \<Longrightarrow> audit_step emit s s2" for s2
      by (simp add: audit_step_def s1)
    have "audit_step emit s1 (snd (andthen (audit_record emit env ty user ip ua det t) k s1))"
      if "\<And>x. quiet (k x)" for env ty user det t and k :: "_ \<Rightarrow> _ \<Rightarrow> (exn + provider_user) \<times> _"
      using record_then_logs [OF that] by (simp add: logs_def)
    then show ?thesis
      by (cases r) (simp_all add: svc_authenticate_eq Pair step inv_intros)
  qed
  then show ?thesis by (simp add: logs_def)
qed

lemma svc_logs:
  "logs emit (svc_change_password P emit en u pw ip)"
  "logs emit (svc_revoke_session P emit en sid uo ip)"
  "logs emit (svc_enrol_totp P emit en u)"
  "logs emit (svc_verify_totp P emit en u c ip)"
  "logs emit (svc_disable_account P emit en u by_user)"
  "logs emit (svc_assign_role emit en u a role g cust)"
  "logs emit (svc_revoke_role P emit en u role at_time by_user)"
  unfolding svc_change_password_def svc_revoke_session_def svc_enrol_totp_def svc_verify_totp_def
    svc_disable_account_def svc_assign_role_def svc_revoke_role_def
  by (rule record_then_logs quiet_andthen_logs quiet_pure quiet_on_provider quiet_role_store
      logs_if quiet_logs)+

lemma svc_verify_totp_strict_logs: "logs emit (svc_verify_totp_strict P emit en u c ip)"
  unfolding svc_verify_totp_strict_def
  by (rule logs_andthen_quiet [OF svc_logs(4)]) (auto intro: inv_intros)

end


subsection \<open>Calls and runs of the service\<close>

datatype service_call =
    Svc_register archetype string string
  | Svc_mark_email_verified string
  | Svc_authenticate archetype string string "string option" "string option"
  | Svc_change_password string string "string option"
  | Svc_issue_session string "string option"
  | Svc_get_session string
  | Svc_revoke_session string "string option" "string option"
  | Svc_enrol_totp string
  | Svc_verify_totp string string "string option"
  | Svc_verify_totp_strict string string "string option"
  | Svc_disable_account string "string option"
  | Svc_assign_role string archetype string "string option" "string option"
  | Svc_revoke_role string string instant "string option"
  | Svc_roles_for string "string option"
  | Svc_has_permission string archetype "permission + string" "string option"

fun run_service ::
  "'p identity_provider \<Rightarrow> 'k sink \<Rightarrow> service_env \<Rightarrow> service_call \<Rightarrow>
     ('k, 'p) service_state \<Rightarrow> ('k, 'p) service_state" where
  "run_service P emit en (Svc_register a e pw) s = snd (svc_register P a e pw s)"
| "run_service P emit en (Svc_mark_email_verified u) s = snd (svc_mark_email_verified P u s)"
| "run_service P emit en (Svc_authenticate a e pw ip ua) s =
     snd (svc_authenticate P emit en a e pw ip ua s)"
| "run_service P emit en (Svc_change_password u pw ip) s =
     snd (svc_change_password P emit en u pw ip s)"
| "run_service P emit en (Svc_issue_session u f) s = snd (svc_issue_session P u f s)"
| "run_service P emit en (Svc_get_session sid) s = snd (svc_get_session P sid s)"
| "run_service P emit en (Svc_revoke_session sid u ip) s =
     snd (svc_revoke_session P emit en sid u ip s)"
| "run_service P emit en (Svc_enrol_totp u) s = snd (svc_enrol_totp P emit en u s)"
| "run_service P emit en (Svc_verify_totp u c ip) s = snd (svc_verify_totp P emit en u c ip s)"
| "run_service P emit en (Svc_verify_totp_strict u c ip) s =
     snd (svc_verify_totp_strict P emit en u c ip s)"
| "run_service P emit en (Svc_disable_account u by_user) s =
     snd (svc_disable_account P emit en u by_user s)"
| "run_service P emit en (Svc_assign_role u a role g c) s =
     snd (svc_assign_role emit en u a role g c s)"
| "run_service P emit en (Svc_revoke_role u role t by_user) s =
     snd (svc_revoke_role P emit en u role t by_user s)"
| "run_service P emit en (Svc_roles_for u c) s = snd (svc_roles_for u c s)"
| "run_service P emit en (Svc_has_permission u a q c) s = snd (svc_has_permission u a q c s)"

lemma svc_has_permission_state [simp]: "snd (svc_has_permission u a q c s) = s"
  unfolding svc_has_permission_def
  by (cases "case q of Inl p \<Rightarrow> Inr p | Inr str \<Rightarrow> validate_permission str") simp_all

lemma svc_roles_for_state [simp]: "snd (svc_roles_for u c s) = s"
  by (simp add: svc_roles_for_def)

context audit_event_sink
begin

lemma run_service_step: "audit_step emit s (run_service P emit en c s)"
proof -
  have on_p: "audit_step emit s (snd (on_provider f s))" for f :: "_ \<Rightarrow> (exn + 'x) \<times> _"
    using quiet_logs [OF quiet_on_provider, of emit f] by (simp add: logs_def)
  have same: "audit_step emit s s" by (simp add: audit_step_def)
  show ?thesis
    by (cases c)
      (simp_all add: svc_logs [unfolded logs_def, rule_format]
        svc_authenticate_logs [unfolded logs_def, rule_format]
        svc_verify_totp_strict_logs [unfolded logs_def, rule_format]
        svc_register_def svc_mark_email_verified_def svc_issue_session_def svc_get_session_def
        on_p same)
qed

end


subsection \<open>What the service promises of sessions\<close>

lemma audit_record_provider [simp]:
  "provider (snd (audit_record emit en ty user ip ua det t s)) = provider s"
  by (auto simp: audit_record_def Let_def split: sum.split prod.split)

lemma andthen_record_provider [simp]:
  "provider (snd (andthen (audit_record emit en ty user ip ua det t) (\<lambda>_. ret x) s)) = provider s"
  by (rule andthen_frame) simp_all

context identity_provider_contract
begin

lemma on_provider_revoke_all:
  "on_provider (ip_revoke_all_sessions (P e) u) s =
     (Inr (), s\<lparr>provider := snd (ip_revoke_all_sessions (P e) u (provider s))\<rparr>)"
  by (subst on_provider_def, subst revoke_all_eq) simp

lemma change_password_ends_sessions:
  assumes "fst (ip_change_password (P e) u pw (provider s)) = Inr ()"
    and "fst (svc_get_session (P e') sid (snd (svc_change_password (P e) emit en u pw ip s))) = Inr ses"
  shows "ses_user_id ses \<noteq> u"
proof -
  obtain p where "ip_change_password (P e) u pw (provider s) = (Inr (), p)"
    using assms(1) by (metis prod.collapse)
  then have "on_provider (ip_change_password (P e) u pw) s = (Inr (), s\<lparr>provider := p\<rparr>)"
    by (simp add: on_provider_def)
  then have "provider (snd (svc_change_password (P e) emit en u pw ip s)) =
      snd (ip_revoke_all_sessions (P e) u p)"
    by (simp add: svc_change_password_def on_provider_revoke_all)
  with assms(2) show ?thesis
    by (simp add: svc_get_session_def on_provider_def case_prod_beta revoke_all_dead)
qed

lemma disable_ends_sessions:
  assumes "fst (ip_disable_account (P e) u (provider s)) = Inr ()"
    and "fst (svc_get_session (P e') sid (snd (svc_disable_account (P e) emit en u by_user s))) = Inr ses"
  shows "ses_user_id ses \<noteq> u"
proof -
  obtain p where p: "ip_disable_account (P e) u (provider s) = (Inr (), p)"
    using assms(1) by (metis prod.collapse)
  then have "on_provider (ip_disable_account (P e) u) s = (Inr (), s\<lparr>provider := p\<rparr>)"
    by (simp add: on_provider_def)
  then have "provider (snd (svc_disable_account (P e) emit en u by_user s)) = p"
    by (simp add: svc_disable_account_def)
  with assms(2) p disable_dead [OF assms(1)] show ?thesis
    by (simp add: svc_get_session_def on_provider_def case_prod_beta)
qed

lemma revoke_role_ends_sessions:
  assumes "fst (revoke_role (role_now en) u role t None (db s)) = Inr True"
    and "fst (svc_get_session (P e') sid (snd (svc_revoke_role (P e) emit en u role t by_user s))) = Inr ses"
  shows "ses_user_id ses \<noteq> u"
proof -
  obtain d where "revoke_role (role_now en) u role t None (db s) = (Inr True, d)"
    using assms(1) by (metis prod.collapse)
  then have "on_db (revoke_role (role_now en) u role t None) s = (Inr True, s\<lparr>db := d\<rparr>)"
    by (simp add: on_db_def)
  then have "provider (snd (svc_revoke_role (P e) emit en u role t by_user s)) =
      snd (ip_revoke_all_sessions (P e) u (provider s))"
    by (simp add: svc_revoke_role_def on_provider_revoke_all)
  with assms(2) show ?thesis
    by (simp add: svc_get_session_def on_provider_def case_prod_beta revoke_all_dead)
qed

lemma revoke_session_ends_it:
  "fst (svc_get_session (P e') sid (snd (svc_revoke_session (P e) emit en sid uo ip s))) \<noteq> Inr ses"
proof -
  have "provider (snd (svc_revoke_session (P e) emit en sid uo ip s)) =
      snd (ip_revoke_session (P e) sid (provider s))"
    unfolding svc_revoke_session_def andthen_def [of "on_provider _"]
    by (subst on_provider_def, subst revoke_session_eq) simp
  with revoke_session_dead [of e' sid e "provider s" ses] show ?thesis
    by (simp add: svc_get_session_def on_provider_def case_prod_beta)
qed

end

text \<open>No session of user \<open>u\<close> is returned any more.\<close>

definition no_session_of ::
  "auth_libs \<Rightarrow> entropy \<Rightarrow> string \<Rightarrow> ('k, mem_provider) service_state \<Rightarrow> bool" where
  "no_session_of L pen u s \<longleftrightarrow>
     (\<forall>sid ses. fst (svc_get_session (mem_identity_provider L pen) sid s) = Inr ses \<longrightarrow>
        ses_user_id ses \<noteq> u)"

subsection \<open>What the audit trail can depend on\<close>

definition audit_view :: "'r \<times> ('k, 'p) service_state \<Rightarrow> auth_db \<times> 'k" where
  "audit_view rs = (db (snd rs), sink_state (snd rs))"

lemma audit_record_view:
  assumes "db s = db s'" and "sink_state s = sink_state s'"
  shows "audit_view (andthen (audit_record emit en ty user ip ua det t) (\<lambda>_. ret x) s) =
     audit_view (andthen (audit_record emit en ty user ip ua det t) (\<lambda>_. ret y) s')"
    and "audit_view (andthen (audit_record emit en ty user ip ua det t) (\<lambda>_. raise e) s) =
     audit_view (andthen (audit_record emit en ty user ip ua det t) (\<lambda>_. raise e') s')"
  using assms
  by (auto simp: audit_view_def andthen_def audit_record_def Let_def split: sum.split prod.split)

lemma mem_change_password_result:
  "fst (provider_change_password L en u pw p) =
     (case find_account u p of Inl e \<Rightarrow> Inl e | Inr _ \<Rightarrow> Inr ())"
  by (simp add: provider_change_password_def split: sum.split)

lemma on_provider_view:
  "db (snd (on_provider f s)) = db s" "sink_state (snd (on_provider f s)) = sink_state s"
  "fst (on_provider f s) = fst (f (provider s))"
  by (simp_all add: on_provider_def case_prod_beta)

lemma audit_view_andthen:
  assumes "isl (fst (f (provider s))) = isl (fst (g (provider s)))"
    and "\<And>x y s1 s2. fst (f (provider s)) = Inr x \<Longrightarrow> fst (g (provider s)) = Inr y \<Longrightarrow>
       db s1 = db s2 \<Longrightarrow> sink_state s1 = sink_state s2 \<Longrightarrow>
       audit_view (k x s1) = audit_view (h y s2)"
  shows "audit_view (andthen (on_provider f) k s) = audit_view (andthen (on_provider g) h s)"
proof (cases "fst (f (provider s))")
  case (Inl e)
  with assms(1) obtain e' where "fst (g (provider s)) = Inl e'"
    by (cases "fst (g (provider s))") auto
  with Inl show ?thesis
    by (simp add: andthen_def case_prod_beta audit_view_def on_provider_view)
next
  case (Inr x)
  with assms(1) obtain y where y: "fst (g (provider s)) = Inr y"
    by (cases "fst (g (provider s))") auto
  with Inr show ?thesis
    unfolding andthen_def case_prod_beta
    by (simp add: assms(2) [OF Inr y, of "snd (on_provider f s)" "snd (on_provider g s)"]
        on_provider_view)
qed

text \<open>The four operations that are handed a credential or create one.\<close>

lemma change_password_view:
  "audit_view (svc_change_password (mem_identity_provider L pen) emit en u pw ip s) =
     audit_view (svc_change_password (mem_identity_provider L pen') emit en u pw' ip s)"
  unfolding svc_change_password_def
proof (rule audit_view_andthen)
  show "isl (fst (ip_change_password (mem_identity_provider L pen) u pw (provider s))) =
      isl (fst (ip_change_password (mem_identity_provider L pen') u pw' (provider s)))"
    by (simp add: mem_identity_provider_def mem_change_password_result)
qed (simp add: mem_idp.on_provider_revoke_all audit_record_view)

lemma enrol_totp_view:
  "audit_view (svc_enrol_totp (mem_identity_provider L pen) emit en u s) =
     audit_view (svc_enrol_totp (mem_identity_provider L pen') emit en u s)"
  unfolding svc_enrol_totp_def
proof (rule audit_view_andthen)
  show "isl (fst (ip_enrol_totp (mem_identity_provider L pen) u (provider s))) =
      isl (fst (ip_enrol_totp (mem_identity_provider L pen') u (provider s)))"
    by (simp add: mem_identity_provider_def provider_enrol_totp_def Let_def split: sum.split)
qed (rule audit_record_view)

lemma verify_totp_view:
  assumes "fst (ip_verify_totp P u c (provider s)) = fst (ip_verify_totp P u c' (provider s))"
  shows "audit_view (svc_verify_totp P emit en u c ip s) =
     audit_view (svc_verify_totp P emit en u c' ip s)"
  unfolding svc_verify_totp_def
  by (rule audit_view_andthen) (use assms in \<open>simp_all add: audit_record_view\<close>)

lemma authenticate_view:
  assumes "map_sum (\<lambda>_. ()) pu_user_id (fst (ip_authenticate P a e pw (provider s))) =
     map_sum (\<lambda>_. ()) pu_user_id (fst (ip_authenticate P a e pw' (provider s)))"
  shows "audit_view (svc_authenticate P emit en a e pw ip ua s) =
     audit_view (svc_authenticate P emit en a e pw' ip ua s)"
proof (cases "fst (ip_authenticate P a e pw (provider s))")
  case (Inl x)
  with assms obtain x' where "fst (ip_authenticate P a e pw' (provider s)) = Inl x'"
    by (cases "fst (ip_authenticate P a e pw' (provider s))") auto
  with Inl show ?thesis
    by (simp add: svc_authenticate_eq case_prod_beta on_provider_view)
      (rule audit_record_view; simp add: on_provider_view)
next
  case (Inr x)
  with assms obtain y where "fst (ip_authenticate P a e pw' (provider s)) = Inr y"
      "pu_user_id y = pu_user_id x"
    by (cases "fst (ip_authenticate P a e pw' (provider s))") auto
  with Inr show ?thesis
    by (simp add: svc_authenticate_eq case_prod_beta on_provider_view)
      (rule audit_record_view; simp add: on_provider_view)
qed

lemma fold_invariant_snoc:
  assumes "I s" and "\<And>x s. I s \<Longrightarrow> I (f x s)"
  shows "I (fold f xs s)"
  using assms by (induction xs arbitrary: s) auto

text \<open>The mirror retains the events of the stored rows, in order, none with a credential key.\<close>

definition mirrored :: "(audit_event list, 'p) service_state \<Rightarrow> bool" where
  "mirrored s \<longleftrightarrow> db_ok (db s) \<and>
     list_all2 (\<lambda>row ev. json_dumps (PDict (event_details ev)) = Inr (ar_details row) \<and>
        row = row_of_event ev (ar_details row)) (audit_events (db s)) (sink_state s) \<and>
     list_all (\<lambda>ev. forbidden_in (event_details ev) = []) (sink_state s)"

lemma audit_step_mirrored:
  assumes "audit_step recording_emit s s'" and "mirrored s"
  shows "mirrored s'"
proof -
  have row: "ar_details (row_of_event ev r) = r" for ev r by (simp add: row_of_event_def)
  from assms show ?thesis
    by (auto simp: audit_step_def mirrored_def db_frame_def recording_emit_def row
        list_all2_lengthD list_all2_append)
qed

lemma live_role_effects:
  "cat_has_permission (catalogue_for a) (live_role_identifiers u c d) q = Inr b \<longleftrightarrow>
     (\<forall>r \<in> set (live_assignments u c d). cat_has (catalogue_for a) (ra_role r)) \<and>
     b = (\<exists>r \<in> set (live_assignments u c d). q \<in> role_effect (catalogue_for a) (ra_role r))"
  by (auto simp: cat_has_permission_Inr live_role_identifiers_def list_all_iff)

subsection \<open>Properties\<close>

text \<open>
  C3: whatever sequence of service calls is made on a service built by
  \<open>build_in_memory_service\<close> over well-formed tables, the tables keep their constraints and the
  recording sink holds exactly the events of the stored audit rows, in their order; no stored row
  ever carries a credential key, so the guard of \<open>record\<close> never has cause to fire.
\<close>

theorem service_runs_audited:
  assumes "db_ok d" and "audit_events d = []"
  shows "mirrored (fold (\<lambda>(L, pen, en, c). run_service (mem_identity_provider L pen) recording_emit en c)
           calls (build_in_memory_service d))"
proof (rule fold_invariant_snoc)
  show "mirrored (build_in_memory_service d)"
    using assms by (simp add: mirrored_def build_in_memory_service_def)
  fix s :: "(audit_event list, mem_provider) service_state"
    and x :: "auth_libs \<times> entropy \<times> service_env \<times> service_call"
  assume "mirrored s"
  then show "mirrored ((\<lambda>(L, pen, en, c).
      run_service (mem_identity_provider L pen) recording_emit en c) x s)"
    by (cases x) (simp add: audit_step_mirrored [OF recording_sink.run_service_step])
qed

theorem service_runs_audited_witness:
  "mirrored (fold (\<lambda>(L, pen, en, c). run_service (mem_identity_provider L pen) recording_emit en c)
     [(demo_libs, demo_entropy 0 ''u1'',
       \<lparr>audit_now = 1, audit_uuid = ''e1'', pg_ok = (\<lambda>_. True), role_now = 1\<rparr>,
       Svc_authenticate OPERATOR ''ann'' ''pw'' None None)]
     (build_in_memory_service \<lparr>user_accounts = [], role_assignments = [], audit_events = []\<rparr>))"
  by (rule service_runs_audited) (simp_all add: db_ok_def)

text \<open>
  C20: every login attempt is audited before its outcome reaches the caller: either exactly one row
  is written and mirrored, of type \<open>login_success\<close> with the user's id or
  \<open>login_failure\<close> with no user id, and the provider's own result or exception is what the caller
  gets; or the database refused the row, nothing was written or mirrored, and the call raises,
  so that no user is ever returned without its row.
\<close>

theorem authenticate_audited:
  "case (ip_authenticate P a email pw (provider s), svc_authenticate P recording_emit en a email pw ip ua s) of
     ((r, p'), (res, s')) \<Rightarrow>
       provider s' = p' \<and>
       ((\<exists>ev rendered. res = r \<and> audit_events (db s') = audit_events (db s) @ [row_of_event ev rendered] \<and>
           sink_state s' = sink_state s @ [ev] \<and>
           (event_type ev, ev_user_id ev, event_details ev) =
             (case r of
                Inl _ \<Rightarrow> (LOGIN_FAILURE, None,
                  [(''archetype'', PStr (archetype_value a)), (''email'', PStr email)])
              | Inr user \<Rightarrow> (LOGIN_SUCCESS, Some (pu_user_id user),
                  [(''archetype'', PStr (archetype_value a))])))
        \<or> (db s' = db s \<and> sink_state s' = sink_state s \<and>
           res \<in> {Inl integrity_error, Inl (Exn (Other DataError) ''invalid input'')}))"
proof -
  obtain r p' where P: "ip_authenticate P a email pw (provider s) = (r, p')" by fastforce
  let ?s1 = "s\<lparr>provider := p'\<rparr>"
  let ?f = "[(''archetype'', PStr (archetype_value a)), (''email'', PStr email)]"
  let ?g = "[(''archetype'', PStr (archetype_value a))]"
  have keys: "forbidden_in ?f = []" "forbidden_in ?g = []" by code_simp+
  show ?thesis
  proof (cases r)
    case (Inl e)
    show ?thesis
      by (cases rule: recording_sink.record_cases [of "audit_env.truncate en" LOGIN_FAILURE None ip ua
            ?f None ?s1])
         (use keys in \<open>auto simp: P Inl svc_authenticate_eq on_provider_def andthen_def
            build_event_def recording_emit_def\<close>)
  next
    case (Inr user)
    show ?thesis
      by (cases rule: recording_sink.record_cases [of "audit_env.truncate en" LOGIN_SUCCESS
            "Some (pu_user_id user)" ip ua ?g None ?s1])
         (use keys in \<open>auto simp: P Inr svc_authenticate_eq on_provider_def andthen_def
            build_event_def recording_emit_def\<close>)
  qed
qed

text \<open>
  C24: what is audited does not depend on a credential: two password changes to different passwords,
  two enrolments with different secrets, two codes or two login passwords the provider treats
  alike, leave the same tables and hand the same event to the mirror.
\<close>

theorem secrets_never_audited:
  "audit_view (svc_change_password (mem_identity_provider L pen) emit en u pw ip s) =
     audit_view (svc_change_password (mem_identity_provider L pen') emit en u pw' ip s) \<and>
   audit_view (svc_enrol_totp (mem_identity_provider L pen) emit en u s) =
     audit_view (svc_enrol_totp (mem_identity_provider L pen') emit en u s) \<and>
   (fst (provider_verify_totp L pen u c (provider s)) =
      fst (provider_verify_totp L pen u c' (provider s)) \<longrightarrow>
    audit_view (svc_verify_totp (mem_identity_provider L pen) emit en u c ip s) =
      audit_view (svc_verify_totp (mem_identity_provider L pen) emit en u c' ip s)) \<and>
   (map_sum (\<lambda>_. ()) pu_user_id (fst (provider_authenticate L pen a e pw (provider s))) =
      map_sum (\<lambda>_. ()) pu_user_id (fst (provider_authenticate L pen a e pw' (provider s))) \<longrightarrow>
    audit_view (svc_authenticate (mem_identity_provider L pen) emit en a e pw ip ua s) =
      audit_view (svc_authenticate (mem_identity_provider L pen) emit en a e pw' ip ua s))"
proof -
  let ?P = "mem_identity_provider L pen"
  have P: "ip_verify_totp ?P = provider_verify_totp L pen"
      "ip_authenticate ?P = provider_authenticate L pen"
    by (simp_all add: mem_identity_provider_def)
  show ?thesis
    using change_password_view [of L pen emit en u pw ip s pen' pw']
      enrol_totp_view [of L pen emit en u s pen']
      verify_totp_view [of ?P u c s c' emit en ip]
      authenticate_view [of ?P a e pw s pw' emit en ip ua]
    unfolding P by blast
qed


text \<open>A service over the provider and tables of one registered operator.\<close>

definition demo_service :: "(audit_event list, mem_provider) service_state" where
  "demo_service =
     \<lparr>db = \<lparr>user_accounts = [(''u1'', OPERATOR)],
            role_assignments = [\<lparr>ra_user_id = ''u1'', account_archetype = OPERATOR,
              ra_role = ''owner'', granted_at = 5, granted_by_user_id = None, revoked_at = None,
              customer_id = None\<rparr>],
            audit_events = []\<rparr>,
      sink_state = [], provider = demo_provider\<rparr>"

definition demo_env :: service_env where
  "demo_env = \<lparr>audit_now = 7, audit_uuid = ''e1'', pg_ok = (\<lambda>_. True), role_now = 7\<rparr>"

theorem secrets_never_audited_witness:
  "audit_view (svc_authenticate (mem_identity_provider demo_libs (demo_entropy 5 ''r'')) recording_emit
       demo_env OPERATOR ''Ann'' ''guess1'' None None demo_service) =
     audit_view (svc_authenticate (mem_identity_provider demo_libs (demo_entropy 5 ''r'')) recording_emit
       demo_env OPERATOR ''Ann'' ''guess2'' None None demo_service)"
proof -
  have "fst (provider_authenticate demo_libs (demo_entropy 5 ''r'') OPERATOR ''Ann'' ''guess1''
        (provider demo_service)) = Inl authentication_failed"
      "fst (provider_authenticate demo_libs (demo_entropy 5 ''r'') OPERATOR ''Ann'' ''guess2''
        (provider demo_service)) = Inl authentication_failed"
    by (simp_all add: demo_service_def demo_wrong_password)
  then show ?thesis
    using secrets_never_audited [where L = demo_libs and pen = "demo_entropy 5 ''r''"
        and s = demo_service and emit = recording_emit and en = demo_env and a = OPERATOR
        and e = "''Ann''" and pw = "''guess1''" and pw' = "''guess2''" and ip = None and ua = None]
    by simp
qed

text \<open>
  C11: the session-revocation triggers work through the service, whatever the audit trail does: once
  the password of an account was changed, the account was disabled, or a live role grant of the
  user was revoked, no session of that user is returned any more, and a revoked session is not
  returned again.
\<close>

theorem sensitive_changes_end_sessions:
  assumes "db_ok (db s)" and "accounts (provider s) u = Some acc"
  shows "no_session_of L pen' u (snd (svc_change_password (mem_identity_provider L pen) emit en u pw ip s)) \<and>
     no_session_of L pen' u (snd (svc_disable_account (mem_identity_provider L pen) emit en u by_user s)) \<and>
     ((\<exists>r \<in> set (role_assignments (db s)). is_live r \<and> ra_key r = (u, role, t)) \<longrightarrow>
        no_session_of L pen' u (snd (svc_revoke_role (mem_identity_provider L pen) emit en u role t by_user s))) \<and>
     (\<forall>sid. isl (fst (svc_get_session (mem_identity_provider L pen') sid
        (snd (svc_revoke_session (mem_identity_provider L pen) emit en sid uo ip s)))))"
proof -
  let ?P = "mem_identity_provider L pen"
  have "fst (ip_change_password ?P u pw (provider s)) = Inr ()"
    using assms(2) by (simp add: mem_identity_provider_def mem_change_password_result)
  then have "no_session_of L pen' u (snd (svc_change_password ?P emit en u pw ip s))"
    unfolding no_session_of_def using mem_idp.change_password_ends_sessions by blast
  moreover have "fst (ip_disable_account ?P u (provider s)) = Inr ()"
    using assms(2) by (simp add: mem_identity_provider_def provider_disable_account_def
        provider_revoke_all_sessions_def)
  then have "no_session_of L pen' u (snd (svc_disable_account ?P emit en u by_user s))"
    unfolding no_session_of_def using mem_idp.disable_ends_sessions by blast
  moreover have "no_session_of L pen' u (snd (svc_revoke_role ?P emit en u role t by_user s))"
    if "\<exists>r \<in> set (role_assignments (db s)). is_live r \<and> ra_key r = (u, role, t)"
  proof -
    have "fst (revoke_role (role_now en) u role t None (db s)) = Inr True"
      using that revoke_role_hit [OF assms(1), of "role_now en" u role t None] by simp
    then show ?thesis
      unfolding no_session_of_def using mem_idp.revoke_role_ends_sessions by blast
  qed
  moreover have "isl (fst (svc_get_session (mem_identity_provider L pen') sid
      (snd (svc_revoke_session ?P emit en sid uo ip s))))" for sid
    using mem_idp.revoke_session_ends_it [of L pen' sid pen emit en uo ip s]
    by (cases "fst (svc_get_session (mem_identity_provider L pen') sid
      (snd (svc_revoke_session ?P emit en sid uo ip s)))") auto
  ultimately show ?thesis by blast
qed

theorem sensitive_changes_end_sessions_witness:
  "no_session_of demo_libs (demo_entropy 9 ''r'') ''u1''
     (snd (svc_revoke_role (mem_identity_provider demo_libs (demo_entropy 8 ''r'')) recording_emit
        demo_env ''u1'' ''owner'' 5 None demo_service))"
proof -
  have "db_ok (db demo_service)" "accounts (provider demo_service) ''u1'' = Some demo_account"
    by (simp_all add: demo_service_def db_ok_def ra_row_ok_def opt_user_exists_def
        check_customer_id_iff)
  from sensitive_changes_end_sessions [OF this, where L = demo_libs and pen = "demo_entropy 8 ''r''"
      and pen' = "demo_entropy 9 ''r''" and emit = recording_emit and en = demo_env
      and role = "''owner''" and t = 5 and by_user = None]
  show ?thesis by (simp add: demo_service_def is_live_def ra_key_def)
qed

text \<open>
  C26: \<open>has_permission\<close> changes nothing and decides as documented: with the permission given as a
  value or as its string, it is true exactly when one of the user's live assignments in scope
  names a role of the archetype's catalogue that is not feature-flagged off and grants it; it
  raises \<open>UnknownPermission\<close> exactly for a string outside the model, and otherwise
  \<open>UnknownRole\<close> exactly when a live assignment in scope names no role of that catalogue.
\<close>

theorem has_permission_spec:
  "case svc_has_permission u a perm cust s of (res, s') \<Rightarrow> s' = s \<and>
     (case (case perm of Inl q \<Rightarrow> Inr q | Inr str \<Rightarrow> validate_permission str) of
        Inl e \<Rightarrow> res = Inl e \<and> exn_class e = Auth UnknownPermission
      | Inr q \<Rightarrow>
          if \<exists>r \<in> set (live_assignments u cust (db s)). \<not> cat_has (catalogue_for a) (ra_role r)
          then raises res (Auth UnknownRole)
          else res = Inr (\<exists>r \<in> set (live_assignments u cust (db s)). \<exists>ro.
            map_of (roles (catalogue_for a)) (ra_role r) = Some ro \<and> \<not> feature_flagged_off ro \<and>
            q \<in> permissions ro))"
proof (cases "case perm of Inl q \<Rightarrow> Inr q | Inr str \<Rightarrow> validate_permission str")
  case (Inl e)
  then have "exn_class e = Auth UnknownPermission"
    by (auto simp: validate_permission_def catches_def permission_of_value_def
        split: sum.splits if_splits option.splits)
  with Inl show ?thesis by (simp add: svc_has_permission_def)
next
  case (Inr q)
  let ?ids = "live_role_identifiers u cust (db s)" and ?c = "catalogue_for a"
  show ?thesis
  proof (cases "\<exists>r \<in> set (live_assignments u cust (db s)). \<not> cat_has ?c (ra_role r)")
    case True
    then have "\<not> list_all (cat_has ?c) ?ids"
      by (auto simp: live_role_identifiers_def list_all_iff)
    then show ?thesis
      using resolve_from_unknown [of ?c ?ids "{}"] True Inr
      by (auto simp: svc_has_permission_def cat_has_permission_def resolve_permissions_def)
  next
    case False
    then have "cat_has_permission ?c ?ids q = Inr (\<exists>r \<in> set (live_assignments u cust (db s)).
        q \<in> role_effect ?c (ra_role r))"
      by (simp add: live_role_effects)
    with False Inr show ?thesis
      by (auto simp: svc_has_permission_def role_effect_def split: option.split)
  qed
qed

text \<open>
  Customers are isolated: with a customer filter, the roles and permissions of a user are
  decided by the assignments scoped to that customer alone; those of any other customer can be
  added or removed without changing the answer, and an unscoped assignment never counts.
\<close>

theorem customer_isolation:
  "svc_roles_for u (Some c) s =
     (fst (svc_roles_for u (Some c) (s\<lparr>db := (db s)\<lparr>role_assignments :=
        filter (\<lambda>r. customer_id r = Some c) (role_assignments (db s))\<rparr>\<rparr>)), s) \<and>
   fst (svc_has_permission u a perm (Some c) s) =
     fst (svc_has_permission u a perm (Some c) (s\<lparr>db := (db s)\<lparr>role_assignments :=
        filter (\<lambda>r. customer_id r = Some c) (role_assignments (db s))\<rparr>\<rparr>))"
proof -
  have "live_role_identifiers u (Some c) ((db s)\<lparr>role_assignments :=
      filter (\<lambda>r. customer_id r = Some c) (role_assignments (db s))\<rparr>) =
    live_role_identifiers u (Some c) (db s)"
    unfolding live_role_identifiers_def live_assignments_def
    by (auto simp: filter_filter intro!: arg_cong [of _ _ remdups] arg_cong [of _ _ "map ra_role"]
        filter_cong)
  then show ?thesis
    by (simp add: svc_roles_for_def svc_has_permission_def split: sum.split)
qed

text \<open>
  C27: the archetype is the caller's word: \<open>has_permission\<close> reads the role names of the live
  assignments in the catalogue of the archetype it is passed, and never the archetype the
  assignments were made under.  So the owner of an operator account, asked about as a brand
  customer, has the audit permission that no operator role confers.
\<close>

theorem has_permission_trusts_caller_archetype:
  "fst (svc_has_permission u a perm cust s) =
     fst (svc_has_permission u a perm cust (s\<lparr>db := (db s)\<lparr>role_assignments :=
        map (\<lambda>r. r\<lparr>account_archetype := b\<rparr>) (role_assignments (db s))\<rparr>\<rparr>)) \<and>
   fst (svc_has_permission ''u1'' BRAND_CUSTOMER (Inl AUDIT_MANAGE) None demo_service) = Inr True \<and>
   (\<forall>ids. cat_has_permission (catalogue_for OPERATOR) ids AUDIT_MANAGE \<noteq> Inr True)"
proof -
  have "map ra_role (filter (\<lambda>r. (ra_user_id r = u \<and> in_scope cust r) \<and> revoked_at r = None)
      (map (\<lambda>r. r\<lparr>account_archetype := b\<rparr>) rs)) =
    map ra_role (filter (\<lambda>r. (ra_user_id r = u \<and> in_scope cust r) \<and> revoked_at r = None) rs)" for rs
    by (induction rs) (simp_all add: in_scope_def split: option.split)
  then have "map ra_role (live_assignments u cust ((db s)\<lparr>role_assignments :=
      map (\<lambda>r. r\<lparr>account_archetype := b\<rparr>) (role_assignments (db s))\<rparr>)) =
    map ra_role (live_assignments u cust (db s))"
    unfolding live_assignments_eq by simp
  then have "live_role_identifiers u cust ((db s)\<lparr>role_assignments :=
      map (\<lambda>r. r\<lparr>account_archetype := b\<rparr>) (role_assignments (db s))\<rparr>) =
    live_role_identifiers u cust (db s)"
    by (simp add: live_role_identifiers_def)
  moreover have "fst (svc_has_permission ''u1'' BRAND_CUSTOMER (Inl AUDIT_MANAGE) None demo_service) =
      Inr True"
    by (simp add: svc_has_permission_def demo_service_def live_role_identifiers_def
        live_assignments_def cat_has_permission_Inr cat_has_catalogue_for role_lists role_effects)
  ultimately show ?thesis
    by (simp add: svc_has_permission_def cat_has_permission_Inr role_effects split: sum.split)
qed

end
