(* ===== verification/Unit_Of_Work.thy ===== *)
theory Unit_Of_Work
  imports Auth_Service
begin

section \<open>The service inside the caller's unit of work\<close>

text \<open>
  \<^verbatim>\<open>service.py\<close> (Transaction model): every method that touches the tables takes the connection
  of the caller's unit of work and never opens a transaction of its own.  The transaction belongs to the
  caller and to SQLAlchemy: \<open>finish ok before after\<close> is the tables when the unit of work ends,
  normally (\<open>ok\<close>) or by an exception, \<open>before\<close> being the tables at its begin.  The sink and
  the provider take no part in it.
\<close>

definition unit_of_work ::
  "(bool \<Rightarrow> auth_db \<Rightarrow> auth_db \<Rightarrow> auth_db) \<Rightarrow>
     (('k, 'p) service_state \<Rightarrow> (exn + 'a) \<times> ('k, 'p) service_state) \<Rightarrow>
     ('k, 'p) service_state \<Rightarrow> (exn + 'a) \<times> ('k, 'p) service_state" where
  "unit_of_work finish m s =
     (case m s of (r, s') \<Rightarrow> (r, s'\<lparr>db := finish (\<not> isl r) (db s) (db s')\<rparr>))"

text \<open>What SQLAlchemy documents of \<open>with engine.begin()\<close>: commit at a normal end, else rollback.\<close>

definition transactional :: "(bool \<Rightarrow> auth_db \<Rightarrow> auth_db \<Rightarrow> auth_db) \<Rightarrow> bool" where
  "transactional finish \<longleftrightarrow>
     (\<forall>before after. finish True before after = after \<and> finish False before after = before)"

lemma unit_of_work_eq:
  assumes "transactional finish"
  shows "unit_of_work finish m s =
    (case m s of (Inl e, s') \<Rightarrow> (Inl e, s'\<lparr>db := db s\<rparr>) | (Inr x, s') \<Rightarrow> (Inr x, s'))"
  using assms by (auto simp: unit_of_work_def transactional_def split: prod.split sum.split)

lemma on_db_eq: "f (db s) = (r, d) \<Longrightarrow> on_db f s = (r, s\<lparr>db := d\<rparr>)"
  by (simp add: on_db_def)

text \<open>
  A call that ends with one audit record: with the recording sink its outcome is decided before the mirror is
  called, so it raises with nothing recorded or ends as its continuation does with one row and its event.
\<close>

lemma audited_end:
  assumes m: "res = andthen (audit_record recording_emit en ty user ip ua det t) (\<lambda>_ s. (r, s)) s1"
    and det: "forbidden_in det = []" "jsonable (PDict det)"
  obtains (refused) e where "res = (Inl e, s1)"
      "e \<in> {integrity_error, Exn (Other DataError) ''invalid input''}"
      "isl (fst (audit_record recording_emit en ty user ip ua det t s1))"
    | (recorded) ev rendered where "res =
        (r, s1\<lparr>db := (db s1)\<lparr>audit_events := audit_events (db s1) @ [row_of_event ev rendered]\<rparr>,
               sink_state := sink_state s1 @ [ev]\<rparr>)"
        "event_type ev = ty" "ev_user_id ev = user" "event_details ev = det"
proof (cases rule: recording_sink.record_cases [of en ty user ip ua det t s1])
  case outcome: (refused e)
  then have "res = (Inl e, s1)" by (simp add: m andthen_def)
  with refused outcome det show ?thesis by simp
next
  case outcome: (recorded ev rendered)
  then show ?thesis
    by (intro recorded [of ev rendered]) (simp_all add: m andthen_def build_event_def recording_emit_def)
qed

lemma record_accepted:
  assumes "forbidden_in det = []" and "jsonable (PDict det)" and "\<And>row. pg_ok en row"
    and "audit_uuid en \<notin> ar_event_id ` set (audit_events (db s))" and "opt_user_exists (db s) user"
  shows "\<not> isl (fst (audit_record recording_emit en ty user ip ua det t s))"
  using assms
  by (simp add: audit_record_def Let_def build_event_def json_dumps_def insert_audit_event_def row_of_event_def
      recording_emit_def)

lemma ret_raise_eq: "ret x = (\<lambda>s. (Inr x, s))" "raise e = (\<lambda>s. (Inl e, s))"
  by (simp_all add: fun_eq_iff)

lemma failed_change:
  assumes "transactional finish" and "f (db s) = (Inl e, d)"
  shows "unit_of_work finish (andthen (on_db f) k) s = (Inl e, s)"
  using assms(2) by (simp add: unit_of_work_eq [OF assms(1)] on_db_def andthen_def)

definition demo_finish :: "bool \<Rightarrow> auth_db \<Rightarrow> auth_db \<Rightarrow> auth_db" where
  "demo_finish ok before after = (if ok then after else before)"

lemma demo_finish_ok: "transactional demo_finish"
  by (simp add: transactional_def demo_finish_def)

subsection \<open>Properties\<close>

text \<open>
  C21: a role grant is atomic: inside a unit of work \<open>assign_role\<close> either returns, and then exactly the
  assignment it returns and one \<open>role_grant\<close> row for that user were added to the tables and that row's event
  was mirrored, or it raises, and then tables, mirror and provider are exactly as before.
\<close>

theorem role_grant_atomic:
  assumes "transactional finish"
  shows "case unit_of_work finish (svc_assign_role recording_emit en u a role granted_by cust) s of
      (Inl e, s') \<Rightarrow> s' = s
    | (Inr asg, s') \<Rightarrow> \<exists>ev rendered.
        s' = s\<lparr>db := (db s)\<lparr>role_assignments := role_assignments (db s) @ [asg],
                          audit_events := audit_events (db s) @ [row_of_event ev rendered]\<rparr>,
               sink_state := sink_state s @ [ev]\<rparr> \<and>
        event_type ev = ROLE_GRANT \<and> ev_user_id ev = Some u \<and>
        ra_user_id asg = u \<and> ra_role asg = role \<and> customer_id asg = cust \<and> is_live asg"
proof -
  let ?det = "[(''role'', PStr role), (''granted_by'', opt_str granted_by), (''customer_id'', opt_str cust)]"
  have keys: "forbidden_in ?det = []" by code_simp
  have json: "jsonable (PDict ?det)" by (simp add: opt_str_def split: option.split)
  have raised: "unit_of_work finish (svc_assign_role recording_emit en u a role granted_by cust) s = (Inl e, s)"
    if "grant_role (role_now en) u a role granted_by cust None (db s) = (Inl e, d)" for e d
    unfolding svc_assign_role_def
    by (rule failed_change [where f = "grant_role (role_now en) u a role granted_by cust None", OF assms that])
  show ?thesis
  proof (cases rule: grant_role_cases [of a role "role_now en" u granted_by cust None "db s"])
    case (granted row)
    let ?d = "(db s)\<lparr>role_assignments := role_assignments (db s) @ [row]\<rparr>"
    have row: "ra_user_id row = u" "ra_role row = role" "customer_id row = cust" "is_live row"
      using granted(5) by (simp_all add: is_live_def)
    have "svc_assign_role recording_emit en u a role granted_by cust s =
        andthen (audit_record recording_emit (audit_env.truncate en) ROLE_GRANT (Some u) None None ?det None)
          (\<lambda>_ s. (Inr row, s)) (s\<lparr>db := ?d\<rparr>)"
      unfolding svc_assign_role_def ret_raise_eq
      by (simp add: andthen_def [of "on_db _"] on_db_def granted(6))
    from this keys json show ?thesis
      by (cases rule: audited_end) (use row in \<open>auto simp: unit_of_work_eq [OF assms]\<close>)
  next
    case (unknown m)
    then show ?thesis by (simp add: raised)
  next
    case (scope m)
    then show ?thesis by (simp add: raised)
  next
    case integrity
    then show ?thesis by (simp add: raised)
  qed
qed

theorem role_grant_atomic_witness:
  "\<exists>asg s'. unit_of_work demo_finish
     (svc_assign_role recording_emit demo_env ''u1'' OPERATOR ''admin'' None None) demo_service = (Inr asg, s') \<and>
     map ra_role (role_assignments (db s')) = [''owner'', ''admin''] \<and>
     map ev_user_id (sink_state s') = [Some ''u1'']"
proof -
  let ?run = "unit_of_work demo_finish
     (svc_assign_role recording_emit demo_env ''u1'' OPERATOR ''admin'' None None) demo_service"
  have "\<not> isl (fst ?run)" by code_simp
  then obtain asg s' where run: "?run = (Inr asg, s')" by (cases ?run) (auto simp: isl_def, metis sum.exhaust)
  have "map ra_role (role_assignments (db demo_service)) = [''owner'']" "sink_state demo_service = []"
    by (simp_all add: demo_service_def)
  with role_grant_atomic [OF demo_finish_ok, where en = demo_env and u = "''u1''" and a = OPERATOR and role = "''admin''"
      and granted_by = None and cust = None and s = demo_service]
  show ?thesis unfolding run by auto
qed

text \<open>
  A role revocation is atomic on the tables: inside a unit of work \<open>revoke_role\<close> either returns \<open>True\<close>, and
  then the grant is revoked and one \<open>role_revoke\<close> row was added and mirrored, or returns \<open>False\<close> and changes nothing, or
  raises and changes neither tables nor mirror; the provider's sessions are not part of the
  transaction, and in both other cases than \<open>False\<close> those of the user are revoked.
\<close>

theorem role_revoke_atomic:
  fixes s :: "(audit_event list, mem_provider) service_state"
  assumes "transactional finish" and "db_ok (db s)"
  shows "case unit_of_work finish (svc_revoke_role (mem_identity_provider L pen) recording_emit en u role t by_user) s of
      (Inl e, s') \<Rightarrow> s' = s\<lparr>provider := snd (provider_revoke_all_sessions u (provider s))\<rparr>
    | (Inr False, s') \<Rightarrow> s' = s
    | (Inr True, s') \<Rightarrow> \<exists>ev rendered.
        s' = s\<lparr>provider := snd (provider_revoke_all_sessions u (provider s)),
               db := (snd (revoke_role (role_now en) u role t None (db s)))
                  \<lparr>audit_events := audit_events (db s) @ [row_of_event ev rendered]\<rparr>,
               sink_state := sink_state s @ [ev]\<rparr> \<and>
        event_type ev = ROLE_REVOKE \<and> ev_user_id ev = Some u"
proof -
  let ?P = "mem_identity_provider L pen" and ?p = "snd (provider_revoke_all_sessions u (provider s))"
  let ?det = "[(''role'', PStr role), (''revoked_by'', opt_str by_user)]"
  let ?d = "snd (revoke_role (role_now en) u role t None (db s))"
  let ?m = "svc_revoke_role ?P recording_emit en u role t by_user"
  have keys: "forbidden_in ?det = []" by code_simp
  have json: "jsonable (PDict ?det)" by (simp add: opt_str_def split: option.split)
  obtain hit where rev: "revoke_role (role_now en) u role t None (db s) = (Inr hit, ?d)"
    by (simp add: revoke_role_def Let_def)
  note changed = on_db_eq [where f = "revoke_role (role_now en) u role t None" and s = s, OF rev]
  show ?thesis
  proof (cases hit)
    case False
    with rev have "?d = db s" using revoke_role_miss [OF assms(2)] by simp
    with changed False have "?m s = (Inr False, s)"
      by (simp add: svc_revoke_role_def andthen_def)
    then show ?thesis by (simp add: unit_of_work_eq [OF assms(1)])
  next
    case True
    have sessions: "on_provider (ip_revoke_all_sessions ?P u) x = (Inr (), x\<lparr>provider := snd (provider_revoke_all_sessions u (provider x))\<rparr>)"
      for x :: "(audit_event list, mem_provider) service_state"
      by (simp add: mem_idp.on_provider_revoke_all) (simp add: mem_identity_provider_def)
    have "?m s = andthen (audit_record recording_emit (audit_env.truncate en) ROLE_REVOKE (Some u) None None ?det None)
          (\<lambda>_ s. (Inr True, s)) (s\<lparr>db := ?d, provider := ?p\<rparr>)"
      unfolding svc_revoke_role_def ret_raise_eq
      by (simp add: andthen_def [of "on_db _"] andthen_def [of "on_provider _"] changed True sessions)
    from this keys json show ?thesis
      by (cases rule: audited_end) (auto simp: unit_of_work_eq [OF assms(1)])
  qed
qed

theorem role_revoke_atomic_witness:
  "\<exists>s'. unit_of_work demo_finish (svc_revoke_role (mem_identity_provider demo_libs (demo_entropy 8 ''r''))
       recording_emit demo_env ''u1'' ''owner'' 5 None) demo_service = (Inr True, s') \<and>
     map ev_user_id (sink_state s') = [Some ''u1'']"
proof -
  let ?run = "unit_of_work demo_finish (svc_revoke_role (mem_identity_provider demo_libs (demo_entropy 8 ''r''))
       recording_emit demo_env ''u1'' ''owner'' 5 None) demo_service"
  have "fst ?run = Inr True" by code_simp
  then obtain s' where run: "?run = (Inr True, s')" by (metis prod.collapse)
  have "db_ok (db demo_service)" "sink_state demo_service = []"
    by (simp_all add: demo_service_def db_ok_def ra_row_ok_def opt_user_exists_def check_customer_id_iff)
  with role_revoke_atomic [OF demo_finish_ok, where s = demo_service and L = demo_libs and pen = "demo_entropy 8 ''r''"
      and en = demo_env and u = "''u1''" and role = "''owner''" and t = 5 and by_user = None]
  show ?thesis unfolding run by auto
qed

text \<open>
  C22: the audit row of a failed login does not outlive the unit of work: when the provider refuses the
  credential and the database accepts the row, \<open>authenticate\<close> writes its \<open>login_failure\<close> row, mirrors its event
  and raises again; the unit of work then rolls the row back, so the sink holds an event that mirrors
  no stored row and the audit table keeps no trace of the attempt.
\<close>

theorem failed_login_row_rolled_back:
  assumes "transactional finish" and "ip_authenticate P a email pw (provider s) = (Inl e, p')"
    and "\<And>row. pg_ok en row" and "audit_uuid en \<notin> ar_event_id ` set (audit_events (db s))"
  shows "\<exists>ev rendered. event_type ev = LOGIN_FAILURE \<and>
     svc_authenticate P recording_emit en a email pw ip ua s =
       (Inl e, s\<lparr>provider := p',
                 db := (db s)\<lparr>audit_events := audit_events (db s) @ [row_of_event ev rendered]\<rparr>,
                 sink_state := sink_state s @ [ev]\<rparr>) \<and>
     unit_of_work finish (svc_authenticate P recording_emit en a email pw ip ua) s =
       (Inl e, s\<lparr>provider := p', sink_state := sink_state s @ [ev]\<rparr>)"
proof -
  let ?det = "[(''archetype'', PStr (archetype_value a)), (''email'', PStr email)]"
  let ?m = "svc_authenticate P recording_emit en a email pw ip ua"
  have keys: "forbidden_in ?det = []" by code_simp
  have json: "jsonable (PDict ?det)" by simp
  have called: "?m s = andthen (audit_record recording_emit (audit_env.truncate en) LOGIN_FAILURE None ip ua ?det None)
      (\<lambda>_ s. (Inl e, s)) (s\<lparr>provider := p'\<rparr>)"
    by (simp add: svc_authenticate_eq on_provider_def assms(2) ret_raise_eq)
  show ?thesis
    using called keys json
  proof (cases rule: audited_end)
    case (refused x)
    moreover have "\<not> isl (fst (audit_record recording_emit (audit_env.truncate en) LOGIN_FAILURE None ip ua ?det None
        (s\<lparr>provider := p'\<rparr>)))"
      by (rule record_accepted [OF keys json])
        (use assms(3,4) in \<open>simp_all add: audit_env.truncate_def opt_user_exists_def\<close>)
    ultimately show ?thesis by blast
  next
    case (recorded ev rendered)
    then show ?thesis
      by (intro exI [of _ ev] exI [of _ rendered]) (simp add: unit_of_work_eq [OF assms(1)])
  qed
qed

theorem failed_login_row_rolled_back_witness:
  "\<exists>s'. unit_of_work demo_finish (svc_authenticate (mem_identity_provider demo_libs (demo_entropy 5 ''r''))
       recording_emit demo_env OPERATOR ''Ann'' ''guess'' None None) demo_service = (Inl authentication_failed, s') \<and>
     audit_events (db s') = [] \<and> map event_type (sink_state s') = [LOGIN_FAILURE]"
proof -
  let ?P = "mem_identity_provider demo_libs (demo_entropy 5 ''r'')"
  have "fst (ip_authenticate ?P OPERATOR ''Ann'' ''guess'' (provider demo_service)) = Inl authentication_failed"
    by (simp add: mem_identity_provider_def demo_service_def demo_wrong_password)
  then obtain p' where "ip_authenticate ?P OPERATOR ''Ann'' ''guess'' (provider demo_service) = (Inl authentication_failed, p')"
    by (metis prod.collapse)
  from failed_login_row_rolled_back [OF demo_finish_ok this, where en = demo_env and ip = None and ua = None]
  show ?thesis by (auto simp: demo_env_def demo_service_def)
qed

end
