(* ===== verification/Codec.thy ===== *)
theory Codec
  imports Json
begin

section \<open>Text and byte codecs of the standard library\<close>

text \<open>
  What the code uses of \<open>str.encode\<close>, \<open>bytes.decode\<close>, \<open>int\<close> and \<open>base64\<close>, on code
  points up to U+00FF.  \<open>b64_encode\<close> and \<open>b64_decode\<close> are \<open>_b64encode\<close> and
  \<open>_b64decode\<close> of \<^verbatim>\<open>auth/trustlist_auth/tokens.py\<close>; decoding follows
  \<open>binascii.a2b_base64\<close>, which skips characters outside the alphabet.
\<close>

subsection \<open>Encodings\<close>

definition encode_ascii :: "string \<Rightarrow> exn + bytes" where
  "encode_ascii s = (if is_ascii s then Inr s
     else Inl (Exn (Other UnicodeEncodeError) ''ordinal not in range(128)''))"

definition decode_ascii :: "bytes \<Rightarrow> exn + string" where
  "decode_ascii b = (if is_ascii b then Inr b
     else Inl (Exn (Other UnicodeDecodeError) ''ordinal not in range(128)''))"

definition utf8_char :: "char \<Rightarrow> bytes" where
  "utf8_char c =
     (let n = code c in if n < 128 then [c] else [char_of (192 + n div 64), char_of (128 + n mod 64)])"

definition utf8_encode :: "string \<Rightarrow> bytes" where
  "utf8_encode s = concat (map utf8_char s)"

definition unicode_decode_error :: exn where
  "unicode_decode_error = Exn (Other UnicodeDecodeError) []"

text \<open>
  Lead bytes 0xC2 and 0xC3 are those of U+0080 to U+00FF; 0xC4 to 0xF4 lead code points the
  model leaves out; every other byte from 0x80 on cannot start a character.
\<close>

fun utf8_decode :: "bytes \<Rightarrow> exn + string" where
  "utf8_decode [] = Inr []"
| "utf8_decode (b # bs) =
     (if code b < 128 then bindE (utf8_decode bs) (\<lambda>s. Inr (b # s))
      else if code b \<in> {194, 195} then
        (case bs of
           [] \<Rightarrow> Inl unicode_decode_error
         | d # ds \<Rightarrow>
             if 128 \<le> code d \<and> code d < 192
             then bindE (utf8_decode ds) (\<lambda>s. Inr (char_of (64 * (code b - 192) + (code d - 128)) # s))
             else Inl unicode_decode_error)
      else if 196 \<le> code b \<and> code b \<le> 244 then Inl outside
      else Inl unicode_decode_error)"

lemma utf8_decode_ascii: "is_ascii b \<Longrightarrow> utf8_decode b = Inr b"
  by (induction b) (auto simp: is_ascii_def)

lemma utf8_encode_ascii: "is_ascii s \<Longrightarrow> utf8_encode s = s"
  by (induction s) (auto simp: is_ascii_def utf8_encode_def utf8_char_def Let_def)

lemma utf8_decode_char: "utf8_decode (utf8_char c @ bs) = bindE (utf8_decode bs) (\<lambda>s. Inr (c # s))"
proof (cases "code c < 128")
  case True
  then show ?thesis by (simp add: utf8_char_def)
next
  case False
  have d: "code c div 64 = 2 \<or> code c div 64 = 3"
    using False code_less [of c] by linarith
  have "char_of (128 + code c mod 64) = c" if "code c div 64 = 2"
  proof -
    have "128 + code c mod 64 = code c" using mult_div_mod_eq [of 64 "code c"] that by simp
    then show ?thesis by (simp only: char_of_code)
  qed
  moreover have "char_of (192 + code c mod 64) = c" if "code c div 64 = 3"
  proof -
    have "192 + code c mod 64 = code c" using mult_div_mod_eq [of 64 "code c"] that by simp
    then show ?thesis by (simp only: char_of_code)
  qed
  moreover have "code c mod 64 < 64" by simp
  ultimately show ?thesis using False d by (auto simp: utf8_char_def Let_def)
qed

lemma utf8_round_trip: "utf8_decode (utf8_encode s) = Inr s"
  by (induction s) (simp_all add: utf8_encode_def utf8_decode_char)

subsection \<open>JSON text is printable ASCII\<close>

definition printable :: "string \<Rightarrow> bool" where
  "printable s \<longleftrightarrow> list_all (\<lambda>c. 32 \<le> code c \<and> code c \<le> 126) s"

lemma printable_simps [simp]:
  "printable []"
  "printable (c # s) \<longleftrightarrow> 32 \<le> code c \<and> code c \<le> 126 \<and> printable s"
  "printable (s @ t) \<longleftrightarrow> printable s \<and> printable t"
  by (auto simp: printable_def)

lemma printable_concat: "(\<And>s. s \<in> set ss \<Longrightarrow> printable s) \<Longrightarrow> printable (concat ss)"
  by (induction ss) simp_all

lemma printable_join:
  "printable j \<Longrightarrow> (\<And>s. s \<in> set ss \<Longrightarrow> printable s) \<Longrightarrow> printable (str_join j ss)"
  by (induction j ss rule: str_join.induct) simp_all

lemma printable_is_ascii: "printable s \<Longrightarrow> is_ascii s"
  by (auto simp: printable_def is_ascii_def list_all_iff)

lemma code_hex_digit: "n < 16 \<Longrightarrow> 32 \<le> code (hex_digit n) \<and> code (hex_digit n) \<le> 126"
  by (simp add: hex_digit_def)

lemma printable_esc_char: "printable (esc_char c)"
proof -
  have "code c div 16 < 16" using code_less [of c] by linarith
  note hex = code_hex_digit [OF this] code_hex_digit [of "code c mod 16"]
  have "code CHR 0x5C = 92" "code CHR 0x22 = 34" "code (CHR ''b'') = 98" "code (CHR ''f'') = 102"
      "code (CHR ''n'') = 110" "code (CHR ''r'') = 114" "code (CHR ''t'') = 116"
      "code (CHR ''u'') = 117" "code (CHR ''0'') = 48"
    by (simp_all add: code_def)
  with hex show ?thesis by (simp add: esc_char_def Let_def)
qed

lemma printable_enc_str: "printable (enc_str s)"
proof -
  have "printable (concat (map esc_char s))"
    by (rule printable_concat) (auto simp: printable_esc_char)
  moreover have "code CHR 0x22 = 34" by (simp add: code_def)
  ultimately show ?thesis by (simp add: enc_str_def)
qed

lemma printable_int: "printable (str_of_int i)"
proof -
  have "printable (str_of_nat n)" for n
    using str_of_nat_digits [of n] by (auto simp: printable_def list_all_iff ascii_digit_def)
  moreover have "code (CHR ''-'') = 45" by (simp add: code_def)
  ultimately show ?thesis by (simp add: str_of_int_def)
qed

lemma printable_words: "printable ''null''" "printable ''true''" "printable ''false''"
    "printable [CHR 0x5B]" "printable [CHR 0x5D]" "printable [CHR 0x7B]" "printable [CHR 0x7D]"
    "printable '',''" "printable '':''" "printable '', ''" "printable '': ''"
  by (simp_all add: code_def)

lemma printable_enc:
  assumes "printable is" and "printable ks"
  shows "printable (enc is ks v)"
proof (induction v)
  case (PList vs)
  then have "printable (str_join is (map (enc is ks) vs))"
    using assms by (intro printable_join) auto
  with printable_words show ?case by simp
next
  case (PDict kvs)
  then have "printable (str_join is (map (\<lambda>(k, v). enc_str k @ ks @ enc is ks v) kvs))"
    using assms by (intro printable_join) (auto simp: printable_enc_str)
  with printable_words show ?case by simp
qed (use printable_words in \<open>simp_all add: printable_enc_str printable_int\<close>)

text \<open>\<open>json.loads\<close> on \<open>bytes\<close>: the encodings other than UTF-8 that it detects are left out.\<close>

definition json_loads_bytes :: "bytes \<Rightarrow> exn + pyval" where
  "json_loads_bytes b =
     (if (b \<noteq> [] \<and> code (hd b) \<in> {239, 254, 255}) \<or> CHR 0x00 \<in> set (take 2 b) then Inl outside
      else bindE (utf8_decode b) json_loads)"

lemma json_loads_bytes_printable:
  assumes "printable b"
  shows "json_loads_bytes b = json_loads b"
proof -
  have "32 \<le> code c \<and> code c \<le> 126" if "c \<in> set b" for c
    using assms that by (simp add: printable_def list_all_iff)
  moreover have "code CHR 0x00 = 0" by (simp add: code_def)
  ultimately have "CHR 0x00 \<notin> set (take 2 b)" and "b \<noteq> [] \<Longrightarrow> code (hd b) \<le> 126"
    by (force dest: in_set_takeD)+
  with utf8_decode_ascii [OF printable_is_ascii [OF assms]] show ?thesis
    by (auto simp: json_loads_bytes_def)
qed

subsection \<open>Integers from text\<close>

text \<open>
  \<open>int(s)\<close>: blanks around, a sign, digits with single underscores between them, at most 4300.
\<close>

definition py_int :: "string \<Rightarrow> exn + int" where
  "py_int s =
     (let t = str_strip s;
          neg = (t \<noteq> [] \<and> hd t = CHR ''-'');
          u = (if t \<noteq> [] \<and> hd t \<in> {CHR ''-'', CHR ''+''} then tl t else t);
          groups = str_split CHR ''_'' u;
          ds = concat groups
      in if list_all (\<lambda>g. g \<noteq> [] \<and> list_all ascii_digit g) groups \<and> length ds \<le> 4300
         then Inr (if neg then - int (nat_of_digits ds) else int (nat_of_digits ds))
         else Inl (value_error ''invalid literal for int()''))"

lemma digit_no_blank: "ascii_digit c \<Longrightarrow> \<not> is_space c \<and> c \<noteq> CHR ''_'' \<and> c \<noteq> CHR ''-'' \<and> c \<noteq> CHR ''+''"
  by (auto simp: ascii_digit_def is_space_def code_def Let_def)

lemma py_int_digits:
  assumes "list_all ascii_digit ds" and "ds \<noteq> []" and "length ds \<le> 4300"
  shows "py_int ds = Inr (int (nat_of_digits ds))"
    and "py_int (CHR ''-'' # ds) = Inr (- int (nat_of_digits ds))"
proof -
  have d: "c \<in> set ds \<Longrightarrow> \<not> is_space c \<and> c \<noteq> CHR ''_'' \<and> c \<noteq> CHR ''-'' \<and> c \<noteq> CHR ''+''" for c
    using assms(1) digit_no_blank by (simp add: list_all_iff)
  have strip: "str_strip ds = ds" "str_strip (CHR ''-'' # ds) = CHR ''-'' # ds"
    using d assms(2) by (intro str_strip_unchanged; auto simp: is_space_def code_def Let_def)+
  have "hd ds \<noteq> CHR ''-''" "hd ds \<noteq> CHR ''+''" using d assms(2) by auto
  moreover have "str_split CHR ''_'' ds = [ds]" using d by (intro str_split_notin) blast
  ultimately show "py_int ds = Inr (int (nat_of_digits ds))"
      "py_int (CHR ''-'' # ds) = Inr (- int (nat_of_digits ds))"
    using assms by (simp_all add: py_int_def Let_def strip)
qed

lemma py_int_str_of_int:
  "length (str_of_nat (nat \<bar>i\<bar>)) \<le> 4300 \<Longrightarrow> py_int (str_of_int i) = Inr i"
  using py_int_digits [OF str_of_nat_digits str_of_nat_nonempty, of "nat \<bar>i\<bar>"]
  by (auto simp: str_of_int_def)


subsection \<open>URL-safe base64 without padding\<close>

definition b64_char :: "nat \<Rightarrow> char" where
  "b64_char n =
     (if n < 26 then char_of (65 + n) else if n < 52 then char_of (71 + n)
      else if n < 62 then char_of (n - 4) else if n = 62 then CHR ''-'' else CHR ''_'')"

text \<open>\<open>base64.urlsafe_b64encode\<close>, with its padding.\<close>

fun urlsafe_b64encode :: "bytes \<Rightarrow> string" where
  "urlsafe_b64encode [] = []"
| "urlsafe_b64encode [a] =
     (let x = code a in [b64_char (x div 4), b64_char (x mod 4 * 16), CHR ''='', CHR ''=''])"
| "urlsafe_b64encode [a, b] =
     (let x = code a; y = code b
      in [b64_char (x div 4), b64_char (x mod 4 * 16 + y div 16), b64_char (y mod 16 * 4), CHR ''=''])"
| "urlsafe_b64encode (a # b # c # bs) =
     (let x = code a; y = code b; z = code c
      in [b64_char (x div 4), b64_char (x mod 4 * 16 + y div 16),
          b64_char (y mod 16 * 4 + z div 64), b64_char (z mod 64)]) @ urlsafe_b64encode bs"

definition b64_encode :: "bytes \<Rightarrow> string" where
  "b64_encode raw = str_rstrip_char CHR ''='' (urlsafe_b64encode raw)"

text \<open>The value of a character, for both alphabets: \<open>-_\<close> is translated to \<open>+/\<close>.\<close>

definition b64_value :: "char \<Rightarrow> nat option" where
  "b64_value ch =
     (let n = code ch
      in if 65 \<le> n \<and> n \<le> 90 then Some (n - 65) else if 97 \<le> n \<and> n \<le> 122 then Some (n - 71)
         else if 48 \<le> n \<and> n \<le> 57 then Some (n + 4) else if n = 45 \<or> n = 43 then Some 62
         else if n = 95 \<or> n = 47 then Some 63 else None)"

text \<open>
  \<open>binascii.a2b_base64\<close>: the position in a group of four, the bits left over from the last
  character and the number of padding characters just seen.
\<close>

fun a2b_base64 :: "nat \<Rightarrow> nat \<Rightarrow> nat \<Rightarrow> string \<Rightarrow> exn + bytes" where
  "a2b_base64 quad left pads [] =
     (if quad = 0 then Inr [] else Inl (Exn (Other BinasciiError) ''Incorrect padding''))"
| "a2b_base64 quad left pads (ch # chs) =
     (if ch = CHR ''='' then
        (if 2 \<le> quad \<and> 4 \<le> quad + (pads + 1) then Inr []
         else a2b_base64 quad left (if 2 \<le> quad then pads + 1 else pads) chs)
      else (case b64_value ch of
              None \<Rightarrow> a2b_base64 quad left pads chs
            | Some v \<Rightarrow>
                if quad = 0 then a2b_base64 1 v 0 chs
                else if quad = 1 then
                  bindE (a2b_base64 2 (v mod 16) 0 chs) (\<lambda>bs. Inr (char_of (left * 4 + v div 16) # bs))
                else if quad = 2 then
                  bindE (a2b_base64 3 (v mod 4) 0 chs) (\<lambda>bs. Inr (char_of (left * 16 + v div 4) # bs))
                else
                  bindE (a2b_base64 0 0 0 chs) (\<lambda>bs. Inr (char_of (left * 64 + v) # bs))))"

definition b64_decode :: "string \<Rightarrow> exn + bytes" where
  "b64_decode s =
     (let t = s @ replicate (nat (- int (length s) mod 4)) CHR ''=''
      in if \<not> is_ascii t
         then Inl (value_error ''string argument should contain only ASCII characters'')
         else a2b_base64 0 0 0 t)"

lemma b64_value_char [simp]: "n < 64 \<Longrightarrow> b64_value (b64_char n) = Some n"
proof -
  assume n: "n < 64"
  consider "n < 26" | "26 \<le> n" "n < 52" | "52 \<le> n" "n < 62" | "n = 62" | "n = 63"
    using n by linarith
  then show ?thesis
    by cases (simp_all add: b64_char_def b64_value_def Let_def, simp_all add: code_def, arith)
qed

lemma b64_char_props: "n < 64 \<Longrightarrow> b64_char n \<noteq> CHR ''='' \<and> b64_char n \<noteq> CHR ''.'' \<and> code (b64_char n) < 128"
proof -
  assume n: "n < 64"
  then have "b64_value (b64_char n) \<noteq> None" by simp
  moreover have "b64_value (CHR ''='') = None" "b64_value (CHR ''.'') = None"
    by (simp_all add: b64_value_def code_def)
  moreover have "code (b64_char n) < 128"
    using n by (auto simp: b64_char_def) (simp_all add: code_def)
  ultimately show ?thesis by metis
qed

lemmas b64_char_plain [simp] = b64_char_props [THEN conjunct1]


lemma rstrip_append:
  "xs \<noteq> [] \<Longrightarrow> last xs \<noteq> c \<Longrightarrow> str_rstrip_char c (xs @ ys) = xs @ str_rstrip_char c ys"
  by (cases xs rule: rev_cases) (auto simp: str_rstrip_char_def dropWhile_append)

lemma rstrip_all: "xs \<noteq> [] \<Longrightarrow> last xs \<noteq> c \<Longrightarrow> str_rstrip_char c (xs @ replicate n c) = xs"
  by (simp add: rstrip_append) (simp add: str_rstrip_char_def)

lemma code_bits:
  "code x div 4 < 64" "code x mod 4 * 16 + code y div 16 < 64" "code x mod 4 * 16 < 64"
  "code y mod 16 * 4 + code z div 64 < 64" "code y mod 16 * 4 < 64" "code z mod 64 < 64"
proof -
  have "code x div 4 < 64" "code y div 16 < 16" "code z div 64 < 4" "code x mod 4 < 4"
      "code y mod 16 < 16" "code z mod 64 < 64"
    by (simp_all add: less_mult_imp_div_less)
  then show "code x div 4 < 64" "code x mod 4 * 16 + code y div 16 < 64" "code x mod 4 * 16 < 64"
      "code y mod 16 * 4 + code z div 64 < 64" "code y mod 16 * 4 < 64" "code z mod 64 < 64"
    by linarith+
qed

lemma join_div_mod:
  fixes a b k :: nat
  assumes "b < k"
  shows "(a * k + b) div k = a" "(a * k + b) mod k = b"
  using assms by simp_all

text \<open>Regrouping three bytes into four sextets and back.\<close>

lemma sextets:
  "code x div 4 * 4 + (code x mod 4 * 16 + code y div 16) div 16 = code x"
  "(code x mod 4 * 16 + code y div 16) mod 16 * 16 + (code y mod 16 * 4 + code z div 64) div 4 = code y"
  "(code y mod 16 * 4 + code z div 64) mod 4 * 64 + code z mod 64 = code z"
  "code x div 4 * 4 + (code x mod 4 * 16) div 16 = code x"
  "(code x mod 4 * 16 + code y div 16) mod 16 * 16 + code y mod 16 = code y"
proof -
  have b: "code y div 16 < 16" "code z div 64 < 4" by (simp_all add: less_mult_imp_div_less)
  show "code x div 4 * 4 + (code x mod 4 * 16 + code y div 16) div 16 = code x"
    by (simp only: join_div_mod [OF b(1)] div_mult_mod_eq)
  show "(code x mod 4 * 16 + code y div 16) mod 16 * 16 + (code y mod 16 * 4 + code z div 64) div 4 = code y"
    by (simp only: join_div_mod [OF b(1)] join_div_mod [OF b(2)] div_mult_mod_eq)
  show "(code y mod 16 * 4 + code z div 64) mod 4 * 64 + code z mod 64 = code z"
    by (simp only: join_div_mod [OF b(2)] div_mult_mod_eq)
  show "code x div 4 * 4 + (code x mod 4 * 16) div 16 = code x" by simp
  show "(code x mod 4 * 16 + code y div 16) mod 16 * 16 + code y mod 16 = code y"
    by (simp only: join_div_mod [OF b(1)] div_mult_mod_eq)
qed

lemma b64_encode_simps [simp]:
  "b64_encode [] = []"
  "b64_encode [a] = [b64_char (code a div 4), b64_char (code a mod 4 * 16)]"
  "b64_encode [a, b] =
     [b64_char (code a div 4), b64_char (code a mod 4 * 16 + code b div 16), b64_char (code b mod 16 * 4)]"
  "b64_encode (a # b # c # bs) =
     [b64_char (code a div 4), b64_char (code a mod 4 * 16 + code b div 16),
      b64_char (code b mod 16 * 4 + code c div 64), b64_char (code c mod 64)] @ b64_encode bs"
  using rstrip_all [of "[b64_char (code a div 4), b64_char (code a mod 4 * 16)]" "CHR ''=''" 2]
    rstrip_all [of "[b64_char (code a div 4), b64_char (code a mod 4 * 16 + code b div 16),
      b64_char (code b mod 16 * 4)]" "CHR ''=''" 1]
    rstrip_append [of "[b64_char (code a div 4), b64_char (code a mod 4 * 16 + code b div 16),
      b64_char (code b mod 16 * 4 + code c div 64), b64_char (code c mod 64)]" "CHR ''=''"
      "urlsafe_b64encode bs"]
  by (simp_all add: b64_encode_def Let_def code_bits numeral_2_eq_2 str_rstrip_char_def)

lemma b64_encode_chars:
  "c \<in> set (b64_encode raw) \<Longrightarrow> c \<noteq> CHR ''.'' \<and> code c < 128"
proof (induction raw rule: urlsafe_b64encode.induct)
  case (4 a b c' bs)
  then show ?case using b64_char_props code_bits by (auto simp del: b64_char_plain)
qed (use b64_char_props code_bits in \<open>auto simp del: b64_char_plain\<close>)

lemma b64_padding:
  "b64_encode raw @ replicate (nat (- int (length (b64_encode raw)) mod 4)) CHR ''='' =
     urlsafe_b64encode raw"
proof (induction raw rule: urlsafe_b64encode.induct)
  case (4 a b c bs)
  have "(- 4 - k) mod 4 = - k mod 4" for k :: int by presburger
  then have "- int (length (b64_encode (a # b # c # bs))) mod 4 = - int (length (b64_encode bs)) mod 4"
    by (simp add: algebra_simps)
  with 4 show ?case by (simp add: Let_def)
qed (simp_all add: Let_def numeral_2_eq_2)

lemma a2b_encode: "a2b_base64 0 0 0 (urlsafe_b64encode raw) = Inr raw"
  by (induction raw rule: urlsafe_b64encode.induct) 
    (simp_all add: Let_def code_bits sextets del: div_mult_self1 div_mult_self2 div_mult_self3
      div_mult_self4 mod_mult_self1 mod_mult_self2 mod_mult_self3 mod_mult_self4)

lemma b64_round_trip: "b64_decode (b64_encode raw) = Inr raw"
proof -
  have "is_ascii (b64_encode raw @ replicate n CHR ''='')" for n
  proof -
    have "is_ascii (b64_encode raw)"
      using b64_encode_chars by (auto simp: is_ascii_def list_all_iff)
    moreover have "code (CHR ''='') = 61" by (simp add: code_def)
    ultimately show ?thesis by (induction n) (auto simp: is_ascii_def)
  qed
  then have "is_ascii (urlsafe_b64encode raw)" by (metis b64_padding)
  then show ?thesis
    unfolding b64_decode_def Let_def b64_padding by (simp add: a2b_encode)
qed

end
