(* ===== verification/Sha256.thy ===== *)
theory Sha256
  imports Codec "HOL-Library.Word"
begin

unbundle bit_operations_syntax

section \<open>SHA-256 and HMAC\<close>

text \<open>
  \<open>hashlib.sha256\<close> and \<open>hmac.new(key, message, hashlib.sha256)\<close> of the standard library,
  after FIPS 180-4 and RFC 2104, on byte strings; words are 32 bits wide and addition wraps.
\<close>

type_synonym w32 = "32 word"

text \<open>
  The constants are the first 32 bits of the fractional parts of the cube roots of the first
  64 primes and of the square roots of the first 8: \<open>root_bits k b 0 n\<close> is the largest
  \<open>b\<close>-bit number whose \<open>k\<close>-th power is at most \<open>n\<close>, found bit by bit.
\<close>

definition small_primes :: "nat list" where
  "small_primes =
     [2, 3, 5, 7, 11, 13, 17, 19, 23, 29, 31, 37, 41, 43, 47, 53,
      59, 61, 67, 71, 73, 79, 83, 89, 97, 101, 103, 107, 109, 113, 127, 131,
      137, 139, 149, 151, 157, 163, 167, 173, 179, 181, 191, 193, 197, 199, 211, 223,
      227, 229, 233, 239, 241, 251, 257, 263, 269, 271, 277, 281, 283, 293, 307, 311]"

fun root_bits :: "nat \<Rightarrow> nat \<Rightarrow> nat \<Rightarrow> nat \<Rightarrow> nat" where
  "root_bits k 0 r n = r"
| "root_bits k (Suc b) r n = root_bits k b (if (r + 2 ^ b) ^ k \<le> n then r + 2 ^ b else r) n"

definition sha256_K :: "w32 list" where
  "sha256_K = map (\<lambda>p. of_nat (root_bits 3 35 0 (p * 2 ^ 96))) small_primes"

definition sha256_H0 :: "w32 list" where
  "sha256_H0 = map (\<lambda>p. of_nat (root_bits 2 37 0 (p * 2 ^ 64))) (take 8 small_primes)"

definition rotr :: "nat \<Rightarrow> w32 \<Rightarrow> w32" where
  "rotr n x = word_rotr n x"

definition big_sigma0 :: "w32 \<Rightarrow> w32" where
  "big_sigma0 x = rotr 2 x XOR rotr 13 x XOR rotr 22 x"

definition big_sigma1 :: "w32 \<Rightarrow> w32" where
  "big_sigma1 x = rotr 6 x XOR rotr 11 x XOR rotr 25 x"

definition small_sigma0 :: "w32 \<Rightarrow> w32" where
  "small_sigma0 x = rotr 7 x XOR rotr 18 x XOR drop_bit 3 x"

definition small_sigma1 :: "w32 \<Rightarrow> w32" where
  "small_sigma1 x = rotr 17 x XOR rotr 19 x XOR drop_bit 10 x"

definition choose_bits :: "w32 \<Rightarrow> w32 \<Rightarrow> w32 \<Rightarrow> w32" where
  "choose_bits x y z = (x AND y) XOR (NOT x AND z)"

definition majority_bits :: "w32 \<Rightarrow> w32 \<Rightarrow> w32 \<Rightarrow> w32" where
  "majority_bits x y z = (x AND y) XOR (x AND z) XOR (y AND z)"

subsection \<open>Bytes and words\<close>

fun bytes_of_nat :: "nat \<Rightarrow> nat \<Rightarrow> bytes" where
  \<comment> \<open>\<open>k\<close> bytes, most significant first\<close>
  "bytes_of_nat 0 n = []"
| "bytes_of_nat (Suc k) n = bytes_of_nat k (n div 256) @ [char_of (n mod 256)]"

definition nat_of_bytes :: "bytes \<Rightarrow> nat" where
  "nat_of_bytes bs = foldl (\<lambda>n b. 256 * n + code b) 0 bs"

fun words_of_bytes :: "bytes \<Rightarrow> w32 list" where
  "words_of_bytes (a # b # c # d # bs) = of_nat (nat_of_bytes [a, b, c, d]) # words_of_bytes bs"
| "words_of_bytes _ = []"

definition bytes_of_words :: "w32 list \<Rightarrow> bytes" where
  "bytes_of_words ws = concat (map (\<lambda>w. bytes_of_nat 4 (unat w)) ws)"

subsection \<open>The compression function\<close>

definition sha256_pad :: "bytes \<Rightarrow> bytes" where
  "sha256_pad m =
     m @ [CHR 0x80] @ replicate ((119 - length m mod 64) mod 64) CHR 0x00 @ bytes_of_nat 8 (8 * length m)"

fun extend_schedule :: "nat \<Rightarrow> w32 list \<Rightarrow> w32 list" where
  "extend_schedule 0 ws = ws"
| "extend_schedule (Suc k) ws =
     (let t = length ws
      in extend_schedule k (ws @ [small_sigma1 (ws ! (t - 2)) + ws ! (t - 7) +
           small_sigma0 (ws ! (t - 15)) + ws ! (t - 16)]))"

type_synonym sha_state = "w32 \<times> w32 \<times> w32 \<times> w32 \<times> w32 \<times> w32 \<times> w32 \<times> w32"

fun sha256_round :: "w32 \<times> w32 \<Rightarrow> sha_state \<Rightarrow> sha_state" where
  "sha256_round (k, w) (a, b, c, d, e, f, g, h) =
     (let t1 = h + big_sigma1 e + choose_bits e f g + k + w;
          t2 = big_sigma0 a + majority_bits a b c
      in (t1 + t2, a, b, c, d + t1, e, f, g))"

fun sha_list :: "sha_state \<Rightarrow> w32 list" where
  "sha_list (a, b, c, d, e, f, g, h) = [a, b, c, d, e, f, g, h]"

definition sha_state_of :: "w32 list \<Rightarrow> sha_state" where
  "sha_state_of hs = (hs ! 0, hs ! 1, hs ! 2, hs ! 3, hs ! 4, hs ! 5, hs ! 6, hs ! 7)"

definition compress :: "w32 list \<Rightarrow> w32 list \<Rightarrow> w32 list" where
  "compress block hs =
     map2 (+) hs (sha_list (fold sha256_round (zip sha256_K (extend_schedule 48 block)) (sha_state_of hs)))"

function chunks :: "nat \<Rightarrow> 'a list \<Rightarrow> 'a list list" where
  "chunks n xs = (if xs = [] \<or> n = 0 then [] else take n xs # chunks n (drop n xs))"
  by pat_completeness auto

termination
  by (relation "measure (\<lambda>(n, xs). length xs)") auto

declare chunks.simps [simp del]

definition sha256 :: "bytes \<Rightarrow> bytes" where
  "sha256 m = bytes_of_words (fold compress (chunks 16 (words_of_bytes (sha256_pad m))) sha256_H0)"

definition hexdigest :: "bytes \<Rightarrow> string" where
  "hexdigest bs = concat (map (\<lambda>b. [hex_digit (code b div 16), hex_digit (code b mod 16)]) bs)"

subsection \<open>HMAC\<close>

definition xor_byte :: "nat \<Rightarrow> char \<Rightarrow> char" where
  "xor_byte n c = char_of (unat ((of_nat n :: 8 word) XOR of_nat (code c)))"

definition hmac_sha256 :: "bytes \<Rightarrow> bytes \<Rightarrow> bytes" where
  "hmac_sha256 key m =
     (let k0 = (if 64 < length key then sha256 key else key);
          k = k0 @ replicate (64 - length k0) CHR 0x00
      in sha256 (map (xor_byte 0x5C) k @ sha256 (map (xor_byte 0x36) k @ m)))"

subsection \<open>Lengths\<close>

lemma length_bytes_of_nat [simp]: "length (bytes_of_nat k n) = k"
  by (induction k arbitrary: n) simp_all

lemma length_bytes_of_words [simp]: "length (bytes_of_words ws) = 4 * length ws"
  by (induction ws) (simp_all add: bytes_of_words_def)

lemma length_sha_list [simp]: "length (sha_list st) = 8"
  by (cases st rule: sha_list.cases) simp

lemma length_compress: "length hs = 8 \<Longrightarrow> length (compress b hs) = 8"
  by (simp add: compress_def)

lemma length_fold_compress: "length hs = 8 \<Longrightarrow> length (fold compress bs hs) = 8"
  by (induction bs arbitrary: hs) (simp_all add: length_compress)

lemma length_sha256 [simp]: "length (sha256 m) = 32"
  by (simp add: sha256_def length_fold_compress sha256_H0_def small_primes_def)

lemma length_hexdigest [simp]: "length (hexdigest bs) = 2 * length bs"
  by (induction bs) (simp_all add: hexdigest_def)

lemma length_hmac [simp]: "length (hmac_sha256 k m) = 32"
  by (simp add: hmac_sha256_def Let_def)

text \<open>The padded message fills whole blocks.\<close>

lemma length_sha256_pad: "64 dvd length (sha256_pad m)"
proof -
  have "(l + 1 + (119 - l mod 64) mod 64 + 8) mod 64 = 0" for l :: nat
  proof -
    define r where "r = l mod 64"
    then have "r < 64" by simp
    have "r + 1 + (119 - r) mod 64 + 8 \<in> {64, 128}"
    proof (cases "r \<le> 55")
      case True
      then have "119 - r = 64 + (55 - r)" by simp
      then have "(119 - r) mod 64 = 55 - r" by (simp only: mod_add_self1) simp
      with True show ?thesis by simp
    next
      case False
      with \<open>r < 64\<close> have "(119 - r) mod 64 = 119 - r" by (intro mod_less) simp
      with False \<open>r < 64\<close> show ?thesis by simp
    qed
    moreover have "x mod 64 = 0" if "x \<in> {64, 128}" for x :: nat using that by auto
    ultimately have "(r + 1 + (119 - r) mod 64 + 8) mod 64 = 0" by blast
    then have "(r + (1 + (119 - r) mod 64 + 8)) mod 64 = 0" by (simp only: add.assoc)
    moreover have "(l + x) mod 64 = (r + x) mod 64" for x
      unfolding r_def by (rule mod_add_left_eq [symmetric])
    ultimately show ?thesis unfolding r_def [symmetric] by (simp only: add.assoc)
  qed
  moreover have "length (sha256_pad m) = length m + 1 + (119 - length m mod 64) mod 64 + 8"
    unfolding sha256_pad_def by (simp only: length_append length_replicate length_bytes_of_nat list.size)
  ultimately show ?thesis by (simp only: dvd_eq_mod_eq_0)
qed

lemma hex_digit_inject: "m < 16 \<Longrightarrow> n < 16 \<Longrightarrow> hex_digit m = hex_digit n \<Longrightarrow> m = n"
  using hex_value_digit by (metis option.inject)

lemma hexdigest_inject: "hexdigest bs = hexdigest cs \<Longrightarrow> bs = cs"
proof (induction bs arbitrary: cs)
  case Nil
  then show ?case by (cases cs) (simp_all add: hexdigest_def)
next
  case (Cons b bs)
  then obtain c ds where cs: "cs = c # ds" by (cases cs) (auto simp: hexdigest_def)
  have lt: "code x div 16 < 16" for x by (simp add: less_mult_imp_div_less)
  from Cons.prems cs have "hex_digit (code b div 16) = hex_digit (code c div 16)"
      "hex_digit (code b mod 16) = hex_digit (code c mod 16)" "hexdigest bs = hexdigest ds"
    by (simp_all add: hexdigest_def)
  with lt have "code b div 16 = code c div 16" "code b mod 16 = code c mod 16" "bs = ds"
    using Cons.IH by (auto intro: hex_digit_inject)
  then have "code b = code c" by (metis div_mult_mod_eq)
  with \<open>bs = ds\<close> cs show ?case by simp
qed

end
