(* ===== verification/Decode_Errors.thy ===== *)
theory Decode_Errors
  imports Codec
begin

section \<open>What decoding and parsing can raise\<close>

text \<open>
  \<open>raises_only C r\<close>: if \<open>r\<close> is an exception its class is in \<open>C\<close>.  The JSON and UTF-8 readers
  and the base64 decoder raise only subclasses of \<open>ValueError\<close> (or leave the model's fragment);
  the \<open>raises_only\<close> rules are the ones the clients' error theorems are proved with.
\<close>

definition decode_errors :: "exn_class set" where
  "decode_errors = {Other JSONDecodeError, Other ValueError, Other UnicodeDecodeError,
     Other BinasciiError, Other OutsideFragment}"

definition raises_only :: "exn_class set \<Rightarrow> exn + 'a \<Rightarrow> bool" where
  "raises_only C r \<longleftrightarrow> (case r of Inl e \<Rightarrow> exn_class e \<in> C | Inr _ \<Rightarrow> True)"

lemma raises_only_simps [simp]:
  "raises_only C (Inr x)" "raises_only C (Inl e) \<longleftrightarrow> exn_class e \<in> C"
  by (simp_all add: raises_only_def)

lemma raises_only_bind:
  "raises_only C m \<Longrightarrow> (\<And>x. m = Inr x \<Longrightarrow> raises_only C (k x)) \<Longrightarrow> raises_only C (bindE m k)"
  by (cases m) auto

lemma raises_only_list:
  "raises_only C a \<Longrightarrow> (\<And>c t. raises_only C (b c t)) \<Longrightarrow>
     raises_only C (case xs of [] \<Rightarrow> a | c # t \<Rightarrow> b c t)"
  by (cases xs) simp_all

lemma errors_in [simp]:
  "exn_class decode_error \<in> decode_errors" "exn_class outside \<in> decode_errors"
  "exn_class unicode_decode_error \<in> decode_errors" "Other ValueError \<in> decode_errors"
  "Other BinasciiError \<in> decode_errors" "Other UnicodeDecodeError \<in> decode_errors"
  by (simp_all add: decode_errors_def decode_error_def outside_def unicode_decode_error_def)

lemma raises_only_case:
  "raises_only C a \<Longrightarrow> (\<And>c t. xs = c # t \<Longrightarrow> raises_only C (b c t)) \<Longrightarrow>
     raises_only C (case xs of [] \<Rightarrow> a | c # t \<Rightarrow> b c t)"
  by (cases xs) simp_all

lemma raises_only_if:
  "(P \<Longrightarrow> raises_only C a) \<Longrightarrow> (\<not> P \<Longrightarrow> raises_only C b) \<Longrightarrow> raises_only C (if P then a else b)"
  by simp

lemma raises_only_option:
  "raises_only C a \<Longrightarrow> (\<And>x. raises_only C (b x)) \<Longrightarrow>
     raises_only C (case m of None \<Rightarrow> a | Some x \<Rightarrow> b x)"
  by (cases m) simp_all

lemma raises_only_push: "raises_only C r \<Longrightarrow> raises_only C (push_char x r)"
  by (cases r) (auto simp: push_char_def)

lemma parse_str_errors: "raises_only decode_errors (parse_str s)"
proof (induction s rule: length_induct)
  case (1 s)
  then have IH: "length t < length s \<Longrightarrow> raises_only decode_errors (parse_str t)" for t by blast
  show ?case
  proof (cases s)
    case Nil
    then show ?thesis by simp
  next
    case (Cons c cs)
    show ?thesis
      unfolding Cons parse_str.simps
      by (intro raises_only_if raises_only_case raises_only_option raises_only_push IH)
        (simp_all add: Cons)
  qed
qed

lemma parse_num_errors: "raises_only decode_errors (parse_num s)"
  by (simp add: parse_num_def Let_def)

lemma parse_atom_errors: "raises_only decode_errors (parse_atom s)"
  by (simp add: parse_atom_def parse_num_errors)

lemma parse_errors:
  "raises_only decode_errors (parse_val n s)"
  "raises_only decode_errors (parse_items n s)"
  "raises_only decode_errors (parse_members n s)"
proof (induction n arbitrary: s)
  case 0
  {
    case 1 then show ?case by simp
  next
    case 2 then show ?case by simp
  next
    case 3 then show ?case by simp
  }
next
  case (Suc n)
  {
    case 1
    show ?case
      unfolding parse_val.simps(2)
      by (intro raises_only_list) (auto intro!: raises_only_bind parse_str_errors Suc.IH parse_atom_errors)
  next
    case 2
    show ?case
      unfolding parse_items.simps(2)
      by (intro raises_only_bind Suc.IH) (auto intro!: raises_only_list raises_only_bind Suc.IH)
  next
    case 3
    show ?case
      unfolding parse_members.simps(2)
      by (intro raises_only_list)
         (auto intro!: raises_only_list raises_only_bind parse_str_errors Suc.IH)
  }
qed

lemma json_loads_errors: "raises_only decode_errors (json_loads s)"
  unfolding json_loads_def by (intro raises_only_bind parse_errors) auto

lemma utf8_decode_errors: "raises_only decode_errors (utf8_decode b)"
proof (induction b rule: length_induct)
  case (1 b)
  then have IH: "length t < length b \<Longrightarrow> raises_only decode_errors (utf8_decode t)" for t by blast
  show ?case
  proof (cases b)
    case Nil
    then show ?thesis by simp
  next
    case (Cons c cs)
    show ?thesis
      unfolding Cons utf8_decode.simps
      by (intro raises_only_if raises_only_case raises_only_bind IH) (simp_all add: Cons)
  qed
qed

lemma a2b_errors: "raises_only decode_errors (a2b_base64 q l p s)"
  by (induction q l p s rule: a2b_base64.induct)
     (auto intro!: raises_only_bind split: option.split)

end
