(* ===== verification/Tokens.thy ===== *)
theory Tokens
  imports Sha256 Decode_Errors
begin

section \<open>Signed verification tokens\<close>

text \<open>
  \<^verbatim>\<open>auth/trustlist_auth/tokens.py\<close>.  A signer is its secret.  Instants are microseconds;
  \<open>timestamp()\<close> is a float in the code, exact to the comparisons made here for instants before
  the year 2242, and \<open>int()\<close> truncates it towards zero.
\<close>

record verification_claim =
  vc_user_id :: string
  vc_email :: string

definition DEFAULT_EMAIL_TOKEN_TTL :: int where
  "DEFAULT_EMAIL_TOKEN_TTL = 24 * 3600 * 1000000"

definition token_invalid :: "string \<Rightarrow> exn" where
  "token_invalid m = Exn (Auth TokenInvalid) m"

definition trunc_seconds :: "instant \<Rightarrow> int" where
  "trunc_seconds t = (if 0 \<le> t then t div 1000000 else - ((- t) div 1000000))"

definition TokenSigner :: "bytes \<Rightarrow> exn + bytes" where
  "TokenSigner secret =
     (if secret = [] then Inl (value_error ''token signing secret must not be empty'') else Inr secret)"

definition token_sign :: "bytes \<Rightarrow> string \<Rightarrow> string \<Rightarrow> exn + string" where
  "token_sign secret payload_b64 expiry_b64 =
     bindE (encode_ascii (payload_b64 @ ''.'' @ expiry_b64)) (\<lambda>message.
       Inr (b64_encode (hmac_sha256 secret message)))"

definition issue_token ::
  "bytes \<Rightarrow> verification_claim \<Rightarrow> int \<Rightarrow> instant \<Rightarrow> exn + string" where
  "issue_token secret claim ttl now =
     (let expiry = now + ttl
      in bindE (json_dumps_compact (sort_keys (PDict
           [(''user_id'', PStr (vc_user_id claim)), (''email'', PStr (vc_email claim))]))) (\<lambda>payload.
         let payload_b64 = b64_encode (utf8_encode payload)
         in bindE (encode_ascii (str_of_int (trunc_seconds expiry))) (\<lambda>expiry_raw.
            let expiry_b64 = b64_encode expiry_raw
            in bindE (token_sign secret payload_b64 expiry_b64) (\<lambda>signature.
               Inr (payload_b64 @ ''.'' @ expiry_b64 @ ''.'' @ signature)))))"

text \<open>\<open>hmac.compare_digest\<close> on two \<open>str\<close>.\<close>

definition compare_digest :: "string \<Rightarrow> string \<Rightarrow> exn + bool" where
  "compare_digest a b =
     (if is_ascii a \<and> is_ascii b then Inr (a = b)
      else Inl (type_error ''comparing strings with non-ASCII characters is not supported''))"

text \<open>The guarded block: the expiry and the payload of a token.\<close>

definition token_parts :: "string \<Rightarrow> string \<Rightarrow> exn + int \<times> pyval" where
  "token_parts payload_b64 expiry_b64 =
     bindE (bindE (b64_decode expiry_b64) decode_ascii) (\<lambda>expiry_raw.
     bindE (py_int expiry_raw) (\<lambda>expiry_ts.
     bindE (bindE (b64_decode payload_b64) json_loads_bytes) (\<lambda>payload.
     Inr (expiry_ts, payload))))"

definition str_field :: "string \<Rightarrow> (string, pyval) dict \<Rightarrow> string option" where
  "str_field k d = (case map_of d k of Some (PStr s) \<Rightarrow> Some s | _ \<Rightarrow> None)"

definition claim_of :: "pyval \<Rightarrow> exn + verification_claim" where
  "claim_of payload =
     (case payload of
        PDict d \<Rightarrow>
          (case str_field ''user_id'' d of
             None \<Rightarrow> Inl (token_invalid ''token payload is missing required fields'')
           | Some u \<Rightarrow>
               (case str_field ''email'' d of
                  None \<Rightarrow> Inl (token_invalid ''token payload is missing required fields'')
                | Some e \<Rightarrow> Inr \<lparr>vc_user_id = u, vc_email = e\<rparr>))
      | _ \<Rightarrow> Inl (token_invalid ''token payload is not an object''))"

definition verify_token :: "bytes \<Rightarrow> string \<Rightarrow> instant \<Rightarrow> exn + verification_claim" where
  "verify_token secret token now =
     (case str_split CHR ''.'' token of
        [payload_b64, expiry_b64, signature] \<Rightarrow>
          bindE (token_sign secret payload_b64 expiry_b64) (\<lambda>expected.
          bindE (compare_digest expected signature) (\<lambda>same.
            if \<not> same then Inl (token_invalid ''token signature does not verify'')
            else (case token_parts payload_b64 expiry_b64 of
                    Inl e \<Rightarrow>
                      if catches [Other ValueError, Other UnicodeDecodeError] e
                      then Inl (token_invalid ''token payload is malformed'') else Inl e
                  | Inr (expiry_ts, payload) \<Rightarrow>
                      if expiry_ts * 1000000 < now
                      then Inl (Exn (Auth TokenExpired) ''token has expired'')
                      else claim_of payload)))
      | _ \<Rightarrow> Inl (token_invalid ''token is not three dot-separated segments''))"

subsection \<open>Lemmas\<close>

lemma b64_encode_ascii [simp]: "is_ascii (b64_encode raw)"
  using b64_encode_chars by (auto simp: is_ascii_def list_all_iff)

lemma b64_encode_no_dot [simp]: "CHR ''.'' \<notin> set (b64_encode raw)"
  using b64_encode_chars by blast

lemma is_ascii_simps [simp]:
  "is_ascii []" "is_ascii (c # s) \<longleftrightarrow> code c < 128 \<and> is_ascii s" "is_ascii (s @ t) \<longleftrightarrow> is_ascii s \<and> is_ascii t"
  by (auto simp: is_ascii_def)

lemma code_dot [simp]: "code (CHR ''.'') = 46"
  by (simp add: code_def)

lemma str_split_dot: "CHR ''.'' \<notin> set p \<Longrightarrow> str_split CHR ''.'' (p @ CHR ''.'' # s) = p # str_split CHR ''.'' s"
  by (induction p) auto

lemma split_token:
  "CHR ''.'' \<notin> set p \<Longrightarrow> CHR ''.'' \<notin> set e \<Longrightarrow> CHR ''.'' \<notin> set s \<Longrightarrow>
     str_split CHR ''.'' (p @ ''.'' @ e @ ''.'' @ s) = [p, e, s]"
  by (simp add: str_split_dot str_split_notin)

text \<open>The signature the signer puts on a payload and an expiry.\<close>

definition token_mac :: "bytes \<Rightarrow> string \<Rightarrow> string \<Rightarrow> string" where
  "token_mac secret p e = b64_encode (hmac_sha256 secret (p @ ''.'' @ e))"

lemma token_sign_eq:
  "token_sign secret p e =
     (if is_ascii p \<and> is_ascii e then Inr (token_mac secret p e)
      else Inl (Exn (Other UnicodeEncodeError) ''ordinal not in range(128)''))"
  by (auto simp: token_sign_def encode_ascii_def token_mac_def)

lemma token_mac_ascii [simp]: "is_ascii (token_mac secret p e)"
  by (simp add: token_mac_def)

text \<open>What the guarded block and the claim make of a signed token.\<close>

definition open_token :: "string \<Rightarrow> string \<Rightarrow> instant \<Rightarrow> exn + verification_claim" where
  "open_token p e now =
     (case token_parts p e of
        Inl x \<Rightarrow>
          if catches [Other ValueError, Other UnicodeDecodeError] x
          then Inl (token_invalid ''token payload is malformed'') else Inl x
      | Inr (expiry_ts, payload) \<Rightarrow>
          if expiry_ts * 1000000 < now then Inl (Exn (Auth TokenExpired) ''token has expired'')
          else claim_of payload)"

lemma verify_token_eq:
  "verify_token secret token now =
     (case str_split CHR ''.'' token of
        [p, e, s] \<Rightarrow>
          if \<not> (is_ascii p \<and> is_ascii e)
          then Inl (Exn (Other UnicodeEncodeError) ''ordinal not in range(128)'')
          else if \<not> is_ascii s
          then Inl (type_error ''comparing strings with non-ASCII characters is not supported'')
          else if s \<noteq> token_mac secret p e
          then Inl (token_invalid ''token signature does not verify'')
          else open_token p e now
      | _ \<Rightarrow> Inl (token_invalid ''token is not three dot-separated segments''))"
  by (auto simp: verify_token_def token_sign_eq compare_digest_def open_token_def
      split: list.split)

lemma length_str_of_nat: "n < 10 ^ k \<Longrightarrow> 0 < k \<Longrightarrow> length (str_of_nat n) \<le> k"
proof (induction k arbitrary: n)
  case 0
  then show ?case by simp
next
  case (Suc k)
  show ?case
  proof (cases "n < 10")
    case True
    then show ?thesis by (subst str_of_nat.simps) simp
  next
    case False
    then have "0 < k" using Suc.prems(1) by (cases k) simp_all
    moreover have "n div 10 < 10 ^ k" using Suc.prems(1) by (simp add: less_mult_imp_div_less mult.commute)
    ultimately have "length (str_of_nat (n div 10)) \<le> k" using Suc.IH by blast
    with False show ?thesis by (subst str_of_nat.simps) simp
  qed
qed

lemma issue_token_eq:
  "issue_token secret claim ttl now =
     (let p = b64_encode (enc '','' '':'' (PDict [(''email'', PStr (vc_email claim)),
                (''user_id'', PStr (vc_user_id claim))]));
          e = b64_encode (str_of_int (trunc_seconds (now + ttl)))
      in Inr (p @ ''.'' @ e @ ''.'' @ token_mac secret p e))"
proof -
  have "sort_keys (PDict [(''user_id'', PStr u), (''email'', PStr m)]) =
      PDict [(''email'', PStr m), (''user_id'', PStr u)]" for u m
    by (simp add: less_eq_char_def list_le_def)
  moreover have "printable (enc '','' '':'' v)" for v
    using printable_words by (intro printable_enc)
  ultimately show ?thesis
    by (simp add: issue_token_def Let_def json_dumps_compact_def encode_ascii_def token_sign_eq
        utf8_encode_ascii printable_is_ascii printable_int del: enc.simps)
qed


lemma token_parts_errors: "raises_only decode_errors (token_parts p e)"
proof -
  have "raises_only decode_errors (b64_decode s)" for s
    by (simp add: b64_decode_def Let_def a2b_errors)
  moreover have "raises_only decode_errors (decode_ascii b)" for b
    by (simp add: decode_ascii_def)
  moreover have "raises_only decode_errors (json_loads_bytes b)" for b
    by (auto simp: json_loads_bytes_def intro!: raises_only_bind utf8_decode_errors json_loads_errors)
  moreover have "raises_only decode_errors (py_int s)" for s
    by (simp add: py_int_def Let_def)
  ultimately show ?thesis
    unfolding token_parts_def by (intro raises_only_bind) auto
qed

lemma claim_of_errors: "raises_only {Auth TokenInvalid} (claim_of v)"
  by (cases v) (simp_all add: claim_of_def token_invalid_def split: option.split)

lemma open_token_errors:
  "raises_only {Auth TokenInvalid, Auth TokenExpired, Other OutsideFragment} (open_token p e now)"
proof (cases "token_parts p e")
  case (Inl x)
  then have "exn_class x \<in> decode_errors" using token_parts_errors [of p e] by simp
  with Inl show ?thesis
    by (cases x) (auto simp: open_token_def token_invalid_def decode_errors_def catches_def)
next
  case (Inr r)
  have "raises_only {Auth TokenInvalid, Auth TokenExpired, Other OutsideFragment} (claim_of (snd r))"
    using claim_of_errors [of "snd r"] by (auto simp: raises_only_def split: sum.splits)
  with Inr show ?thesis by (cases r) (simp add: open_token_def)
qed


lemma open_issued_token:
  assumes "\<bar>expiry\<bar> < 10 ^ 18"
    and body: "body = PDict [(''email'', PStr (vc_email claim)), (''user_id'', PStr (vc_user_id claim))]"
  shows "open_token (b64_encode (enc '','' '':'' body)) (b64_encode (str_of_int expiry)) now =
     (if expiry * 1000000 < now then Inl (Exn (Auth TokenExpired) ''token has expired'') else Inr claim)"
proof -
  have pr: "printable (enc '','' '':'' body)" using printable_words by (intro printable_enc)
  have "nat \<bar>expiry\<bar> < 10 ^ 18" using assms(1) by (simp add: nat_less_iff)
  then have "length (str_of_nat (nat \<bar>expiry\<bar>)) \<le> 18" by (rule length_str_of_nat) simp
  then have "py_int (str_of_int expiry) = Inr expiry" by (intro py_int_str_of_int) simp
  moreover have "decode_ascii (str_of_int expiry) = Inr (str_of_int expiry)"
    by (simp add: decode_ascii_def printable_is_ascii printable_int)
  moreover have "json_loads_bytes (enc '','' '':'' body) = Inr body"
    unfolding json_loads_bytes_printable [OF pr] by (rule json_loads_enc) (simp_all add: body)
  ultimately have "token_parts (b64_encode (enc '','' '':'' body)) (b64_encode (str_of_int expiry)) =
      Inr (expiry, body)"
    by (simp add: token_parts_def b64_round_trip)
  then show ?thesis by (simp add: open_token_def claim_of_def str_field_def body)
qed

subsection \<open>Properties\<close>

text \<open>
  C15: a token round-trips: issuing never fails, and the token it returns verifies under the same
  secret to the very claim, from the issuing instant until its expiry second has passed, and
  raises \<open>TokenExpired\<close> from then on.
\<close>

theorem token_round_trip:
  assumes "\<bar>trunc_seconds (now + ttl)\<bar> < 10 ^ 18"
  shows "\<exists>token. issue_token secret claim ttl now = Inr token \<and>
     verify_token secret token t =
       (if trunc_seconds (now + ttl) * 1000000 < t
        then Inl (Exn (Auth TokenExpired) ''token has expired'') else Inr claim)"
proof -
  let ?p = "b64_encode (enc '','' '':'' (PDict [(''email'', PStr (vc_email claim)),
    (''user_id'', PStr (vc_user_id claim))]))"
  let ?e = "b64_encode (str_of_int (trunc_seconds (now + ttl)))"
  have "str_split CHR ''.'' (?p @ ''.'' @ ?e @ ''.'' @ token_mac secret ?p ?e) =
      [?p, ?e, token_mac secret ?p ?e]"
    by (rule split_token) (simp_all add: token_mac_def)
  then show ?thesis
    using open_issued_token [OF assms refl, of claim t]
    by (simp add: issue_token_eq Let_def verify_token_eq del: enc.simps)
qed

theorem token_round_trip_witness:
  "\<exists>token. issue_token ''key'' \<lparr>vc_user_id = ''u1'', vc_email = ''a@x.org''\<rparr> DEFAULT_EMAIL_TOKEN_TTL 0
       = Inr token \<and>
     verify_token ''key'' token 86400000000 = Inr \<lparr>vc_user_id = ''u1'', vc_email = ''a@x.org''\<rparr>"
proof -
  have "trunc_seconds (0 + DEFAULT_EMAIL_TOKEN_TTL) = 86400"
    by (simp add: trunc_seconds_def DEFAULT_EMAIL_TOKEN_TTL_def)
  then show ?thesis
    using token_round_trip [of 0 DEFAULT_EMAIL_TOKEN_TTL "''key''"
        "\<lparr>vc_user_id = ''u1'', vc_email = ''a@x.org''\<rparr>" 86400000000]
    by simp
qed

text \<open>
  C6: a claim is believed only under the signature: whenever \<open>verify\<close> returns a claim, or even says
  that the token has expired, the token is three segments whose third is exactly the HMAC the secret
  gives for the first two, and the claim is the signed payload's, not yet expired by the signed
  expiry; so the expiry of a forged token is never looked at.
\<close>

theorem token_accepted_only_if_signed:
  assumes "verify_token secret token now = r" and "\<not> isl r \<or> raises r (Auth TokenExpired)"
  shows "\<exists>p e ts payload. token = p @ ''.'' @ e @ ''.'' @ b64_encode (hmac_sha256 secret (p @ ''.'' @ e)) \<and>
     token_parts p e = Inr (ts, payload) \<and>
     r = (if ts * 1000000 < now then Inl (Exn (Auth TokenExpired) ''token has expired'')
          else claim_of payload)"
proof -
  from assms have ok: "\<not> isl (verify_token secret token now) \<or>
      raises (verify_token secret token now) (Auth TokenExpired)" by simp
  then obtain p e s where split: "str_split CHR ''.'' token = [p, e, s]"
    by (auto simp: verify_token_eq token_invalid_def split: list.splits)
  with ok have mac: "s = token_mac secret p e" and opened: "verify_token secret token now = open_token p e now"
    by (auto simp: verify_token_eq token_invalid_def split: if_splits)
  from ok opened obtain ts payload where parts: "token_parts p e = Inr (ts, payload)"
    using token_parts_errors [of p e]
    by (cases "token_parts p e")
       (auto simp: open_token_def token_invalid_def decode_errors_def raises_def split: if_splits)
  have "token = str_join ''.'' [p, e, s]" using str_join_split [of "CHR ''.''" token] split by simp
  moreover have "r = open_token p e now" using opened assms(1) by simp
  ultimately show ?thesis
    using mac parts
    by (intro exI [of _ p] exI [of _ e] exI [of _ ts] exI [of _ payload])
       (simp add: token_mac_def open_token_def)
qed


theorem token_accepted_only_if_signed_witness:
  "\<exists>p e ts payload. token_parts p e = Inr (ts, payload) \<and>
     Inr \<lparr>vc_user_id = ''u1'', vc_email = ''a@x.org''\<rparr> =
       (if ts * 1000000 < 5 then Inl (Exn (Auth TokenExpired) ''token has expired'')
        else claim_of payload)"
proof -
  let ?c = "\<lparr>vc_user_id = ''u1'', vc_email = ''a@x.org''\<rparr>"
  let ?p = "b64_encode (enc '','' '':'' (PDict [(''email'', PStr (vc_email ?c)),
    (''user_id'', PStr (vc_user_id ?c))]))"
  let ?e = "b64_encode (str_of_int 1)"
  have "str_split CHR ''.'' (?p @ ''.'' @ ?e @ ''.'' @ token_mac ''key'' ?p ?e) =
      [?p, ?e, token_mac ''key'' ?p ?e]"
    by (rule split_token) (simp_all add: token_mac_def)
  then have ver: "verify_token ''key'' (?p @ ''.'' @ ?e @ ''.'' @ token_mac ''key'' ?p ?e) 5 = Inr ?c"
    using open_issued_token [of 1 "PDict [(''email'', PStr (vc_email ?c)), (''user_id'', PStr (vc_user_id ?c))]"
        ?c 5]
    by (simp add: verify_token_eq del: enc.simps)
  have "\<not> isl (Inr ?c :: exn + verification_claim) \<or>
      raises (Inr ?c :: exn + verification_claim) (Auth TokenExpired)" by simp
  from token_accepted_only_if_signed [OF ver this] show ?thesis by blast
qed

text \<open>
  C37: on an ASCII token verification ends, whatever the token, in a claim or in one of the two
  documented exceptions; but a character outside ASCII in one of the first two segments of a
  three-segment token escapes as \<open>UnicodeEncodeError\<close>, and one in the signature alone as
  \<open>TypeError\<close>, neither of them a \<open>TokenInvalid\<close>.
\<close>

theorem verify_token_errors:
  "(is_ascii token \<longrightarrow> (case verify_token secret token now of
      Inr c \<Rightarrow> True
    | Inl e \<Rightarrow> exn_class e \<in> {Auth TokenInvalid, Auth TokenExpired, Other OutsideFragment})) \<and>
   (str_split CHR ''.'' token = [p, e, s] \<longrightarrow>
      (\<not> (is_ascii p \<and> is_ascii e) \<longrightarrow> raises (verify_token secret token now) (Other UnicodeEncodeError)) \<and>
      (is_ascii p \<and> is_ascii e \<and> \<not> is_ascii s \<longrightarrow> raises (verify_token secret token now) (Other TypeError)))"
proof -
  have "raises_only {Auth TokenInvalid, Auth TokenExpired, Other OutsideFragment}
      (verify_token secret token now)" if ascii: "is_ascii token"
  proof (cases "\<exists>p e s. str_split CHR ''.'' token = [p, e, s]")
    case True
    then obtain p e s where split: "str_split CHR ''.'' token = [p, e, s]" by blast
    then have "is_ascii (str_join ''.'' [p, e, s])"
      using ascii str_join_split [of "CHR ''.''" token] by simp
    then have "is_ascii p \<and> is_ascii e \<and> is_ascii s" by simp
    with split open_token_errors [of p e now] show ?thesis
      by (simp add: verify_token_eq token_invalid_def)
  next
    case False
    then show ?thesis by (auto simp: verify_token_eq token_invalid_def split: list.split)
  qed
  then show ?thesis
    by (auto simp: verify_token_eq raises_only_def split: sum.splits)
qed

theorem verify_token_errors_witness:
  "raises (verify_token ''key'' [CHR 0xE9, CHR ''.'', CHR ''x'', CHR ''.'', CHR ''y''] 0) (Other UnicodeEncodeError) \<and>
   raises (verify_token ''key'' [CHR ''a'', CHR ''.'', CHR ''x'', CHR ''.'', CHR 0xE9] 0) (Other TypeError)"
proof -
  have "str_split CHR ''.'' [CHR 0xE9, CHR ''.'', CHR ''x'', CHR ''.'', CHR ''y''] = [[CHR 0xE9], ''x'', ''y'']"
      "str_split CHR ''.'' [CHR ''a'', CHR ''.'', CHR ''x'', CHR ''.'', CHR 0xE9] = [''a'', ''x'', [CHR 0xE9]]"
    by simp_all
  moreover have "\<not> is_ascii [CHR 0xE9]" "is_ascii ''x''" "is_ascii ''a''"
    by (simp_all add: code_def)
  ultimately show ?thesis
    using verify_token_errors [where secret = "''key''" and now = 0 and p = "[CHR 0xE9]" and e = "''x''"
        and s = "''y''" and token = "[CHR 0xE9, CHR ''.'', CHR ''x'', CHR ''.'', CHR ''y'']"]
      verify_token_errors [where secret = "''key''" and now = 0 and p = "''a''" and e = "''x''"
        and s = "[CHR 0xE9]" and token = "[CHR ''a'', CHR ''.'', CHR ''x'', CHR ''.'', CHR 0xE9]"]
    by blast
qed

end
