(* ===== verification/Idempotency.thy ===== *)
theory Idempotency
  imports Sha256 "HOL-Library.Multiset"
begin

section \<open>Idempotency keys\<close>

text \<open>
  \<^verbatim>\<open>event-bus-sdk/trustlist_event_bus/idempotency.py\<close>: the canonical JSON rendering and the
  key derived from it.  \<open>default=str\<close> renders a value \<open>json\<close> does not know (\<open>PObj\<close>) as
  its \<open>str()\<close>, so rendering raises for nothing but an integer of more than 4300 digits.
\<close>

fun digits_ok :: "pyval \<Rightarrow> bool" where
  "digits_ok (PInt i) = (length (str_of_nat (nat \<bar>i\<bar>)) \<le> 4300)"
| "digits_ok (PList vs) = list_all digits_ok vs"
| "digits_ok (PDict kvs) = list_all (\<lambda>(k, v). digits_ok v) kvs"
| "digits_ok _ = True"

definition canonical_json :: "pyval \<Rightarrow> string" where
  "canonical_json v = enc '','' '':'' (sort_keys v)"

definition key_document :: "string \<Rightarrow> (string, pyval) dict \<Rightarrow> string list \<Rightarrow> pyval" where
  "key_document event_type payload key_fields =
     PDict [(''event_type'', PStr event_type),
            (''key_fields'', PDict (dict_of (map (\<lambda>n. (n, the (map_of payload n))) key_fields)))]"

definition derive_idempotency_key ::
  "string \<Rightarrow> (string, pyval) dict \<Rightarrow> string list \<Rightarrow> exn + string" where
  "derive_idempotency_key event_type payload key_fields =
     (if key_fields = []
      then Inl (value_error (''key_fields must name at least one payload field; an event with '' @
             ''no idempotency-defining fields cannot be deduplicated (PRD '' @ [CHR 0xA7] @ ''7b).''))
      else let missing = filter (\<lambda>n. n \<notin> fst ` set payload) key_fields
        in if missing \<noteq> []
           then Inl (value_error (''key_fields names payload field(s) not present in the payload: '' @
                  str_join '', '' (sort missing) @ ''.''))
           else if \<not> digits_ok (key_document event_type payload key_fields)
           then Inl (value_error ''Exceeds the limit (4300 digits) for integer string conversion; use sys.set_int_max_str_digits() to increase the limit'')
           else Inr (hexdigest (sha256 (utf8_encode
                  (canonical_json (key_document event_type payload key_fields))))))"

subsection \<open>Equal as data\<close>

text \<open>
  Two values are equal as data when they differ at most in the insertion order of their
  dictionaries, at any depth.
\<close>

inductive data_eq :: "pyval \<Rightarrow> pyval \<Rightarrow> bool" where
  atom: "(\<And>vs. v \<noteq> PList vs) \<Longrightarrow> (\<And>kvs. v \<noteq> PDict kvs) \<Longrightarrow> data_eq v v"
| seq: "list_all2 data_eq vs ws \<Longrightarrow> data_eq (PList vs) (PList ws)"
| dct: "distinct (map fst xs) \<Longrightarrow> distinct (map fst ys) \<Longrightarrow> fst ` set xs = fst ` set ys \<Longrightarrow>
    (\<forall>k v w. (k, v) \<in> set xs \<longrightarrow> (k, w) \<in> set ys \<longrightarrow> data_eq v w) \<Longrightarrow>
    data_eq (PDict xs) (PDict ys)"

inductive_simps data_eq_PDict: "data_eq (PDict xs) (PDict ys)"

lemma sort_key_fst_unique:
  assumes "distinct (map fst xs)" and "distinct (map fst ys)" and "set xs = set ys"
  shows "sort_key fst xs = sort_key fst (ys :: ('a :: linorder \<times> 'b) list)"
proof -
  have "distinct xs" "distinct ys" using assms(1,2) by (simp_all add: distinct_map)
  with assms(3) have "mset xs = mset (sort_key fst ys)" by (simp add: set_eq_iff_mset_eq_distinct)
  moreover have "inj_on fst (set xs)" using assms(1) by (simp add: distinct_map)
  ultimately show ?thesis by (rule sort_key_inj_key_eq) simp
qed

text \<open>The members of a dictionary after their own keys have been sorted.\<close>

definition sorted_members :: "(string \<times> pyval) list \<Rightarrow> (string \<times> pyval) list" where
  "sorted_members kvs = map (\<lambda>(k, v). (k, sort_keys v)) kvs"

lemma sorted_members_keys [simp]: "map fst (sorted_members kvs) = map fst kvs"
  by (induction kvs) (auto simp: sorted_members_def)

lemma in_sorted_members: "(k, w) \<in> set (sorted_members kvs) \<longleftrightarrow> (\<exists>v. (k, v) \<in> set kvs \<and> w = sort_keys v)"
  by (force simp: sorted_members_def image_iff)

lemma key_iff: "(\<exists>v. (k, v) \<in> set xs) \<longleftrightarrow> k \<in> fst ` set xs"
  by force

lemma sort_keys_dict: "sort_keys (PDict kvs) = PDict (sort_key fst (sorted_members kvs))"
  by (simp add: sorted_members_def)

lemma digits_ok_data_eq: "data_eq v w \<Longrightarrow> digits_ok v = digits_ok w"
proof (induction rule: data_eq.induct)
  case (seq vs ws)
  then show ?case by (auto simp: list_all2_conv_all_nth list_all_length)
next
  case (dct xs ys)
  have dom: "(\<exists>v. (k, v) \<in> set xs) \<longleftrightarrow> (\<exists>v. (k, v) \<in> set ys)" for k
    using dct.hyps(3) by (simp add: key_iff)
  have same: "digits_ok v = digits_ok w" if "(k, v) \<in> set xs" "(k, w) \<in> set ys" for k v w
    using dct.IH that by blast
  have "(\<forall>k v. (k, v) \<in> set xs \<longrightarrow> digits_ok v) \<longleftrightarrow> (\<forall>k w. (k, w) \<in> set ys \<longrightarrow> digits_ok w)"
    using dom same by metis
  then show ?case by (simp add: list_all_iff Ball_def)
qed simp

lemma data_eq_sort_keys: "data_eq v w \<Longrightarrow> sort_keys v = sort_keys w"
proof (induction rule: data_eq.induct)
  case (seq vs ws)
  then show ?case by (auto simp: list_all2_conv_all_nth intro: nth_equalityI)
next
  case (dct xs ys)
  have "(k, u) \<in> set (sorted_members xs) \<longleftrightarrow> (k, u) \<in> set (sorted_members ys)" for k u
  proof -
    have "(\<exists>v. (k, v) \<in> set xs) \<longleftrightarrow> (\<exists>v. (k, v) \<in> set ys)"
      using dct.hyps(3) by (simp add: key_iff)
    with dct.IH show ?thesis unfolding in_sorted_members by metis
  qed
  then have "set (sorted_members xs) = set (sorted_members ys)" by auto
  with dct.hyps(1,2) show ?case
    by (simp only: sort_keys_dict) (intro arg_cong [of _ _ PDict] sort_key_fst_unique; simp)
qed simp

lemma sort_keys_data_eq:
  "wf_val v \<Longrightarrow> wf_val w \<Longrightarrow> sort_keys v = sort_keys w \<Longrightarrow> data_eq v w"
proof (induction v arbitrary: w)
  case (PList vs)
  from PList.prems obtain ws where w: "w = PList ws" by (cases w) auto
  with PList.prems have eq: "map sort_keys vs = map sort_keys ws" by simp
  then have "length vs = length ws" by (metis length_map)
  moreover have "data_eq (vs ! i) (ws ! i)" if "i < length vs" for i
    using PList that w eq \<open>length vs = length ws\<close>
    by (auto simp: list_all_length list_eq_iff_nth_eq)
  ultimately have "list_all2 data_eq vs ws" by (simp add: list_all2_conv_all_nth)
  with w show ?case by (simp add: data_eq.seq)
next
  case (PDict xs)
  from PDict.prems obtain ys where w: "w = PDict ys" by (cases w) auto
  from PDict.prems w have eq: "sort_key fst (sorted_members xs) = sort_key fst (sorted_members ys)"
    by (simp only: sort_keys_dict) simp
  then have set: "set (sorted_members xs) = set (sorted_members ys)" by (metis set_sort)
  then have "fst ` set (sorted_members xs) = fst ` set (sorted_members ys)" by simp
  then have dom: "fst ` set xs = fst ` set ys" by (metis sorted_members_keys set_map)
  have "data_eq v u" if v: "(k, v) \<in> set xs" and u: "(k, u) \<in> set ys" for k v u
  proof -
    have "(k, sort_keys v) \<in> set (sorted_members xs)"
      using v by (auto simp: in_sorted_members)
    then have "(k, sort_keys v) \<in> set (sorted_members ys)" by (simp only: set)
    then obtain u' where "(k, u') \<in> set ys" "sort_keys v = sort_keys u'"
      by (auto simp: in_sorted_members)
    with u PDict.prems(2) w have "sort_keys v = sort_keys u" by (auto dest: eq_key_imp_eq_value)
    moreover have "wf_val v" "wf_val u"
      using v u PDict.prems w by (auto simp: list_all_iff)
    ultimately show ?thesis using PDict.IH [OF v, of v u] by simp
  qed
  with dom PDict.prems w show ?case by (auto intro!: data_eq.dct)
qed (case_tac w; auto intro: data_eq.intros)+


lemma sort_keys_jsonable [simp]: "jsonable (sort_keys v) = jsonable v"
  by (induction v) (auto simp: list_all_iff)

lemma distinct_sort_key: "distinct (map fst zs) \<Longrightarrow> distinct (map fst (sort_key fst zs))"
  by (simp add: distinct_map)

lemma sort_keys_wf: "wf_val v \<Longrightarrow> wf_val (sort_keys v)"
proof (induction v)
  case (PDict kvs)
  then have "distinct (map fst (sorted_members kvs))" by simp
  then have "distinct (map fst (sort_key fst (sorted_members kvs)))"
    by (rule distinct_sort_key)
  moreover have "wf_val w" if "(k, w) \<in> set (sorted_members kvs)" for k w
    using that PDict by (fastforce simp: in_sorted_members list_all_iff)
  ultimately show ?case by (auto simp: sort_keys_dict list_all_iff simp del: sort_keys.simps)
qed (auto simp: list_all_iff)

text \<open>The rendering decides equality as data.\<close>

lemma canonical_json_eq_iff:
  assumes "wf_val v" and "wf_val w" and "jsonable v" and "jsonable w"
  shows "canonical_json v = canonical_json w \<longleftrightarrow> data_eq v w"
proof
  assume "canonical_json v = canonical_json w"
  then have "Inr (sort_keys v) = (Inr (sort_keys w) :: exn + pyval)"
    using assms by (metis canonical_json_def json_loads_enc seps(3,4) sort_keys_jsonable sort_keys_wf)
  with assms show "data_eq v w" by (simp add: sort_keys_data_eq)
qed (simp add: canonical_json_def data_eq_sort_keys)

lemma utf8_canonical [simp]: "utf8_encode (canonical_json v) = canonical_json v"
  unfolding canonical_json_def
  by (intro utf8_encode_ascii printable_is_ascii printable_enc printable_words)

subsection \<open>The key document\<close>

lemma selected_member:
  "(k, v) \<in> set (dict_of (map (\<lambda>n. (n, g n)) fs)) \<longleftrightarrow> k \<in> set fs \<and> v = g k"
proof -
  have "map_of (rev (map (\<lambda>n. (n, g n)) fs)) k = (if k \<in> set fs then Some (g k) else None)"
    by (simp add: rev_map map_of_map_restrict restrict_map_def)
  moreover have "distinct (map fst (dict_of (map (\<lambda>n. (n, g n)) fs)))"
    using wf_dict_of by (simp add: wf_dict_def)
  ultimately show ?thesis
    by (simp add: map_of_eq_Some_iff [symmetric] map_of_dict_of split: if_splits) blast
qed

lemma distinct_selected: "distinct (map fst (dict_of xs))"
  using wf_dict_of by (simp add: wf_dict_def)

lemma present_member: "n \<in> fst ` set p \<Longrightarrow> (n, the (map_of p n)) \<in> set p"
  by (metis domIff dom_map_of_conv_image_fst map_of_SomeD option.collapse)

lemma data_eq_refl [simp]: "data_eq (PStr s) (PStr s)"
  by (rule data_eq.atom) simp_all

lemma data_eq_PStr_iff [simp]: "data_eq (PStr s) (PStr t) \<longleftrightarrow> s = t"
  by (auto elim: data_eq.cases)

lemma key_document_data_eq_iff:
  "data_eq (key_document et p fs) (key_document et' q gs) \<longleftrightarrow>
     et = et' \<and> set fs = set gs \<and> (\<forall>n \<in> set fs. data_eq (the (map_of p n)) (the (map_of q n)))"
  (is "_ \<longleftrightarrow> ?R")
proof -
  let ?d = "\<lambda>p fs. dict_of (map (\<lambda>n. (n, the (map_of p n))) fs)"
  have inner: "data_eq (PDict (?d p fs)) (PDict (?d q gs)) \<longleftrightarrow>
      set fs = set gs \<and> (\<forall>n \<in> set fs. data_eq (the (map_of p n)) (the (map_of q n)))"
    (is "?l \<longleftrightarrow> ?r")
  proof
    assume ?l
    then have "fst ` set (?d p fs) = fst ` set (?d q gs)"
        and "\<forall>k v w. (k, v) \<in> set (?d p fs) \<longrightarrow> (k, w) \<in> set (?d q gs) \<longrightarrow> data_eq v w"
      unfolding data_eq_PDict by blast+
    moreover from this(1) have "set fs = set gs" by (simp add: image_image)
    ultimately show ?r by (simp add: selected_member)
  next
    assume ?r
    then show ?l
      by (intro data_eq.dct) (simp_all add: selected_member distinct_selected image_image)
  qed
  show ?thesis
    unfolding key_document_def inner [symmetric] data_eq_PDict [of "[_, _]"] by auto
qed

lemma key_document_wf:
  assumes "wf_val (PDict p)" and "jsonable (PDict p)" and "set fs \<subseteq> fst ` set p"
  shows "wf_val (key_document et p fs)" and "jsonable (key_document et p fs)"
  using assms present_member [of _ p]
  by (auto simp: key_document_def list_all_iff selected_member distinct_selected dest!: subsetD)

lemma digits_ok_document:
  "digits_ok (key_document et p fs) \<longleftrightarrow> (\<forall>n \<in> set fs. digits_ok (the (map_of p n)))"
  by (auto simp: key_document_def list_all_iff selected_member)

lemma derive_Inr:
  "derive_idempotency_key et p fs = Inr k \<longleftrightarrow>
     fs \<noteq> [] \<and> set fs \<subseteq> fst ` set p \<and> (\<forall>n \<in> set fs. digits_ok (the (map_of p n))) \<and>
     k = hexdigest (sha256 (canonical_json (key_document et p fs)))"
  by (auto simp: derive_idempotency_key_def Let_def filter_empty_conv digits_ok_document)

lemma hex_digits: "n < 16 \<Longrightarrow> hex_digit n \<in> set ''0123456789abcdef''"
proof -
  have "list_all (\<lambda>n. hex_digit n \<in> set ''0123456789abcdef'') [0..<16]" by code_simp
  then show "n < 16 \<Longrightarrow> ?thesis" unfolding list_all_iff by (metis atLeastLessThan_iff le0 set_upt)
qed

lemma hexdigest_chars: "set (hexdigest bs) \<subseteq> set ''0123456789abcdef''"
proof -
  define S where "S = set ''0123456789abcdef''"
  have hex: "hex_digit n \<in> S" if "n < 16" for n
    using hex_digits [OF that] by (simp only: S_def)
  have "code b div 16 < 16" for b by (simp add: less_mult_imp_div_less)
  with hex have "set (hexdigest bs) \<subseteq> S" by (auto simp: hexdigest_def)
  then show ?thesis by (simp only: S_def)
qed

lemma derive_data_eq:
  assumes payload: "data_eq (PDict p) (PDict q)" and fields: "mset fs = mset gs"
  shows "derive_idempotency_key et p fs = derive_idempotency_key et q gs"
proof -
  from payload have keys: "fst ` set p = fst ` set q"
      and same: "\<And>k v w. (k, v) \<in> set p \<Longrightarrow> (k, w) \<in> set q \<Longrightarrow> data_eq v w"
    unfolding data_eq_PDict by blast+
  from fields have set: "set fs = set gs" and nil: "fs = [] \<longleftrightarrow> gs = []"
    by (metis mset_eq_setD, metis mset_zero_iff)
  let ?m = "\<lambda>p. filter (\<lambda>n. n \<notin> fst ` set p)"
  from fields keys have "mset (?m p fs) = mset (?m q gs)" by simp
  then have sorted: "sort (?m p fs) = sort (?m q gs)" and miss: "?m p fs = [] \<longleftrightarrow> ?m q gs = []"
    by (metis mset_sort properties_for_sort sorted_sort, metis mset_zero_iff)
  have document: "canonical_json (key_document et p fs) = canonical_json (key_document et q gs) \<and>
      digits_ok (key_document et p fs) = digits_ok (key_document et q gs)"
    if "?m p fs = []"
  proof -
    have "set fs \<subseteq> fst ` set p" using that by (auto simp: filter_empty_conv)
    then have "data_eq (the (map_of p n)) (the (map_of q n))" if "n \<in> set fs" for n
      using that keys by (intro same [of n] present_member) auto
    then have "data_eq (key_document et p fs) (key_document et q gs)"
      by (simp add: key_document_data_eq_iff set)
    then show ?thesis by (simp only: canonical_json_def data_eq_sort_keys digits_ok_data_eq)
  qed
  show ?thesis
  proof (cases "?m p fs = []")
    case True
    with nil miss document show ?thesis by (simp add: derive_idempotency_key_def Let_def)
  next
    case False
    with nil miss sorted show ?thesis by (simp add: derive_idempotency_key_def Let_def)
  qed
qed

subsection \<open>Properties\<close>

text \<open>
  The key depends on the data only: two payloads that differ at most in the insertion
  order of their dictionaries, at any depth, with the key fields named in any order, give the
  same outcome, be it the key or the same refusal.
\<close>

theorem key_depends_only_on_data:
  assumes "data_eq (PDict p) (PDict q)" and "mset fs = mset gs"
  shows "derive_idempotency_key et p fs = derive_idempotency_key et q gs"
  by (rule derive_data_eq [OF assms])

theorem key_depends_only_on_data_witness:
  "derive_idempotency_key ''e'' [(''a'', PInt 1), (''b'', PDict [(''x'', PNone), (''y'', PBool True)])] [''b'', ''a'']
   = derive_idempotency_key ''e'' [(''b'', PDict [(''y'', PBool True), (''x'', PNone)]), (''a'', PInt 1)] [''a'', ''b'']"
  by (rule key_depends_only_on_data) (auto intro!: data_eq.intros)

text \<open>
  C17: the key identifies the event: barring a SHA-256 collision between the two key documents
  themselves, two derived keys agree exactly when the event types agree, the same fields were
  named and each of them holds the same data; a key is 64 lowercase hexadecimal digits.
\<close>

theorem key_identifies_event:
  assumes "derive_idempotency_key et p fs = Inr k" and "derive_idempotency_key et' q gs = Inr l"
    and "wf_val (PDict p)" and "wf_val (PDict q)" and "jsonable (PDict p)" and "jsonable (PDict q)"
    and no_collision: "sha256 (canonical_json (key_document et p fs)) = sha256 (canonical_json (key_document et' q gs))
      \<Longrightarrow> canonical_json (key_document et p fs) = canonical_json (key_document et' q gs)"
  shows "(k = l \<longleftrightarrow> et = et' \<and> set fs = set gs \<and>
            (\<forall>n \<in> set fs. data_eq (the (map_of p n)) (the (map_of q n)))) \<and>
         length k = 64 \<and> set k \<subseteq> set ''0123456789abcdef''"
proof -
  from assms(1,2) have sub: "set fs \<subseteq> fst ` set p" "set gs \<subseteq> fst ` set q"
      and k: "k = hexdigest (sha256 (canonical_json (key_document et p fs)))"
      and l: "l = hexdigest (sha256 (canonical_json (key_document et' q gs)))"
    by (simp_all add: derive_Inr)
  have "k = l \<longleftrightarrow> data_eq (key_document et p fs) (key_document et' q gs)"
    unfolding k l using sub assms(3-6) no_collision
    by (metis canonical_json_eq_iff hexdigest_inject key_document_wf)
  moreover have "length k = 64" by (simp add: k)
  moreover have "set k \<subseteq> set ''0123456789abcdef''" unfolding k by (rule hexdigest_chars)
  ultimately show ?thesis unfolding key_document_data_eq_iff by blast
qed

theorem key_identifies_event_witness:
  "\<exists>k l. derive_idempotency_key ''e'' [(''a'', PInt 1), (''b'', PNone)] [''b'', ''a''] = Inr k \<and>
     derive_idempotency_key ''e'' [(''b'', PNone), (''a'', PInt 1), (''c'', PNone)] [''a'', ''b'', ''a''] = Inr l \<and>
     k = l \<and> length k = 64"
proof -
  let ?p = "[(''a'', PInt 1), (''b'', PNone)]"
  let ?q = "[(''b'', PNone), (''a'', PInt 1), (''c'', PNone)]"
  let ?fs = "[''b'', ''a'']" and ?gs = "[''a'', ''b'', ''a'']"
  obtain k l where k: "derive_idempotency_key ''e'' ?p ?fs = Inr k"
      and l: "derive_idempotency_key ''e'' ?q ?gs = Inr l"
    by (simp add: derive_Inr str_of_nat.simps)
  have "data_eq (key_document ''e'' ?p ?fs) (key_document ''e'' ?q ?gs)"
    by (auto simp: key_document_data_eq_iff intro: data_eq.atom)
  then have texts: "canonical_json (key_document ''e'' ?p ?fs) = canonical_json (key_document ''e'' ?q ?gs)"
    by (simp add: canonical_json_def data_eq_sort_keys)
  have "data_eq (PInt 1) (PInt 1)" "data_eq PNone PNone" by (simp_all add: data_eq.atom)
  with key_identifies_event [OF k l] texts k l show ?thesis
    by (auto simp: str_of_nat.simps)
qed

end
