(* ===== verification/Wire_Text.thy ===== *)
theory Wire_Text
  imports Codec "HOL-Library.Word" "HOL-Library.Monad_Syntax"
begin

section \<open>Identifiers and timestamps as text\<close>

text \<open>
  What \<^verbatim>\<open>event-bus-sdk/trustlist_event_bus/envelope.py\<close> uses of \<open>uuid.UUID\<close> and of
  \<open>datetime.isoformat\<close> and \<open>datetime.fromisoformat\<close>.  A UUID is its 128-bit integer; a
  \<open>datetime\<close> is its fields and, when it is aware, its UTC offset in microseconds.  Reading is
  exact on the layout \<open>isoformat\<close> writes, with any number of fraction digits and \<open>Z\<close>; the
  other ISO 8601 layouts are \<open>OutsideFragment\<close>.
\<close>

subsection \<open>Fixed-width numerals\<close>

fun pad_base :: "(nat \<Rightarrow> char) \<Rightarrow> nat \<Rightarrow> nat \<Rightarrow> nat \<Rightarrow> string" where
  "pad_base f b 0 n = []"
| "pad_base f b (Suc k) n = pad_base f b k (n div b) @ [f (n mod b)]"

abbreviation pad_dec :: "nat \<Rightarrow> nat \<Rightarrow> string" where
  "pad_dec \<equiv> pad_base digit_char 10"

abbreviation pad_hex :: "nat \<Rightarrow> nat \<Rightarrow> string" where
  "pad_hex \<equiv> pad_base hex_digit 16"

lemma length_pad_base [simp]: "length (pad_base f b k n) = k"
  by (induction k arbitrary: n) simp_all

lemma pad_base_digits:
  "0 < b \<Longrightarrow> (\<And>d. d < b \<Longrightarrow> P (f d)) \<Longrightarrow> list_all P (pad_base f b k n)"
  by (induction k arbitrary: n) (simp_all add: list_all_iff)

lemma pad_base_value:
  "n < b ^ k \<Longrightarrow> (\<And>d. d < b \<Longrightarrow> g (f d) = d) \<Longrightarrow>
     foldl (\<lambda>v c. b * v + g c) 0 (pad_base f b k n) = n"
proof (induction k arbitrary: n)
  case 0
  then show ?case by simp
next
  case (Suc k)
  then have "0 < b" by (cases b) simp_all
  with Suc.prems(1) have "n div b < b ^ k" by (simp add: less_mult_imp_div_less mult.commute)
  with Suc \<open>0 < b\<close> show ?case by simp
qed

lemma pad_dec_value [simp]: "n < 10 ^ k \<Longrightarrow> nat_of_digits (pad_dec k n) = n"
  unfolding nat_of_digits_def by (rule pad_base_value) simp_all

lemma pad_dec_digits [simp]: "list_all ascii_digit (pad_dec k n)"
  by (rule pad_base_digits) simp_all

subsection \<open>UUIDs\<close>

definition uuid_str :: "128 word \<Rightarrow> string" where
  "uuid_str u =
     (let h = pad_hex 32 (unat u)
      in take 8 h @ ''-'' @ take 4 (drop 8 h) @ ''-'' @ take 4 (drop 12 h) @ ''-'' @
         take 4 (drop 16 h) @ ''-'' @ drop 20 h)"

text \<open>\<open>s.replace(p, '')\<close> for a non-empty \<open>p\<close>.\<close>

fun remove_all :: "string \<Rightarrow> string \<Rightarrow> string" where
  "remove_all p [] = []"
| "remove_all p (c # s) =
     (if is_prefix p (c # s) then remove_all p (drop (length p - 1) s) else c # remove_all p s)"

definition strip_chars :: "string \<Rightarrow> string \<Rightarrow> string" where
  "strip_chars cs s = rev (dropWhile (\<lambda>c. c \<in> set cs) (rev (dropWhile (\<lambda>c. c \<in> set cs) s)))"

text \<open>
  \<open>int(h, 16)\<close> also takes blanks, a sign, underscores and a \<open>0x\<close> prefix, which are left out; any
  other character that is no hexadecimal digit is a \<open>ValueError\<close>.
\<close>

definition parse_hex :: "string \<Rightarrow> exn + nat" where
  "parse_hex h =
     (if list_all (\<lambda>c. hex_value c \<noteq> None) h
      then Inr (foldl (\<lambda>v c. 16 * v + the (hex_value c)) 0 h)
      else if list_ex (\<lambda>c. hex_value c = None \<and> \<not> is_space c \<and> c \<notin> set ''+_xX'') h
      then Inl (value_error ''invalid literal for int() with base 16'')
      else Inl outside)"

definition parse_uuid :: "string \<Rightarrow> exn + 128 word" where
  "parse_uuid s =
     (let h = str_remove_char CHR ''-'' (strip_chars [CHR 0x7B, CHR 0x7D]
                (remove_all ''uuid:'' (remove_all ''urn:'' s)))
      in if length h \<noteq> 32 then Inl (value_error ''badly formed hexadecimal UUID string'')
         else bindE (parse_hex h) (\<lambda>n. Inr (of_nat n)))"

lemma remove_all_absent: "p \<noteq> [] \<Longrightarrow> hd p \<notin> set s \<Longrightarrow> remove_all p s = s"
  by (induction s) (auto simp: is_prefix_def take_Cons' hd_conv_nth neq_Nil_conv)

lemma strip_chars_absent: "(\<And>c. c \<in> set s \<Longrightarrow> c \<notin> set cs) \<Longrightarrow> strip_chars cs s = s"
proof -
  assume absent: "\<And>c. c \<in> set s \<Longrightarrow> c \<notin> set cs"
  have keep: "dropWhile (\<lambda>c. c \<in> set cs) t = t" if "set t \<subseteq> set s" for t
    using that absent by (cases t) auto
  show ?thesis by (simp add: strip_chars_def keep)
qed

lemma hex_value_punct [simp]:
  "hex_value (CHR ''-'') = None" "hex_value (CHR ''u'') = None"
  "hex_value CHR 0x7B = None" "hex_value CHR 0x7D = None"
  by code_simp+

lemma pad_hex_value: "c \<in> set (pad_hex k n) \<Longrightarrow> hex_value c \<noteq> None"
  using pad_base_digits [of 16 "\<lambda>c. hex_value c \<noteq> None" hex_digit k n]
  unfolding list_all_iff by simp

lemma pad_hex_absent: "hex_value c = None \<Longrightarrow> c \<notin> set (pad_hex k n)"
  using pad_hex_value by blast

lemma split_pieces: "take 8 h @ take 4 (drop 8 h) @ take 4 (drop 12 h) @ take 4 (drop 16 h) @ drop 20 h = h"
proof -
  have "drop 8 h = take 4 (drop 8 h) @ drop 12 h" "drop 12 h = take 4 (drop 12 h) @ drop 16 h"
      "drop 16 h = take 4 (drop 16 h) @ drop 20 h"
    using append_take_drop_id [of 4 "drop 8 h"] append_take_drop_id [of 4 "drop 12 h"]
      append_take_drop_id [of 4 "drop 16 h"] by simp_all
  then show ?thesis by (metis append_take_drop_id)
qed

lemma set_dashed:
  "set (a @ ''-'' @ b @ ''-'' @ c @ ''-'' @ d @ ''-'' @ e) =
     insert CHR ''-'' (set a \<union> set b \<union> set c \<union> set d \<union> set e)"
  by auto

lemma parse_hex_pad: "n < 16 ^ k \<Longrightarrow> parse_hex (pad_hex k n) = Inr n"
proof -
  assume n: "n < 16 ^ k"
  have "list_all (\<lambda>c. hex_value c \<noteq> None) (pad_hex k n)" by (rule pad_base_digits) auto
  moreover have "foldl (\<lambda>v c. 16 * v + the (hex_value c)) 0 (pad_hex k n) = n"
    by (rule pad_base_value [OF n]) simp
  ultimately show ?thesis by (simp only: parse_hex_def if_True)
qed

lemma uuid_round_trip: "parse_uuid (uuid_str u) = Inr u"
proof -
  define h where "h = pad_hex 32 (unat u)"
  have absent: "c \<notin> set h" if "hex_value c = None" for c
    unfolding h_def by (rule pad_hex_absent [OF that])
  have us: "uuid_str u = take 8 h @ ''-'' @ take 4 (drop 8 h) @ ''-'' @ take 4 (drop 12 h) @ ''-'' @
      take 4 (drop 16 h) @ ''-'' @ drop 20 h"
    by (simp only: uuid_str_def Let_def h_def)
  have part: "set (take i h) \<subseteq> set h" "set (drop i h) \<subseteq> set h" "set (take i (drop j h)) \<subseteq> set h" for i j
    by (rule set_take_subset set_drop_subset order_trans [OF set_take_subset set_drop_subset])+
  have "set (uuid_str u) \<subseteq> insert CHR ''-'' (set h)"
    unfolding us set_dashed by (intro insert_mono Un_least part)
  then have mem: "c \<in> set h" if "c \<in> set (uuid_str u)" "c \<noteq> CHR ''-''" for c
    using that by blast
  have not_in: "c \<notin> set (uuid_str u)" if "hex_value c = None" "c \<noteq> CHR ''-''" for c
    using mem absent that by blast
  have "CHR ''u'' \<notin> set (uuid_str u)" "CHR 0x7B \<notin> set (uuid_str u)" "CHR 0x7D \<notin> set (uuid_str u)"
    by (rule not_in, simp, simp)+
  then have plain: "strip_chars [CHR 0x7B, CHR 0x7D] (remove_all ''uuid:'' (remove_all ''urn:'' (uuid_str u))) = uuid_str u"
    by (subst remove_all_absent, simp, simp, subst remove_all_absent, simp, simp)
      (rule strip_chars_absent, auto)
  have keep: "filter (\<lambda>x. x \<noteq> CHR ''-'') xs = xs" if "set xs \<subseteq> set h" for xs
    using that absent [of "CHR ''-''"] by (auto simp: filter_id_conv)
  have "str_remove_char CHR ''-'' (uuid_str u) =
      take 8 h @ take 4 (drop 8 h) @ take 4 (drop 12 h) @ take 4 (drop 16 h) @ drop 20 h"
    unfolding str_remove_char_def us filter_append by (simp add: keep part)
  then have "str_remove_char CHR ''-'' (uuid_str u) = h" by (simp only: split_pieces)
  moreover have "length h = 32" by (simp add: h_def)
  moreover have "unat u < 16 ^ 32" using unsigned_less [of u, where ?'a = nat] by simp
  then have "parse_hex h = Inr (unat u)" unfolding h_def by (rule parse_hex_pad)
  ultimately show ?thesis by (simp add: parse_uuid_def plain)
qed

subsection \<open>Timestamps\<close>

record py_datetime =
  dt_year :: nat
  dt_month :: nat
  dt_day :: nat
  dt_hour :: nat
  dt_minute :: nat
  dt_second :: nat
  dt_micro :: nat
  dt_offset :: "int option"

definition days_in_month :: "nat \<Rightarrow> nat \<Rightarrow> nat" where
  "days_in_month y m =
     (if m = 2 then (if 4 dvd y \<and> (\<not> 100 dvd y \<or> 400 dvd y) then 29 else 28)
      else if m \<in> {4, 6, 9, 11} then 30 else 31)"

text \<open>What the constructor checks; an offset is strictly within a day.\<close>

definition wf_datetime :: "py_datetime \<Rightarrow> bool" where
  "wf_datetime t \<longleftrightarrow>
     1 \<le> dt_year t \<and> dt_year t \<le> 9999 \<and> 1 \<le> dt_month t \<and> dt_month t \<le> 12 \<and>
     1 \<le> dt_day t \<and> dt_day t \<le> days_in_month (dt_year t) (dt_month t) \<and>
     dt_hour t < 24 \<and> dt_minute t < 60 \<and> dt_second t < 60 \<and> dt_micro t < 1000000 \<and>
     (case dt_offset t of None \<Rightarrow> True | Some z \<Rightarrow> \<bar>z\<bar> < 86400000000)"

definition iso_fraction :: "nat \<Rightarrow> string" where
  "iso_fraction us = (if us = 0 then [] else CHR ''.'' # pad_dec 6 us)"

definition iso_offset :: "int option \<Rightarrow> string" where
  "iso_offset z =
     (case z of
        None \<Rightarrow> []
      | Some o_us \<Rightarrow>
          (let n = nat \<bar>o_us\<bar>; us = n mod 1000000; s = n div 1000000
           in (if o_us < 0 then CHR ''-'' else CHR ''+'') # pad_dec 2 (s div 3600) @ '':'' @
              pad_dec 2 (s div 60 mod 60) @
              (if s mod 60 = 0 \<and> us = 0 then []
               else '':'' @ pad_dec 2 (s mod 60) @ iso_fraction us)))"

definition isoformat :: "py_datetime \<Rightarrow> string" where
  "isoformat t =
     pad_dec 4 (dt_year t) @ ''-'' @ pad_dec 2 (dt_month t) @ ''-'' @ pad_dec 2 (dt_day t) @ ''T'' @
     pad_dec 2 (dt_hour t) @ '':'' @ pad_dec 2 (dt_minute t) @ '':'' @ pad_dec 2 (dt_second t) @
     iso_fraction (dt_micro t) @ iso_offset (dt_offset t)"

definition read_dec :: "nat \<Rightarrow> string \<Rightarrow> (nat \<times> string) option" where
  "read_dec k s =
     (if k \<le> length s \<and> list_all ascii_digit (take k s)
      then Some (nat_of_digits (take k s), drop k s) else None)"

definition expect :: "char \<Rightarrow> string \<Rightarrow> string option" where
  "expect c s = (case s of [] \<Rightarrow> None | d # t \<Rightarrow> if d = c then Some t else None)"

text \<open>Digits after the sixth are dropped.\<close>

definition read_fraction :: "string \<Rightarrow> (nat \<times> string) option" where
  "read_fraction s =
     (case expect CHR ''.'' s of
        None \<Rightarrow> Some (0, s)
      | Some t \<Rightarrow>
          (let ds = takeWhile ascii_digit t
           in if ds = [] then None
              else Some (nat_of_digits (take 6 (ds @ replicate 6 CHR ''0'')), drop (length ds) t)))"

definition read_offset_seconds :: "string \<Rightarrow> (nat \<times> nat) option" where
  "read_offset_seconds s =
     (if s = [] then Some (0, 0)
      else do {
        s \<leftarrow> expect CHR '':'' s;
        (sec, s) \<leftarrow> read_dec 2 s;
        (us, s) \<leftarrow> read_fraction s;
        if s = [] \<and> sec < 60 then Some (sec, us) else None
      })"

definition read_offset :: "string \<Rightarrow> int option option" where
  "read_offset s =
     (if s = [] then Some None
      else if s = ''Z'' then Some (Some 0)
      else if hd s \<notin> {CHR ''+'', CHR ''-''} then None
      else do {
        (h, r) \<leftarrow> read_dec 2 (tl s);
        r \<leftarrow> expect CHR '':'' r;
        (m, r) \<leftarrow> read_dec 2 r;
        (sec, us) \<leftarrow> read_offset_seconds r;
        if m < 60
        then Some (Some ((if hd s = CHR ''-'' then - 1 else 1) *
               int (((h * 60 + m) * 60 + sec) * 1000000 + us)))
        else None
      })"

definition read_datetime :: "string \<Rightarrow> py_datetime option" where
  "read_datetime s = do {
     (y, s) \<leftarrow> read_dec 4 s;
     s \<leftarrow> expect CHR ''-'' s;
     (mo, s) \<leftarrow> read_dec 2 s;
     s \<leftarrow> expect CHR ''-'' s;
     (d, s) \<leftarrow> read_dec 2 s;
     s \<leftarrow> expect CHR ''T'' s;
     (h, s) \<leftarrow> read_dec 2 s;
     s \<leftarrow> expect CHR '':'' s;
     (mi, s) \<leftarrow> read_dec 2 s;
     s \<leftarrow> expect CHR '':'' s;
     (sec, s) \<leftarrow> read_dec 2 s;
     (us, s) \<leftarrow> read_fraction s;
     z \<leftarrow> read_offset s;
     Some \<lparr>dt_year = y, dt_month = mo, dt_day = d, dt_hour = h, dt_minute = mi, dt_second = sec,
           dt_micro = us, dt_offset = z\<rparr>
   }"

text \<open>Hour 24 is midnight for some releases and refused by others.\<close>

definition fromisoformat :: "string \<Rightarrow> exn + py_datetime" where
  "fromisoformat s =
     (case read_datetime s of
        None \<Rightarrow>
          if length s < 7 then Inl (value_error ''Invalid isoformat string'') else Inl outside
      | Some t \<Rightarrow>
          if dt_hour t = 24 then Inl outside
          else if wf_datetime t then Inr t
          else Inl (value_error ''field out of range''))"

lemma read_dec_pad [simp]: "n < 10 ^ k \<Longrightarrow> read_dec k (pad_dec k n @ s) = Some (n, s)"
  by (simp add: read_dec_def)

lemma expect_simps [simp]: "expect c (c # s) = Some s" "expect c [] = None" "c \<noteq> d \<Longrightarrow> expect c (d # s) = None"
  by (simp_all add: expect_def)

definition no_fraction :: "string \<Rightarrow> bool" where
  "no_fraction s \<longleftrightarrow> s = [] \<or> (\<not> ascii_digit (hd s) \<and> hd s \<noteq> CHR ''.'')"

lemma read_fraction_iso:
  assumes "us < 1000000" and "no_fraction s"
  shows "read_fraction (iso_fraction us @ s) = Some (us, s)"
proof (cases "us = 0")
  case True
  with assms(2) show ?thesis
    by (cases s) (simp_all add: no_fraction_def iso_fraction_def read_fraction_def expect_def)
next
  case False
  have "takeWhile ascii_digit (pad_dec 6 us @ s) = pad_dec 6 us"
  proof -
    have "takeWhile ascii_digit (pad_dec 6 us @ s) = pad_dec 6 us @ takeWhile ascii_digit s"
      using pad_dec_digits [of 6 us] by (simp add: list_all_iff)
    also have "takeWhile ascii_digit s = []" using assms(2) by (cases s) (simp_all add: no_fraction_def)
    finally show ?thesis by simp
  qed
  moreover have "pad_dec 6 us \<noteq> []" using length_pad_base [of digit_char 10 6 us] by fastforce
  ultimately show ?thesis using False assms(1)
    by (simp add: iso_fraction_def read_fraction_def Let_def)
qed

lemma no_fraction_offset: "no_fraction (iso_offset z)"
  by (cases z) (simp_all add: iso_offset_def no_fraction_def Let_def ascii_digit_def code_def)

lemma read_offset_seconds_iso:
  assumes "sec < 60" and "us < 1000000"
  shows "read_offset_seconds (if sec = 0 \<and> us = 0 then [] else '':'' @ pad_dec 2 sec @ iso_fraction us) =
    Some (sec, us)"
proof -
  have "read_fraction (iso_fraction us) = Some (us, [])"
    using read_fraction_iso [OF assms(2), of "[]"] by (simp add: no_fraction_def)
  with assms show ?thesis by (simp add: read_offset_seconds_def)
qed

lemma hms_split: "((n div 3600 * 60 + n div 60 mod 60) * 60 + n mod 60) = (n :: nat)"
proof -
  have "n div 3600 = n div 60 div 60" by (simp add: div_mult2_eq [symmetric])
  then show ?thesis by (metis div_mult_mod_eq)
qed

lemma read_offset_iso:
  assumes "case z of None \<Rightarrow> True | Some o_us \<Rightarrow> \<bar>o_us\<bar> < 86400000000"
  shows "read_offset (iso_offset z) = Some z"
proof (cases z)
  case None
  then show ?thesis by (simp add: iso_offset_def read_offset_def)
next
  case (Some o_us)
  define n where "n = nat \<bar>o_us\<bar>"
  define us where "us = n mod 1000000"
  define s where "s = n div 1000000"
  define tail where "tail = (if s mod 60 = 0 \<and> us = 0 then [] else '':'' @ pad_dec 2 (s mod 60) @ iso_fraction us)"
  define sign where "sign = (if o_us < 0 then CHR ''-'' else CHR ''+'')"
  have "n < 86400000000" using assms Some by (simp add: n_def)
  then have "s < 86400" unfolding s_def by linarith
  then have "s div 3600 < 24" by linarith
  moreover have "s div 60 mod 60 < 60" by simp
  ultimately have s: "s div 3600 < 10 ^ 2" "s div 60 mod 60 < 10 ^ 2" "s div 60 mod 60 < 60"
    by simp_all
  have tail: "read_offset_seconds tail = Some (s mod 60, us)"
    unfolding tail_def by (rule read_offset_seconds_iso) (simp_all add: us_def)
  have iso: "iso_offset z = sign # pad_dec 2 (s div 3600) @ '':'' @ pad_dec 2 (s div 60 mod 60) @ tail"
    by (simp add: Some iso_offset_def Let_def n_def us_def s_def tail_def sign_def)
  have sign: "sign \<in> {CHR ''+'', CHR ''-''}" "sign = CHR ''-'' \<longleftrightarrow> o_us < 0" by (simp_all add: sign_def)
  have "((s div 3600 * 60 + s div 60 mod 60) * 60 + s mod 60) * 1000000 + us = n"
    unfolding hms_split by (simp add: s_def us_def)
  moreover have "(if o_us < 0 then - 1 else 1) * int n = o_us" by (simp add: n_def)
  moreover have "iso_offset z \<noteq> ''Z''" using sign(1) by (auto simp: iso)
  moreover have "iso_offset z \<noteq> []" "hd (iso_offset z) = sign" "tl (iso_offset z) =
      pad_dec 2 (s div 3600) @ '':'' @ pad_dec 2 (s div 60 mod 60) @ tail"
    by (simp_all add: iso)
  moreover have "hd (iso_offset z) \<in> {CHR ''+'', CHR ''-''}" using sign(1) by (simp only: iso list.sel)
  ultimately show ?thesis
    unfolding read_offset_def using s sign(2)
    by (simp only: if_False refl if_True not_True_eq_False, simp add: tail Some)
      (cases "o_us < 0"; simp; linarith)
qed

text \<open>A timestamp is read back from its text, aware or naive.\<close>

lemma fromisoformat_isoformat:
  assumes wf: "wf_datetime t"
  shows "fromisoformat (isoformat t) = Inr t"
proof -
  have "days_in_month y m \<le> 31" for y m by (simp add: days_in_month_def)
  then have "dt_day t \<le> 31" using wf by (auto simp: wf_datetime_def intro: order_trans)
  then have b: "dt_year t < 10 ^ 4" "dt_month t < 10 ^ 2" "dt_day t < 10 ^ 2" "dt_hour t < 10 ^ 2"
      "dt_minute t < 10 ^ 2" "dt_second t < 10 ^ 2" "dt_micro t < 1000000"
    using wf by (auto simp: wf_datetime_def)
  have "read_fraction (iso_fraction (dt_micro t) @ iso_offset (dt_offset t)) =
      Some (dt_micro t, iso_offset (dt_offset t))"
    by (rule read_fraction_iso [OF b(7) no_fraction_offset])
  moreover have "read_offset (iso_offset (dt_offset t)) = Some (dt_offset t)"
    using wf by (intro read_offset_iso) (simp add: wf_datetime_def)
  ultimately have "read_datetime (isoformat t) = Some t"
    using b(1-6) by (simp add: read_datetime_def isoformat_def)
  with wf show ?thesis by (simp add: fromisoformat_def) (simp add: wf_datetime_def)
qed

end
