(* ===== verification/Observability.thy ===== *)
theory Observability
  imports Idempotency Wire_Text
begin

section \<open>Structured logging\<close>

text \<open>
  \<^verbatim>\<open>observability/logging.py\<close>: the JSON log line, the guard of its reserved fields and the
  loggers.  The identifiers of the current span are OpenTelemetry's and are arguments.
\<close>

subsection \<open>Log lines\<close>

definition RESERVED_FIELDS :: "string list" where
  "RESERVED_FIELDS = [''timestamp'', ''level'', ''component'', ''trace_id'', ''span_id'', ''message'']"

definition format_trace_id :: "nat \<Rightarrow> string option" where
  "format_trace_id trace_id = (if trace_id = 0 then None else Some (pad_hex 32 trace_id))"

definition format_span_id :: "nat \<Rightarrow> string option" where
  "format_span_id span_id = (if span_id = 0 then None else Some (pad_hex 16 span_id))"

text \<open>
  What the formatter reads of a \<open>LogRecord\<close>: \<open>lr_timestamp\<close> is the rendered creation time, \<open>lr_exception\<close> the
  rendered traceback when there is one.
\<close>

record log_record =
  lr_timestamp :: string
  lr_level :: string
  lr_component :: string
  lr_message :: string
  lr_fields :: "(string, pyval) dict"
  lr_exception :: "string option"

definition opt_text :: "string option \<Rightarrow> pyval" where
  "opt_text v = (case v of None \<Rightarrow> PNone | Some s \<Rightarrow> PStr s)"

definition base_entry :: "nat \<Rightarrow> nat \<Rightarrow> log_record \<Rightarrow> (string, pyval) dict" where
  "base_entry trace_id span_id r =
     [(''timestamp'', PStr (lr_timestamp r)), (''level'', PStr (lr_level r)),
      (''component'', PStr (lr_component r)),
      (''trace_id'', opt_text (format_trace_id trace_id)),
      (''span_id'', opt_text (format_span_id span_id)),
      (''message'', PStr (lr_message r))]"

definition log_entry :: "nat \<Rightarrow> nat \<Rightarrow> log_record \<Rightarrow> (string, pyval) dict" where
  "log_entry trace_id span_id r =
     dict_of (base_entry trace_id span_id r @ lr_fields r @
       (case lr_exception r of None \<Rightarrow> [] | Some t \<Rightarrow> [(''exception'', PStr t)]))"

text \<open>\<open>json.dumps(entry, default=str, sort_keys=True)\<close>\<close>

definition format_record :: "nat \<Rightarrow> nat \<Rightarrow> log_record \<Rightarrow> string" where
  "format_record trace_id span_id r =
     enc '', '' '': '' (sort_keys (PDict (log_entry trace_id span_id r)))"

text \<open>
  \<open>_log\<close>: the record it hands to the \<open>logging\<close> module; \<open>exc_info\<close> is taken out of the fields, and
  \<open>render_exc\<close> is the traceback \<open>formatException\<close> makes of it, if any.
\<close>

definition log_call ::
  "(pyval option \<Rightarrow> string option) \<Rightarrow> string \<Rightarrow> string \<Rightarrow> string \<Rightarrow> string \<Rightarrow> (string, pyval) dict \<Rightarrow>
     exn + log_record" where
  "log_call render_exc component timestamp level msg event_fields =
     (let collisions = filter (\<lambda>f. f \<in> fst ` set event_fields) RESERVED_FIELDS
      in if collisions \<noteq> []
         then Inl (value_error (''event-specific log fields may not use the reserved '' @ [CHR 0xA7] @
                ''7f field names: '' @ str_join '', '' (sort collisions) @ ''.''))
         else Inr \<lparr>lr_timestamp = timestamp, lr_level = level, lr_component = component,
                lr_message = msg, lr_fields = filter (\<lambda>(k, v). k \<noteq> ''exc_info'') event_fields,
                lr_exception = render_exc (map_of event_fields ''exc_info'')\<rparr>)"

subsection \<open>Loggers\<close>

text \<open>
  The loggers of the \<open>logging\<close> module by name: \<open>StderrHandler\<close> is the handler this library
  installs, \<open>ForeignHandler\<close> any other.
\<close>

datatype log_handler = StderrHandler | ForeignHandler nat

record stdlib_logger =
  lg_level :: nat
  lg_propagate :: bool
  lg_handlers :: "log_handler list"

type_synonym loggers = "string \<rightharpoonup> stdlib_logger"

definition getLogger :: "loggers \<Rightarrow> string \<Rightarrow> stdlib_logger" where
  "getLogger loggers n =
     (case loggers n of
        None \<Rightarrow> \<lparr>lg_level = 0, lg_propagate = True, lg_handlers = []\<rparr>
      | Some g \<Rightarrow> g)"

definition get_logger :: "string \<Rightarrow> nat \<Rightarrow> loggers \<Rightarrow> loggers" where
  "get_logger component level loggers =
     (let n = ''trustlist.'' @ component;
          g = getLogger loggers n;
          handlers = (if StderrHandler \<in> set (lg_handlers g) then lg_handlers g
                      else lg_handlers g @ [StderrHandler])
      in loggers(n \<mapsto> \<lparr>lg_level = level, lg_propagate = False, lg_handlers = handlers\<rparr>))"

text \<open>
  What one log call writes to \<open>stderr\<close>: a line from each of our handlers, and what the handlers of
  the ancestors write when the record propagates to them.
\<close>

definition stderr_lines :: "nat \<Rightarrow> string list \<Rightarrow> loggers \<Rightarrow> string \<Rightarrow> nat \<Rightarrow> string \<Rightarrow> string list" where
  "stderr_lines inherited_level ancestor_lines loggers component level line =
     (let g = getLogger loggers (''trustlist.'' @ component);
          effective = (if lg_level g = 0 then inherited_level else lg_level g)
      in if level < effective then []
         else map (\<lambda>_. line) (filter (\<lambda>h. h = StderrHandler) (lg_handlers g)) @
              (if lg_propagate g then ancestor_lines else []))"

text \<open>\<open>debug\<close>, \<open>info\<close>, \<open>warning\<close>, \<open>error\<close> and \<open>critical\<close> are \<open>structured_log\<close> at their level.\<close>

datatype log_level = DEBUG | INFO | WARNING | ERROR | CRITICAL

fun level_name :: "log_level \<Rightarrow> string" where
  "level_name DEBUG = ''DEBUG''"
| "level_name INFO = ''INFO''"
| "level_name WARNING = ''WARNING''"
| "level_name ERROR = ''ERROR''"
| "level_name CRITICAL = ''CRITICAL''"

fun level_number :: "log_level \<Rightarrow> nat" where
  "level_number DEBUG = 10"
| "level_number INFO = 20"
| "level_number WARNING = 30"
| "level_number ERROR = 40"
| "level_number CRITICAL = 50"

definition structured_log ::
  "(pyval option \<Rightarrow> string option) \<Rightarrow> nat \<Rightarrow> string list \<Rightarrow> loggers \<Rightarrow> nat \<Rightarrow> nat \<Rightarrow> string \<Rightarrow>
     string \<Rightarrow> log_level \<Rightarrow> string \<Rightarrow> (string, pyval) dict \<Rightarrow> exn + string list" where
  "structured_log render_exc inherited_level ancestor_lines loggers trace_id span_id timestamp
     component level msg event_fields =
     bindE (log_call render_exc component timestamp (level_name level) msg event_fields) (\<lambda>r.
       Inr (stderr_lines inherited_level ancestor_lines loggers component (level_number level)
              (format_record trace_id span_id r)))"

subsection \<open>Lemmas\<close>

lemma map_of_sort_key: "distinct (map fst xs) \<Longrightarrow> map_of (sort_key fst xs) = map_of xs"
  by (rule map_of_inject_set [THEN iffD2]) (simp_all add: distinct_map)

lemma map_of_sorted_members: "map_of (sorted_members kvs) k = map_option sort_keys (map_of kvs k)"
  by (induction kvs) (auto simp: sorted_members_def)

lemma map_of_rev: "distinct (map fst kvs) \<Longrightarrow> map_of (rev kvs) = map_of kvs"
  by (rule map_of_inject_set [THEN iffD2]) (simp_all add: rev_map [symmetric])

text \<open>A document rendered with sorted keys reads back to one that finds the same members.\<close>

lemma sorted_line_reads:
  assumes "wf_val (PDict d)" and "jsonable (PDict d)"
  shows "\<exists>d'. json_loads (enc '', '' '': '' (sort_keys (PDict d))) = Inr (PDict d') \<and>
     map_of d' = (\<lambda>k. map_option sort_keys (map_of d k))"
proof -
  define d' where "d' = sort_key fst (sorted_members d)"
  have d': "sort_keys (PDict d) = PDict d'" by (simp only: d'_def sort_keys_dict)
  have "json_loads (enc '', '' '': '' (sort_keys (PDict d))) = Inr (sort_keys (PDict d))"
    using assms by (intro json_loads_enc seps sort_keys_wf) (simp_all only: sort_keys_jsonable)
  moreover have "distinct (map fst (sorted_members d))" using assms(1) by simp
  then have "map_of d' = map_of (sorted_members d)" unfolding d'_def by (rule map_of_sort_key)
  ultimately show ?thesis unfolding d' by (auto simp: map_of_sorted_members fun_eq_iff)
qed

lemma dict_of_member: "(k, v) \<in> set (dict_of kvs) \<Longrightarrow> (k, v) \<in> set kvs"
proof -
  assume "(k, v) \<in> set (dict_of kvs)"
  then have "map_of (dict_of kvs) k = Some v"
    using wf_dict_of [of kvs] by (simp add: wf_dict_def)
  then show ?thesis by (auto simp: map_of_dict_of dest!: map_of_SomeD)
qed

lemma dict_of_json_ok:
  assumes "list_all (\<lambda>(k, v). jsonable v \<and> wf_val v) kvs"
  shows "jsonable (PDict (dict_of kvs))" and "wf_val (PDict (dict_of kvs))"
  using assms wf_dict_of [of kvs] by (auto simp: list_all_iff wf_dict_def dest!: dict_of_member)

definition entry_fields :: "log_record \<Rightarrow> (string, pyval) dict" where
  "entry_fields r = lr_fields r @ (case lr_exception r of None \<Rightarrow> [] | Some t \<Rightarrow> [(''exception'', PStr t)])"

lemma log_entry_lookup:
  "map_of (log_entry tid sid r) k =
     (case map_of (rev (entry_fields r)) k of Some v \<Rightarrow> Some v | None \<Rightarrow> map_of (rev (base_entry tid sid r)) k)"
  by (simp add: log_entry_def entry_fields_def map_of_dict_of map_add_def split: option.splits)

lemma base_entry_keys: "map fst (base_entry tid sid r) = RESERVED_FIELDS"
  by (simp add: base_entry_def RESERVED_FIELDS_def)

lemma reserved_distinct: "distinct RESERVED_FIELDS" by code_simp

lemma reserved_no_exception: "''exception'' \<notin> set RESERVED_FIELDS" by code_simp

lemma base_entry_lookup: "map_of (rev (base_entry tid sid r)) = map_of (base_entry tid sid r)"
  by (rule map_of_rev) (simp only: base_entry_keys reserved_distinct)

lemma log_call_Inr:
  "log_call render c t l m f = Inr r \<longleftrightarrow> fst ` set f \<inter> set RESERVED_FIELDS = {} \<and>
     r = \<lparr>lr_timestamp = t, lr_level = l, lr_component = c, lr_message = m,
          lr_fields = filter (\<lambda>(k, v). k \<noteq> ''exc_info'') f,
          lr_exception = render (map_of f ''exc_info'')\<rparr>"
  by (auto simp: log_call_def Let_def filter_empty_conv)

lemma map_of_keys: "distinct (map fst kvs) \<Longrightarrow> map (map_of kvs) (map fst kvs) = map (\<lambda>kv. Some (snd kv)) kvs"
  by simp

lemma log_entry_reserved:
  assumes "log_call render c t l m f = Inr r" and "k \<in> set RESERVED_FIELDS"
  shows "map_of (log_entry tid sid r) k = map_of (base_entry tid sid r) k"
proof -
  have "k \<noteq> ''exception''" using assms(2) reserved_no_exception by metis
  moreover have "k \<notin> fst ` set f" using assms by (auto simp: log_call_Inr)
  ultimately have "k \<notin> fst ` set (rev (entry_fields r))"
    using assms(1) by (auto simp: log_call_Inr entry_fields_def split: option.splits)
  then have "map_of (rev (entry_fields r)) k = None" by (simp only: map_of_eq_None_iff) simp
  then show ?thesis by (simp add: log_entry_lookup base_entry_lookup)
qed

lemma map_of_filter_key: "k \<noteq> k' \<Longrightarrow> map_of (filter (\<lambda>(k, v). k \<noteq> k') f) k = map_of f k"
  by (induction f) auto

lemma log_entry_other:
  assumes "log_call render c t l m f = Inr r" and "distinct (map fst f)"
    and "k \<notin> set RESERVED_FIELDS" and "k \<noteq> ''exc_info''" and "k \<noteq> ''exception''"
  shows "map_of (log_entry tid sid r) k = map_of f k"
proof -
  have "k \<notin> fst ` set (base_entry tid sid r)"
    using assms(3) base_entry_keys [of tid sid r] by (metis set_map)
  then have base: "map_of (base_entry tid sid r) k = None" by (simp only: map_of_eq_None_iff) simp
  define g where "g = filter (\<lambda>(k, v). k \<noteq> ''exc_info'') f"
  have g: "map_of (rev g) k = map_of f k"
  proof -
    have "distinct (map fst g)" using assms(2) unfolding g_def by (rule distinct_map_filter)
    then have "map_of (rev g) = map_of g" by (rule map_of_rev)
    then show ?thesis unfolding g_def using map_of_filter_key [OF assms(4)] by metis
  qed
  have "lr_fields r = g" using assms(1) by (simp add: log_call_Inr g_def)
  then have "map_of (rev (entry_fields r)) k = map_of f k"
    using assms(5) g by (simp add: entry_fields_def map_add_def split: option.splits)
  with base show ?thesis by (simp add: log_entry_lookup base_entry_lookup split: option.splits)
qed

lemma log_entry_json_ok:
  assumes "log_call render c t l m f = Inr r" and "jsonable (PDict f)" and "wf_val (PDict f)"
  shows "jsonable (PDict (log_entry tid sid r))" and "wf_val (PDict (log_entry tid sid r))"
  using assms unfolding log_entry_def
  by (intro dict_of_json_ok;
      auto simp: log_call_Inr base_entry_def list_all_iff opt_text_def split: option.splits)+

text \<open>An accepted record renders to one line that reads back.\<close>

lemma log_line_parses:
  assumes call: "log_call render c t l m f = Inr r"
    and ok: "jsonable (PDict f)" "wf_val (PDict f)"
  shows "printable (format_record tid sid r) \<and>
    (\<exists>d. json_loads (format_record tid sid r) = Inr (PDict d) \<and>
       map (map_of d) RESERVED_FIELDS =
         map Some [PStr t, PStr l, PStr c, opt_text (format_trace_id tid), opt_text (format_span_id sid), PStr m] \<and>
       (\<forall>k. k \<notin> set RESERVED_FIELDS \<longrightarrow> k \<noteq> ''exc_info'' \<longrightarrow> k \<noteq> ''exception'' \<longrightarrow>
          map_of d k = map_option sort_keys (map_of f k)))"
proof -
  define b where "b = base_entry tid sid r"
  have b: "map fst b = RESERVED_FIELDS" by (simp only: b_def base_entry_keys)
  obtain d where d: "json_loads (format_record tid sid r) = Inr (PDict d)"
      "map_of d = (\<lambda>k. map_option sort_keys (map_of (log_entry tid sid r) k))"
    using sorted_line_reads log_entry_json_ok [OF assms, of tid sid] unfolding format_record_def by blast
  have "map (map_of d) RESERVED_FIELDS = map (map_option sort_keys) (map (map_of b) RESERVED_FIELDS)"
    using log_entry_reserved [OF call, of _ tid sid] by (simp add: d(2) b_def)
  also have "map (map_of b) RESERVED_FIELDS = map (\<lambda>kv. Some (snd kv)) b"
    using map_of_keys [of b] reserved_distinct by (simp only: b)
  also have "map (map_option sort_keys) (map (\<lambda>kv. Some (snd kv)) b) = map Some
      [PStr t, PStr l, PStr c, opt_text (format_trace_id tid), opt_text (format_span_id sid), PStr m]"
    using call by (simp add: b_def base_entry_def log_call_Inr opt_text_def split: option.splits)
  finally have "map (map_of d) RESERVED_FIELDS = \<dots>" .
  moreover have "map_of d k = map_option sort_keys (map_of f k)"
    if "k \<notin> set RESERVED_FIELDS" "k \<noteq> ''exc_info''" "k \<noteq> ''exception''" for k
    using log_entry_other [OF call _ that] ok(2) by (simp add: d(2))
  moreover have "printable (format_record tid sid r)"
    unfolding format_record_def by (rule printable_enc) (rule printable_words)+
  ultimately show ?thesis using d(1) by blast
qed

definition stderr_handlers :: "stdlib_logger \<Rightarrow> nat" where
  "stderr_handlers g = length (filter (\<lambda>h. h = StderrHandler) (lg_handlers g))"

definition wf_loggers :: "loggers \<Rightarrow> bool" where
  "wf_loggers loggers \<longleftrightarrow> (\<forall>n. stderr_handlers (getLogger loggers n) \<le> 1)"

definition get_loggers :: "(string \<times> nat) list \<Rightarrow> loggers \<Rightarrow> loggers" where
  "get_loggers calls = fold (\<lambda>(component, level). get_logger component level) calls"

lemma wf_no_loggers [simp]: "wf_loggers Map.empty"
  by (simp add: wf_loggers_def getLogger_def stderr_handlers_def)

lemma get_logger_other: "component \<noteq> other \<Longrightarrow>
    getLogger (get_logger other level loggers) (''trustlist.'' @ component) = getLogger loggers (''trustlist.'' @ component)"
  by (simp add: getLogger_def get_logger_def Let_def)

lemma get_logger_same:
  assumes "wf_loggers loggers"
  shows "\<exists>g. getLogger (get_logger component level loggers) (''trustlist.'' @ component) = g \<and>
    lg_level g = level \<and> \<not> lg_propagate g \<and> stderr_handlers g = 1"
proof -
  define g where "g = getLogger loggers (''trustlist.'' @ component)"
  have "stderr_handlers g \<le> 1" using assms by (simp only: wf_loggers_def g_def)
  moreover have "StderrHandler \<in> set (lg_handlers g) \<Longrightarrow> 0 < stderr_handlers g"
    by (auto simp: stderr_handlers_def filter_empty_conv)
  moreover have "StderrHandler \<notin> set (lg_handlers g) \<Longrightarrow> stderr_handlers g = 0"
    by (auto simp: stderr_handlers_def filter_empty_conv)
  moreover have "getLogger (get_logger component level loggers) (''trustlist.'' @ component) =
      \<lparr>lg_level = level, lg_propagate = False,
       lg_handlers = (if StderrHandler \<in> set (lg_handlers g) then lg_handlers g
                      else lg_handlers g @ [StderrHandler])\<rparr>"
    by (simp add: get_logger_def getLogger_def [of "_(_ \<mapsto> _)"] Let_def g_def)
  ultimately show ?thesis by (cases "StderrHandler \<in> set (lg_handlers g)") (auto simp: stderr_handlers_def le_Suc_eq)
qed

lemma wf_get_logger: "wf_loggers loggers \<Longrightarrow> wf_loggers (get_logger component level loggers)"
proof -
  assume wf: "wf_loggers loggers"
  have "stderr_handlers (getLogger (get_logger component level loggers) n) \<le> 1" for n
  proof (cases "n = ''trustlist.'' @ component")
    case True
    then show ?thesis using get_logger_same [OF wf, of component level] by auto
  next
    case False
    then have "getLogger (get_logger component level loggers) n = getLogger loggers n"
      by (simp add: getLogger_def get_logger_def Let_def)
    then show ?thesis using wf by (simp add: wf_loggers_def)
  qed
  then show ?thesis by (simp add: wf_loggers_def)
qed

lemma wf_get_loggers: "wf_loggers loggers \<Longrightarrow> wf_loggers (get_loggers calls loggers)"
  by (induction calls arbitrary: loggers) (auto simp: get_loggers_def wf_get_logger)

lemma get_loggers_other: "component \<notin> fst ` set calls \<Longrightarrow>
    getLogger (get_loggers calls loggers) (''trustlist.'' @ component) = getLogger loggers (''trustlist.'' @ component)"
proof (induction calls arbitrary: loggers)
  case (Cons call calls)
  then have "component \<noteq> fst call" by auto
  with Cons show ?case by (simp add: get_loggers_def case_prod_beta get_logger_other del: append_Cons append_Nil)
qed (simp add: get_loggers_def)

text \<open>A log call writes its line once, or not at all below the level asked for last.\<close>

lemma one_line_per_log_call:
  assumes "wf_loggers loggers" and "component \<notin> fst ` set later" and "0 < level"
  shows "stderr_lines inherited ancestors (get_loggers (earlier @ (component, level) # later) loggers)
      component called line = (if called < level then [] else [line])"
proof -
  define before where "before = get_loggers earlier loggers"
  have "get_loggers (earlier @ (component, level) # later) loggers =
      get_loggers later (get_logger component level before)"
    by (simp add: get_loggers_def before_def)
  moreover have "wf_loggers before" unfolding before_def by (rule wf_get_loggers [OF assms(1)])
  ultimately obtain g where g: "getLogger (get_loggers (earlier @ (component, level) # later) loggers)
        (''trustlist.'' @ component) = g"
      "lg_level g = level" "\<not> lg_propagate g" "stderr_handlers g = 1"
    using get_logger_same [of before component level] get_loggers_other [OF assms(2)] by metis
  from g(4) have "map (\<lambda>_. line) (filter (\<lambda>h. h = StderrHandler) (lg_handlers g)) = [line]"
    by (auto simp: stderr_handlers_def length_Suc_conv)
  with g(2,3) assms(3) show ?thesis by (simp only: stderr_lines_def Let_def g(1)) simp
qed

text \<open>What an accepted call writes, and that only a reserved name is refused.\<close>

lemma structured_log_accepts:
  assumes "fst ` set f \<inter> set RESERVED_FIELDS = {}"
  shows "\<exists>lines. structured_log render inherited ancestors loggers tid sid t component level m f = Inr lines"
proof -
  obtain r where "log_call render component t (level_name level) m f = Inr r"
    using assms by (simp add: log_call_Inr)
  then show ?thesis unfolding structured_log_def by (simp only: bindE_simps) blast
qed

lemma structured_log_line:
  assumes loggers: "wf_loggers loggers" "component \<notin> fst ` set later" "0 < threshold"
    and accepted: "fst ` set f \<inter> set RESERVED_FIELDS = {}"
    and ok: "jsonable (PDict f)" "wf_val (PDict f)"
  shows "\<exists>line d. structured_log render inherited ancestors
        (get_loggers (earlier @ (component, threshold) # later) loggers) tid sid t component level m f =
        Inr (if level_number level < threshold then [] else [line]) \<and>
      printable line \<and> json_loads line = Inr (PDict d) \<and>
      map (map_of d) RESERVED_FIELDS = map Some [PStr t, PStr (level_name level), PStr component,
        opt_text (format_trace_id tid), opt_text (format_span_id sid), PStr m] \<and>
      (\<forall>k. k \<notin> set RESERVED_FIELDS \<longrightarrow> k \<noteq> ''exc_info'' \<longrightarrow> k \<noteq> ''exception'' \<longrightarrow>
         map_of d k = map_option sort_keys (map_of f k))"
proof -
  obtain r where call: "log_call render component t (level_name level) m f = Inr r"
    using accepted by (simp add: log_call_Inr)
  have "structured_log render inherited ancestors (get_loggers (earlier @ (component, threshold) # later) loggers)
      tid sid t component level m f =
      Inr (if level_number level < threshold then [] else [format_record tid sid r])"
    unfolding structured_log_def call bindE_simps one_line_per_log_call [OF loggers] ..
  with log_line_parses [OF call ok, of tid sid] show ?thesis by blast
qed

text \<open>A call without an exception: its line has the reserved members and the event fields, and nothing else.\<close>

lemma plain_entry:
  assumes call: "log_call render c t l m f = Inr r" and f: "distinct (map fst f)" "''exc_info'' \<notin> fst ` set f"
    and quiet: "render None = None"
  shows "map_of (log_entry tid sid r) = map_of (base_entry tid sid r @ f)"
proof
  fix k
  have "map_of f ''exc_info'' = None" using f(2) by (simp only: map_of_eq_None_iff) simp
  then have "lr_exception r = None" using call quiet by (simp add: log_call_Inr)
  moreover have "filter (\<lambda>(k, v). k \<noteq> ''exc_info'') f = f" using f(2) by (force intro: filter_True)
  then have "lr_fields r = f" using call by (simp add: log_call_Inr)
  ultimately have entry: "map_of (log_entry tid sid r) k =
      (case map_of f k of Some v \<Rightarrow> Some v | None \<Rightarrow> map_of (base_entry tid sid r) k)"
    by (cases "map_of f k") (simp_all add: log_entry_lookup base_entry_lookup entry_fields_def map_of_rev [OF f(1)])
  have "fst ` set (base_entry tid sid r) = set RESERVED_FIELDS"
    using base_entry_keys [of tid sid r] by (metis set_map)
  with call have "map_of (base_entry tid sid r) k = None \<or> map_of f k = None"
    by (auto simp: log_call_Inr map_of_eq_None_iff)
  then show "map_of (log_entry tid sid r) k = map_of (base_entry tid sid r @ f) k"
    unfolding entry by (auto simp: map_add_def split: option.splits)
qed

lemma structured_log_plain:
  assumes loggers: "wf_loggers loggers" "component \<notin> fst ` set later" "0 < threshold"
    and accepted: "fst ` set f \<inter> set RESERVED_FIELDS = {}" "''exc_info'' \<notin> fst ` set f" "render None = None"
    and ok: "jsonable (PDict f)" "wf_val (PDict f)"
  shows "\<exists>line d. structured_log render inherited ancestors
        (get_loggers (earlier @ (component, threshold) # later) loggers) tid sid t component level m f =
        Inr (if level_number level < threshold then [] else [line]) \<and>
      printable line \<and> json_loads line = Inr (PDict d) \<and>
      map_of d = map_option sort_keys \<circ> map_of ([(''timestamp'', PStr t), (''level'', PStr (level_name level)),
        (''component'', PStr component), (''trace_id'', opt_text (format_trace_id tid)),
        (''span_id'', opt_text (format_span_id sid)), (''message'', PStr m)] @ f)"
proof -
  obtain r where call: "log_call render component t (level_name level) m f = Inr r"
    using accepted(1) by (simp add: log_call_Inr)
  have line: "structured_log render inherited ancestors (get_loggers (earlier @ (component, threshold) # later) loggers)
      tid sid t component level m f =
      Inr (if level_number level < threshold then [] else [format_record tid sid r])"
    unfolding structured_log_def call bindE_simps one_line_per_log_call [OF loggers] ..
  obtain d where d: "json_loads (format_record tid sid r) = Inr (PDict d)"
      "map_of d = (\<lambda>k. map_option sort_keys (map_of (log_entry tid sid r) k))"
    using sorted_line_reads log_entry_json_ok [OF call ok, of tid sid] unfolding format_record_def by blast
  have "distinct (map fst f)" using ok(2) by simp
  from plain_entry [OF call this accepted(2,3), of tid sid] have "map_of d = map_option sort_keys \<circ> map_of (base_entry tid sid r @ f)"
    by (simp add: d(2) comp_def)
  moreover from call have "base_entry tid sid r = [(''timestamp'', PStr t), (''level'', PStr (level_name level)),
        (''component'', PStr component), (''trace_id'', opt_text (format_trace_id tid)),
        (''span_id'', opt_text (format_span_id sid)), (''message'', PStr m)]"
    by (simp add: base_entry_def log_call_Inr)
  ultimately have "map_of d = map_option sort_keys \<circ> map_of ([(''timestamp'', PStr t), (''level'', PStr (level_name level)),
        (''component'', PStr component), (''trace_id'', opt_text (format_trace_id tid)),
        (''span_id'', opt_text (format_span_id sid)), (''message'', PStr m)] @ f)" by (simp only:)
  moreover have "printable (format_record tid sid r)"
    unfolding format_record_def by (rule printable_enc) (rule printable_words)+
  ultimately show ?thesis using line d(1) by blast
qed

subsection \<open>Properties\<close>

text \<open>
  C18: a log call tells the truth, once: however often and in whatever order components asked for their
  loggers, an accepted call at or above the level its component last asked for writes exactly one line of printable
  ASCII, whatever its message and event fields hold, and nothing reaches an ancestor's handler; a call below that level
  writes nothing.  The line parses back as one JSON object in which every reserved field is what
  the logger put there and every event field is the caller's own value.
\<close>

theorem log_line_faithful:
  assumes loggers: "wf_loggers loggers" "component \<notin> fst ` set later" "0 < threshold"
    and accepted: "fst ` set f \<inter> set RESERVED_FIELDS = {}"
    and ok: "jsonable (PDict f)" "wf_val (PDict f)"
  shows "\<exists>line d. structured_log render inherited ancestors
        (get_loggers (earlier @ (component, threshold) # later) loggers) tid sid t component level m f =
        Inr (if level_number level < threshold then [] else [line]) \<and>
      printable line \<and> json_loads line = Inr (PDict d) \<and>
      map (map_of d) RESERVED_FIELDS = map Some [PStr t, PStr (level_name level), PStr component,
        opt_text (format_trace_id tid), opt_text (format_span_id sid), PStr m] \<and>
      (\<forall>k. k \<notin> set RESERVED_FIELDS \<longrightarrow> k \<noteq> ''exc_info'' \<longrightarrow> k \<noteq> ''exception'' \<longrightarrow>
         map_of d k = map_option sort_keys (map_of f k))"
  using assms by (rule structured_log_line)

theorem log_line_faithful_witness:
  "\<exists>line d. structured_log (\<lambda>_. None) 30 [''root''] (get_loggers ([(''a'', 10)] @ (''a'', 20) # [(''b'', 40)]) Map.empty)
       0 7 ''2026-05-21T09:30:00.000+00:00'' ''a'' INFO [CHR 0x22, CHR 0x0A] [(''n'', PInt 1)] = Inr [line] \<and>
     json_loads line = Inr (PDict d) \<and> map_of d ''n'' = Some (PInt 1)"
proof -
  have keys: "fst ` set [(''n'', PInt 1)] \<inter> set RESERVED_FIELDS = {}" by code_simp
  have n: "''n'' \<notin> set RESERVED_FIELDS" "''n'' \<noteq> ''exc_info''" "''n'' \<noteq> ''exception''" by code_simp+
  have fresh: "''a'' \<notin> fst ` set [(''b'', 40 :: nat)]" by simp
  have ok: "jsonable (PDict [(''n'', PInt 1)])" "wf_val (PDict [(''n'', PInt 1)])" by (simp_all add: str_of_nat.simps)
  obtain line d where "structured_log (\<lambda>_. None) 30 [''root'']
      (get_loggers ([(''a'', 10)] @ (''a'', 20) # [(''b'', 40)]) Map.empty)
       0 7 ''2026-05-21T09:30:00.000+00:00'' ''a'' INFO [CHR 0x22, CHR 0x0A] [(''n'', PInt 1)] =
       Inr (if level_number INFO < 20 then [] else [line])" "json_loads line = Inr (PDict d)"
      "map_of d ''n'' = map_option sort_keys (map_of [(''n'', PInt 1)] ''n'')"
    using log_line_faithful [OF wf_no_loggers fresh _ keys ok, of 20 "\<lambda>_. None" 30 "[''root'']" "[(''a'', 10)]" 0 7
        "''2026-05-21T09:30:00.000+00:00''" INFO "[CHR 0x22, CHR 0x0A]"] n by auto
  then show ?thesis by auto
qed

end
