(* ===== verification/Audit_Logging.thy ===== *)
theory Audit_Logging
  imports Audit_Trail Observability
begin

section \<open>The logging audit sink\<close>

text \<open>
  \<open>LoggingAuditEventSink\<close> of \<^verbatim>\<open>auth/trustlist_auth/audit.py\<close>: the mirror of the audit trail into the
  structured log.  Its state is the process's loggers and what was written to \<open>stderr\<close>;
  \<open>ambient ev\<close> is the active trace id, span id and rendered clock of the call for \<open>ev\<close>.
\<close>

definition AUTH_AUDIT_TOPIC :: string where
  "AUTH_AUDIT_TOPIC = ''auth.audit''"

record log_sink =
  ls_loggers :: loggers
  ls_stderr :: "string list"

definition audit_log_fields :: "audit_event \<Rightarrow> (string, pyval) dict" where
  "audit_log_fields ev =
     [(''audit_event_id'', PStr (event_id ev)),
      (''audit_event_type'', PStr (event_type_value (event_type ev))),
      (''audit_user_id'', case ev_user_id ev of None \<Rightarrow> PNone | Some u \<Rightarrow> PStr u),
      (''audit_topic'', PStr AUTH_AUDIT_TOPIC)]"

definition logging_emit ::
  "nat \<Rightarrow> string list \<Rightarrow> (audit_event \<Rightarrow> nat \<times> nat \<times> string) \<Rightarrow> log_sink sink" where
  "logging_emit inherited_level ancestor_lines ambient ev k =
     (case ambient ev of (trace_id, span_id, timestamp) \<Rightarrow>
        (case structured_log (\<lambda>_. None) inherited_level ancestor_lines (ls_loggers k) trace_id span_id
                timestamp ''auth'' INFO ''auth audit event'' (audit_log_fields ev) of
           Inl e \<Rightarrow> (Inl e, k)
         | Inr lines \<Rightarrow> (Inr (), k\<lparr>ls_stderr := ls_stderr k @ lines\<rparr>)))"

text \<open>\<open>_logger = get_logger("auth")\<close>, at the default level.\<close>

definition auth_logger :: "string \<times> nat" where
  "auth_logger = (''auth'', level_number INFO)"

text \<open>The names of the fields, none of them reserved.\<close>

definition audit_log_names :: "string list" where
  "audit_log_names = [''audit_event_id'', ''audit_event_type'', ''audit_user_id'', ''audit_topic'']"

lemma map_fst_audit_log_fields: "map fst (audit_log_fields ev) = audit_log_names"
  by (simp add: audit_log_fields_def audit_log_names_def)

lemma distinct_audit_log_names: "distinct audit_log_names" by code_simp

lemma audit_log_names_free:
  "k \<in> set audit_log_names \<Longrightarrow> k \<notin> set RESERVED_FIELDS \<and> k \<noteq> ''exc_info'' \<and> k \<noteq> ''exception''"
proof -
  have "list_all (\<lambda>k. k \<notin> set RESERVED_FIELDS \<and> k \<noteq> ''exc_info'' \<and> k \<noteq> ''exception'') audit_log_names"
    by code_simp
  then show "k \<in> set audit_log_names \<Longrightarrow> ?thesis" unfolding list_all_iff by blast
qed

lemma audit_log_keys: "fst ` set (audit_log_fields ev) \<inter> set RESERVED_FIELDS = {}"
  using audit_log_names_free unfolding set_map [symmetric] map_fst_audit_log_fields by blast

lemma audit_log_ok: "jsonable (PDict (audit_log_fields ev))" "wf_val (PDict (audit_log_fields ev))"
proof -
  have "distinct (map fst (audit_log_fields ev))"
    by (simp only: map_fst_audit_log_fields distinct_audit_log_names)
  then show "jsonable (PDict (audit_log_fields ev))" "wf_val (PDict (audit_log_fields ev))"
    by (auto simp: audit_log_fields_def split: option.split)
qed

lemma audit_log_no_exc: "''exc_info'' \<notin> fst ` set (audit_log_fields ev)"
  using audit_log_names_free unfolding set_map [symmetric] map_fst_audit_log_fields by blast

text \<open>Sorting the keys of members changes none that is a scalar.\<close>

lemma scalar_members:
  "list_all (\<lambda>(k, v). sort_keys v = v) kvs \<Longrightarrow> map_option sort_keys \<circ> map_of kvs = map_of kvs"
  by (induction kvs) (auto simp: fun_eq_iff)

text \<open>The sink never raises: the field names it uses are not reserved.\<close>

interpretation logging_sink: audit_event_sink "logging_emit inherited ancestors ambient"
  for inherited ancestors ambient
proof unfold_locales
  fix ev and k :: log_sink
  obtain tid sid t where amb: "ambient ev = (tid, sid, t)" by (cases "ambient ev")
  obtain lines where "structured_log (\<lambda>_. None) inherited ancestors (ls_loggers k) tid sid t ''auth'' INFO
      ''auth audit event'' (audit_log_fields ev) = Inr lines"
    using structured_log_accepts [OF audit_log_keys] by blast
  then show "fst (logging_emit inherited ancestors ambient ev k) = Inr ()"
    unfolding logging_emit_def amb by (simp only: prod.case sum.case fst_conv)
qed

subsection \<open>Properties\<close>

text \<open>
  C25: the log mirror is faithful and leaks nothing.  When an audit call with the logging sink returns an event,
  its row is stored and exactly one line was logged, whatever loggers were set up before or since.  The line reads back
  to one object whose members are these and no others: the clock and the trace and span identifiers of the call, the
  level, the component, the fixed message, and the identifier, type and user of the event, which are those of the row,
  and the topic.  The line does not depend on anything else of the event: one that differs in its details, address, user
  agent or time is logged as the very same line.
\<close>

theorem audit_mirrored_to_log:
  assumes "audit_record (logging_emit inherited ancestors ambient) en ty user ip ua details t s = (Inr ev, s')"
    and "sink_state s = \<lparr>ls_loggers = get_loggers (earlier @ auth_logger # later) loggers, ls_stderr = out\<rparr>"
    and "wf_loggers loggers" and "''auth'' \<notin> fst ` set later"
    and "ambient ev = (trace, span, clock)"
  shows "(\<exists>row. audit_events (db s') = audit_events (db s) @ [row] \<and> ar_event_id row = audit_uuid en \<and>
       ar_event_type row = event_type_value ty \<and> ar_user_id row = user) \<and>
    (\<exists>line d. ls_stderr (sink_state s') = out @ [line] \<and> printable line \<and> json_loads line = Inr (PDict d) \<and>
       map_of d = map_of
         [(''timestamp'', PStr clock), (''level'', PStr ''INFO''), (''component'', PStr ''auth''),
          (''trace_id'', opt_text (format_trace_id trace)), (''span_id'', opt_text (format_span_id span)),
          (''message'', PStr ''auth audit event''),
          (''audit_event_id'', PStr (audit_uuid en)), (''audit_event_type'', PStr (event_type_value ty)),
          (''audit_user_id'', opt_text user), (''audit_topic'', PStr ''auth.audit'')] \<and>
       (\<forall>ev'. event_id ev' = event_id ev \<longrightarrow> event_type ev' = event_type ev \<longrightarrow> ev_user_id ev' = ev_user_id ev \<longrightarrow>
          ambient ev' = ambient ev \<longrightarrow>
          ls_stderr (snd (logging_emit inherited ancestors ambient ev' (sink_state s))) = out @ [line]))"
proof -
  let ?L = "get_loggers (earlier @ auth_logger # later) loggers"
  obtain rendered where s': "s' = s\<lparr>db := (db s)\<lparr>audit_events := audit_events (db s) @ [row_of_event ev rendered]\<rparr>,
      sink_state := snd (logging_emit inherited ancestors ambient ev (sink_state s))\<rparr>"
    and ev: "ev = build_event en ty user ip ua details t"
  proof (cases rule: logging_sink.record_cases [of inherited ancestors ambient en ty user ip ua details t s])
    case (recorded ev' rendered)
    with assms(1) have "ev' = ev" by simp
    with recorded(1,2) assms(1) show ?thesis by (intro that) simp_all
  qed (use assms(1) in simp)
  have fields: "audit_log_fields ev = [(''audit_event_id'', PStr (audit_uuid en)),
      (''audit_event_type'', PStr (event_type_value ty)), (''audit_user_id'', opt_text user), (''audit_topic'', PStr ''auth.audit'')]"
    by (simp add: audit_log_fields_def ev build_event_def opt_text_def AUTH_AUDIT_TOPIC_def)
  have pos: "0 < level_number INFO" by simp
  obtain line d where log: "structured_log (\<lambda>_. None) inherited ancestors ?L trace span clock ''auth'' INFO
        ''auth audit event'' (audit_log_fields ev) = Inr (if level_number INFO < level_number INFO then [] else [line])"
      and line: "printable line" "json_loads line = Inr (PDict d)"
      and members: "map_of d = map_option sort_keys \<circ> map_of ([(''timestamp'', PStr clock), (''level'', PStr (level_name INFO)),
        (''component'', PStr ''auth''), (''trace_id'', opt_text (format_trace_id trace)),
        (''span_id'', opt_text (format_span_id span)), (''message'', PStr ''auth audit event'')] @ audit_log_fields ev)"
    using structured_log_plain [OF assms(3,4) pos audit_log_keys audit_log_no_exc _ audit_log_ok, where render = "\<lambda>_. None"] refl
    unfolding auth_logger_def by blast
  have sink: "logging_emit inherited ancestors ambient ev' (sink_state s) =
      (Inr (), \<lparr>ls_loggers = ?L, ls_stderr = out @ [line]\<rparr>)"
    if "audit_log_fields ev' = audit_log_fields ev" "ambient ev' = ambient ev" for ev'
    using log that unfolding logging_emit_def that assms(2,5) by simp
  have "map_of d = map_of ([(''timestamp'', PStr clock), (''level'', PStr (level_name INFO)),
        (''component'', PStr ''auth''), (''trace_id'', opt_text (format_trace_id trace)),
        (''span_id'', opt_text (format_span_id span)), (''message'', PStr ''auth audit event'')] @ audit_log_fields ev)"
    unfolding members by (rule scalar_members) (simp add: fields opt_text_def split: option.split)
  then have "map_of d = map_of
         [(''timestamp'', PStr clock), (''level'', PStr ''INFO''), (''component'', PStr ''auth''),
          (''trace_id'', opt_text (format_trace_id trace)), (''span_id'', opt_text (format_span_id span)),
          (''message'', PStr ''auth audit event''),
          (''audit_event_id'', PStr (audit_uuid en)), (''audit_event_type'', PStr (event_type_value ty)),
          (''audit_user_id'', opt_text user), (''audit_topic'', PStr ''auth.audit'')]"
    by (simp only: fields append.simps level_name.simps)
  moreover have "ls_stderr (snd (logging_emit inherited ancestors ambient ev' (sink_state s))) = out @ [line]"
    if "event_id ev' = event_id ev" "event_type ev' = event_type ev" "ev_user_id ev' = ev_user_id ev"
      "ambient ev' = ambient ev" for ev'
    using sink [of ev'] that by (simp add: audit_log_fields_def)
  moreover have "ls_stderr (sink_state s') = out @ [line]" using sink [OF refl refl] by (simp add: s')
  moreover have "\<exists>row. audit_events (db s') = audit_events (db s) @ [row] \<and> ar_event_id row = audit_uuid en \<and>
       ar_event_type row = event_type_value ty \<and> ar_user_id row = user"
    by (simp add: s' row_of_event_def ev build_event_def)
  ultimately show ?thesis using line by blast
qed

definition demo_audit_event :: audit_event where
  "demo_audit_event = \<lparr>event_id = ''e1'', event_type = LOGIN_FAILURE, occurred_at = 5, ev_user_id = None,
     ip_address_observed = None, user_agent_observed = None, event_details = [(''email'', PStr ''a'')]\<rparr>"

theorem audit_mirrored_to_log_witness:
  "\<exists>s' line d. audit_record (logging_emit 30 [] (\<lambda>_. (0, 0, ''2026-05-21T09:30:00.000+00:00'')))
       \<lparr>audit_now = 5, audit_uuid = ''e1'', pg_ok = (\<lambda>_. True)\<rparr> LOGIN_FAILURE None None None [(''email'', PStr ''a'')] None
       \<lparr>db = \<lparr>user_accounts = [], role_assignments = [], audit_events = []\<rparr>,
        sink_state = \<lparr>ls_loggers = get_loggers ([] @ auth_logger # []) Map.empty, ls_stderr = []\<rparr>\<rparr> =
         (Inr demo_audit_event, s') \<and>
     ls_stderr (sink_state s') = [] @ [line] \<and> json_loads line = Inr (PDict d) \<and>
     map_of d ''audit_event_id'' = Some (PStr ''e1'') \<and> map_of d ''email'' = None"
proof -
  let ?en = "\<lparr>audit_now = 5, audit_uuid = ''e1'', pg_ok = (\<lambda>_. True)\<rparr>"
  let ?emit = "logging_emit 30 [] (\<lambda>_. (0, 0, ''2026-05-21T09:30:00.000+00:00''))"
  let ?s = "\<lparr>db = \<lparr>user_accounts = [], role_assignments = [], audit_events = []\<rparr>,
        sink_state = \<lparr>ls_loggers = get_loggers ([] @ auth_logger # []) Map.empty, ls_stderr = []\<rparr>\<rparr>"
  have clean: "forbidden_in [(''email'', PStr ''a'')] = []" by code_simp
  have built: "build_event ?en LOGIN_FAILURE None None None [(''email'', PStr ''a'')] None = demo_audit_event"
    by (simp add: build_event_def demo_audit_event_def)
  have "fst (audit_record ?emit ?en LOGIN_FAILURE None None None [(''email'', PStr ''a'')] None ?s) = Inr demo_audit_event"
    unfolding audit_record_def
    by (subst logging_sink.emit_eq)
      (simp add: clean built Let_def json_dumps_def demo_audit_event_def insert_audit_event_def row_of_event_def
        opt_user_exists_def)
  then obtain s' where s': "audit_record ?emit ?en LOGIN_FAILURE None None None [(''email'', PStr ''a'')] None ?s =
      (Inr demo_audit_event, s')" by (metis prod.collapse)
  have "sink_state ?s = \<lparr>ls_loggers = get_loggers ([] @ auth_logger # []) Map.empty, ls_stderr = []\<rparr>" by simp
  from audit_mirrored_to_log [OF s' this wf_no_loggers _ refl] s' show ?thesis by auto
qed

end
