(* ===== verification/Envelope.thy ===== *)
theory Envelope
  imports Wire_Text
begin

section \<open>The event envelope\<close>

text \<open>
  \<^verbatim>\<open>event-bus-sdk/trustlist_event_bus/envelope.py\<close>.  What comes from the wire is dynamically
  typed: \<open>from_dict\<close> checks the identifier, the timestamp, the trace context and the shape of the
  provenance, and takes every other member as it is, so those fields are values of any JSON
  type.  Exceptions are those Python raises on each shape: a missing member is a
  \<open>KeyError\<close>, subscripting something that is no dictionary a \<open>TypeError\<close>, a method call on
  something without the method an \<open>AttributeError\<close>.
\<close>

definition ENVELOPE_VERSION :: string where
  "ENVELOPE_VERSION = ''1.0.0''"

record provenance =
  prov_source :: pyval
  prov_method :: pyval
  prov_contributor :: pyval

record event_envelope =
  env_event_type :: pyval
  env_event_version :: pyval
  env_producer_id :: pyval
  env_idempotency_key :: pyval
  env_provenance :: provenance
  env_payload :: pyval
  env_trace_context :: "(string, pyval) dict"
  env_event_id :: "128 word"
  env_produced_at :: py_datetime

subsection \<open>Dynamic access\<close>

text \<open>\<open>data[k]\<close>, \<open>data.get(k)\<close> and \<open>dict(v or {})\<close>.\<close>

definition getitem :: "pyval \<Rightarrow> string \<Rightarrow> exn + pyval" where
  "getitem data k =
     (case data of
        PDict d \<Rightarrow>
          (case map_of d k of None \<Rightarrow> Inl (Exn (Other KeyError) (py_repr k)) | Some v \<Rightarrow> Inr v)
      | PObj s \<Rightarrow> Inl outside
      | _ \<Rightarrow> Inl (type_error ''indices must be integers or object is not subscriptable''))"

definition get_method :: "pyval \<Rightarrow> string \<Rightarrow> exn + pyval" where
  "get_method data k =
     (case data of
        PDict d \<Rightarrow> Inr (case map_of d k of None \<Rightarrow> PNone | Some v \<Rightarrow> v)
      | PObj s \<Rightarrow> Inl outside
      | _ \<Rightarrow> Inl (Exn (Other AttributeError) ''object has no attribute get''))"

definition update_sequence_error :: exn where
  "update_sequence_error = value_error ''dictionary update sequence element has the wrong length; 2 is required''"

definition item_pair :: "pyval \<Rightarrow> exn + pyval \<times> pyval" where
  "item_pair item =
     (case item of
        PList vs \<Rightarrow> (case vs of [a, b] \<Rightarrow> Inr (a, b) | _ \<Rightarrow> Inl update_sequence_error)
      | PStr s \<Rightarrow> (case s of [a, b] \<Rightarrow> Inr (PStr [a], PStr [b]) | _ \<Rightarrow> Inl update_sequence_error)
      | PDict d \<Rightarrow>
          (case map fst d of [a, b] \<Rightarrow> Inr (PStr a, PStr b) | _ \<Rightarrow> Inl update_sequence_error)
      | PObj s \<Rightarrow> Inl outside
      | _ \<Rightarrow> Inl (type_error ''cannot convert dictionary update sequence element to a sequence''))"

text \<open>A key that is neither a string nor unhashable is left out of the dictionaries modelled.\<close>

definition string_key :: "pyval \<Rightarrow> exn + string" where
  "string_key v =
     (case v of
        PStr s \<Rightarrow> Inr s
      | PList _ \<Rightarrow> Inl (type_error ''unhashable type: list'')
      | PDict _ \<Rightarrow> Inl (type_error ''unhashable type: dict'')
      | _ \<Rightarrow> Inl outside)"

definition dict_or_empty :: "pyval \<Rightarrow> exn + (string, pyval) dict" where
  "dict_or_empty v =
     (case v of
        PNone \<Rightarrow> Inr []
      | PBool b \<Rightarrow> if b then Inl (type_error ''object is not iterable'') else Inr []
      | PInt i \<Rightarrow> if i \<noteq> 0 then Inl (type_error ''object is not iterable'') else Inr []
      | PStr s \<Rightarrow> if s \<noteq> [] then Inl update_sequence_error else Inr []
      | PDict d \<Rightarrow> Inr d
      | PList vs \<Rightarrow>
          bindE (mapE (\<lambda>item. bindE (item_pair item) (\<lambda>(k, x). bindE (string_key k) (\<lambda>s. Inr (s, x)))) vs)
            (\<lambda>kvs. Inr (dict_of kvs))
      | PObj s \<Rightarrow> Inl outside)"

definition uuid_value :: "pyval \<Rightarrow> exn + 128 word" where
  "uuid_value v =
     (case v of
        PStr s \<Rightarrow> parse_uuid s
      | PNone \<Rightarrow> Inl (type_error ''one of the hex, bytes, bytes_le, fields, or int arguments must be given'')
      | PObj s \<Rightarrow> Inl outside
      | _ \<Rightarrow> Inl (Exn (Other AttributeError) ''object has no attribute replace''))"

definition datetime_value :: "pyval \<Rightarrow> exn + py_datetime" where
  "datetime_value v =
     (case v of
        PStr s \<Rightarrow> fromisoformat s
      | PObj s \<Rightarrow> Inl outside
      | _ \<Rightarrow> Inl (type_error ''fromisoformat: argument must be str''))"

subsection \<open>Dictionaries and bytes\<close>

definition provenance_to_dict :: "provenance \<Rightarrow> pyval" where
  "provenance_to_dict p =
     PDict [(''source'', prov_source p), (''method'', prov_method p),
            (''contributor_identity'', prov_contributor p)]"

definition provenance_from_dict :: "pyval \<Rightarrow> exn + provenance" where
  "provenance_from_dict data =
     bindE (getitem data ''source'') (\<lambda>source.
     bindE (getitem data ''method'') (\<lambda>meth.
     bindE (get_method data ''contributor_identity'') (\<lambda>contributor.
       Inr \<lparr>prov_source = source, prov_method = meth, prov_contributor = contributor\<rparr>)))"

definition envelope_to_dict :: "event_envelope \<Rightarrow> pyval" where
  "envelope_to_dict e =
     PDict [(''event_id'', PStr (uuid_str (env_event_id e))),
            (''event_type'', env_event_type e),
            (''event_version'', env_event_version e),
            (''produced_at'', PStr (isoformat (env_produced_at e))),
            (''producer_id'', env_producer_id e),
            (''trace_context'', PDict (env_trace_context e)),
            (''idempotency_key'', env_idempotency_key e),
            (''provenance'', provenance_to_dict (env_provenance e)),
            (''payload'', env_payload e)]"

definition envelope_to_bytes :: "event_envelope \<Rightarrow> exn + bytes" where
  "envelope_to_bytes e = bindE (json_dumps_compact (envelope_to_dict e)) (\<lambda>s. Inr (utf8_encode s))"

definition envelope_from_dict :: "pyval \<Rightarrow> exn + event_envelope" where
  "envelope_from_dict data =
     bindE (getitem data ''event_id'') (\<lambda>raw_id.
     bindE (uuid_value raw_id) (\<lambda>event_id.
     bindE (getitem data ''event_type'') (\<lambda>event_type.
     bindE (getitem data ''event_version'') (\<lambda>event_version.
     bindE (getitem data ''produced_at'') (\<lambda>raw_at.
     bindE (datetime_value raw_at) (\<lambda>produced_at.
     bindE (getitem data ''producer_id'') (\<lambda>producer_id.
     bindE (bindE (get_method data ''trace_context'') dict_or_empty) (\<lambda>trace_context.
     bindE (getitem data ''idempotency_key'') (\<lambda>idempotency_key.
     bindE (bindE (getitem data ''provenance'') provenance_from_dict) (\<lambda>prov.
     bindE (getitem data ''payload'') (\<lambda>payload.
       Inr \<lparr>env_event_type = event_type, env_event_version = event_version,
            env_producer_id = producer_id, env_idempotency_key = idempotency_key,
            env_provenance = prov, env_payload = payload, env_trace_context = trace_context,
            env_event_id = event_id, env_produced_at = produced_at\<rparr>)))))))))))"

text \<open>
  \<open>overflow\<close> says of which texts the nesting is deeper than \<open>json.loads\<close> can follow on the interpreter's stack;
  \<open>envelope_from_bytes\<close> is the method where the stack is no limit.
\<close>

definition recursion_error :: exn where
  "recursion_error = Exn (Other RecursionError) ''maximum recursion depth exceeded''"

definition envelope_from_bytes_on :: "(string \<Rightarrow> bool) \<Rightarrow> bytes \<Rightarrow> exn + event_envelope" where
  "envelope_from_bytes_on overflow raw =
     bindE (utf8_decode raw) (\<lambda>s. bindE (if overflow s then Inl recursion_error else json_loads s) envelope_from_dict)"

definition envelope_from_bytes :: "bytes \<Rightarrow> exn + event_envelope" where
  "envelope_from_bytes = envelope_from_bytes_on (\<lambda>_. False)"

lemma envelope_from_bytes_eq:
  "envelope_from_bytes raw = bindE (utf8_decode raw) (\<lambda>s. bindE (json_loads s) envelope_from_dict)"
  by (simp add: envelope_from_bytes_def envelope_from_bytes_on_def)

text \<open>
  \<open>new_envelope\<close>; \<open>fresh_id\<close> and \<open>now\<close> are what the default factories \<open>uuid4\<close> and
  \<open>datetime.now(tz=UTC)\<close> return.
\<close>

definition new_envelope ::
  "128 word \<Rightarrow> py_datetime \<Rightarrow> string \<Rightarrow> (string, pyval) dict \<Rightarrow> string \<Rightarrow> string \<Rightarrow> provenance \<Rightarrow>
     (string, pyval) dict option \<Rightarrow> string \<Rightarrow> 128 word option \<Rightarrow> py_datetime option \<Rightarrow>
     exn + event_envelope" where
  "new_envelope fresh_id now event_type payload producer_id idempotency_key prov trace_context
     event_version event_id produced_at =
     (if produced_at \<noteq> None \<and> dt_offset (the produced_at) = None
      then Inl (value_error (''produced_at must be timezone-aware; the envelope timestamp is '' @
             ''an aware UTC instant (PRD '' @ [CHR 0xA7] @ ''7b `produced_at` is a timestamptz).''))
      else Inr
        \<lparr>env_event_type = PStr event_type, env_event_version = PStr event_version,
         env_producer_id = PStr producer_id, env_idempotency_key = PStr idempotency_key,
         env_provenance = prov, env_payload = PDict payload,
         env_trace_context = (case trace_context of None \<Rightarrow> [] | Some d \<Rightarrow> d),
         env_event_id = (case event_id of None \<Rightarrow> fresh_id | Some i \<Rightarrow> i),
         env_produced_at = (case produced_at of None \<Rightarrow> now | Some t \<Rightarrow> t)\<rparr>)"

subsection \<open>Lemmas\<close>

text \<open>A value \<open>json\<close> renders and reads back unchanged.\<close>

abbreviation json_ok :: "pyval \<Rightarrow> bool" where
  "json_ok v \<equiv> jsonable v \<and> wf_val v"

definition provenance_ok :: "provenance \<Rightarrow> bool" where
  "provenance_ok p \<longleftrightarrow> json_ok (prov_source p) \<and> json_ok (prov_method p) \<and> json_ok (prov_contributor p)"

definition envelope_ok :: "event_envelope \<Rightarrow> bool" where
  "envelope_ok e \<longleftrightarrow>
     json_ok (env_event_type e) \<and> json_ok (env_event_version e) \<and> json_ok (env_producer_id e) \<and>
     json_ok (env_idempotency_key e) \<and> provenance_ok (env_provenance e) \<and> json_ok (env_payload e) \<and>
     json_ok (PDict (env_trace_context e)) \<and> wf_datetime (env_produced_at e)"

lemma getitem_PDict [simp]:
  "getitem (PDict d) k = (case map_of d k of None \<Rightarrow> Inl (Exn (Other KeyError) (py_repr k)) | Some v \<Rightarrow> Inr v)"
  by (simp add: getitem_def)

lemma getitem_Inr: "getitem data k = Inr v \<longleftrightarrow> (\<exists>d. data = PDict d \<and> map_of d k = Some v)"
  by (auto simp: getitem_def split: pyval.splits option.splits)

lemma get_method_PDict [simp]:
  "get_method (PDict d) k = Inr (case map_of d k of None \<Rightarrow> PNone | Some v \<Rightarrow> v)"
  by (simp add: get_method_def)

lemma provenance_round_trip [simp]: "provenance_from_dict (provenance_to_dict p) = Inr p"
  by (simp add: provenance_from_dict_def provenance_to_dict_def)

lemma provenance_from_dict_Inr:
  "provenance_from_dict data = Inr p \<longleftrightarrow> (\<exists>d. data = PDict d \<and>
     map_of d ''source'' = Some (prov_source p) \<and> map_of d ''method'' = Some (prov_method p) \<and>
     prov_contributor p = (case map_of d ''contributor_identity'' of None \<Rightarrow> PNone | Some v \<Rightarrow> v))"
  by (cases p) (auto simp: provenance_from_dict_def getitem_Inr split: option.splits)

lemma uuid_value_Inr: "uuid_value v = Inr u \<longleftrightarrow> (\<exists>s. v = PStr s \<and> parse_uuid s = Inr u)"
  by (cases v) (simp_all add: uuid_value_def)

lemma datetime_value_Inr: "datetime_value v = Inr t \<longleftrightarrow> (\<exists>s. v = PStr s \<and> fromisoformat s = Inr t)"
  by (cases v) (simp_all add: datetime_value_def)

lemma dict_or_empty_PNone [simp]: "dict_or_empty PNone = Inr []"
  by (simp add: dict_or_empty_def)

lemma envelope_dict_round_trip:
  "wf_datetime (env_produced_at e) \<Longrightarrow> envelope_from_dict (envelope_to_dict e) = Inr e"
  by (simp add: envelope_from_dict_def envelope_to_dict_def uuid_value_def uuid_round_trip
      datetime_value_def fromisoformat_isoformat dict_or_empty_def)

lemma envelope_to_dict_ok:
  "envelope_ok e \<Longrightarrow> json_ok (envelope_to_dict e)"
  by (simp add: envelope_ok_def provenance_ok_def envelope_to_dict_def provenance_to_dict_def)

lemma printable_bytes: "printable s \<Longrightarrow> utf8_encode s = s \<and> utf8_decode s = Inr s"
  by (simp add: utf8_encode_ascii utf8_decode_ascii printable_is_ascii)

lemma envelope_to_bytes_ok:
  assumes "envelope_ok e"
  shows "envelope_to_bytes e = Inr (enc '','' '':'' (envelope_to_dict e))"
    and "envelope_from_bytes (enc '','' '':'' (envelope_to_dict e)) = Inr e"
proof -
  note ok = envelope_to_dict_ok [OF assms]
  have p: "printable (enc '','' '':'' (envelope_to_dict e))"
    by (rule printable_enc) (rule printable_words)+
  show "envelope_to_bytes e = Inr (enc '','' '':'' (envelope_to_dict e))"
    using ok printable_bytes [OF p] by (simp add: envelope_to_bytes_def json_dumps_compact_def)
  have "json_loads (enc '','' '':'' (envelope_to_dict e)) = Inr (envelope_to_dict e)"
    using ok by (intro json_loads_enc seps) simp_all
  then show "envelope_from_bytes (enc '','' '':'' (envelope_to_dict e)) = Inr e"
    using assms printable_bytes [OF p]
    by (simp add: envelope_from_bytes_eq envelope_dict_round_trip envelope_ok_def)
qed

subsection \<open>Properties\<close>

text \<open>
  C13: an envelope survives the wire: every envelope whose fields \<open>json\<close> can render, in whatever
  time zone it was produced and whatever its trace context and payload hold, is serialised
  without an exception to printable ASCII bytes, and decoding these gives the very same envelope.
\<close>

theorem envelope_round_trip:
  assumes "envelope_ok e"
  shows "\<exists>raw. envelope_to_bytes e = Inr raw \<and> printable raw \<and> envelope_from_bytes raw = Inr e"
  using envelope_to_bytes_ok [OF assms] printable_enc [OF printable_words(8,9)] by blast

definition demo_time :: py_datetime where
  "demo_time = \<lparr>dt_year = 2026, dt_month = 2, dt_day = 28, dt_hour = 23, dt_minute = 59, dt_second = 7,
     dt_micro = 1200, dt_offset = Some (- 19800000000)\<rparr>"

definition demo_envelope :: event_envelope where
  "demo_envelope = \<lparr>env_event_type = PStr ''t'', env_event_version = PStr ''1.0.0'', env_producer_id = PStr ''p'',
     env_idempotency_key = PStr ''k'',
     env_provenance = \<lparr>prov_source = PStr ''system'', prov_method = PStr ''dns'', prov_contributor = PNone\<rparr>,
     env_payload = PDict [(''a'', PList [PInt (- 3), PBool True])], env_trace_context = [(''traceparent'', PStr ''00'')],
     env_event_id = 42, env_produced_at = demo_time\<rparr>"

lemma demo_envelope_ok: "envelope_ok demo_envelope"
  by (simp add: envelope_ok_def demo_envelope_def demo_time_def provenance_ok_def wf_datetime_def
      days_in_month_def str_of_nat.simps)

theorem envelope_round_trip_witness:
  "\<exists>raw. envelope_to_bytes demo_envelope = Inr raw \<and> printable raw \<and>
     envelope_from_bytes raw = Inr demo_envelope"
  by (rule envelope_round_trip [OF demo_envelope_ok])

text \<open>
  Nothing required is ever defaulted: a decoded envelope comes from a dictionary that holds
  every required member, each field being that member's value (or what it parses to); only a
  missing trace context and a missing contributor identity are filled in, as empty and as
  \<open>None\<close>.
\<close>

theorem envelope_never_defaulted:
  assumes "envelope_from_dict data = Inr e"
  shows "\<exists>d p i t. data = PDict d \<and>
     map_of d ''event_type'' = Some (env_event_type e) \<and>
     map_of d ''event_version'' = Some (env_event_version e) \<and>
     map_of d ''producer_id'' = Some (env_producer_id e) \<and>
     map_of d ''idempotency_key'' = Some (env_idempotency_key e) \<and>
     map_of d ''payload'' = Some (env_payload e) \<and>
     map_of d ''event_id'' = Some (PStr i) \<and> parse_uuid i = Inr (env_event_id e) \<and>
     map_of d ''produced_at'' = Some (PStr t) \<and> fromisoformat t = Inr (env_produced_at e) \<and>
     map_of d ''provenance'' = Some (PDict p) \<and>
     map_of p ''source'' = Some (prov_source (env_provenance e)) \<and>
     map_of p ''method'' = Some (prov_method (env_provenance e)) \<and>
     prov_contributor (env_provenance e) =
       (case map_of p ''contributor_identity'' of None \<Rightarrow> PNone | Some v \<Rightarrow> v) \<and>
     (map_of d ''trace_context'' = None \<longrightarrow> env_trace_context e = [])"
  using assms
  by (auto simp: envelope_from_dict_def getitem_Inr provenance_from_dict_Inr uuid_value_Inr
      datetime_value_Inr)

theorem envelope_never_defaulted_witness:
  "\<exists>d. envelope_to_dict demo_envelope = PDict d \<and> map_of d ''payload'' = Some (env_payload demo_envelope)"
proof -
  have "envelope_from_dict (envelope_to_dict demo_envelope) = Inr demo_envelope"
    using demo_envelope_ok by (intro envelope_dict_round_trip) (simp add: envelope_ok_def)
  from envelope_never_defaulted [OF this] show ?thesis by blast
qed

end
