(* ===== verification/Schema_Registry.thy ===== *)
theory Schema_Registry
  imports Envelope Decode_Errors
begin

section \<open>The schema registry\<close>

text \<open>
  \<^verbatim>\<open>event-bus-sdk/trustlist_event_bus/schema_registry.py\<close> and \<^verbatim>\<open>schema_files.py\<close>.  The
  registry's HTTP client and \<open>jsonschema\<close> are not part of the repository: what the client answers
  at the moment of a call is an argument of the operation, and \<open>js_validate doc payload\<close> is what
  \<open>Draft202012Validator(doc).validate(payload)\<close> does, \<open>Inl\<close> the exception it raises.  The state is
  the cache of validators by event type, a validator being its schema document.
\<close>

subsection \<open>Dictionary keys of any type\<close>

text \<open>
  A key is hashed: a list or a dictionary cannot be, and \<open>True\<close> and \<open>1\<close>, \<open>False\<close> and \<open>0\<close> are
  the same key.
\<close>

definition hash_key :: "pyval \<Rightarrow> exn + pyval" where
  "hash_key v =
     (case v of
        PList _ \<Rightarrow> Inl (type_error ''unhashable type: list'')
      | PDict _ \<Rightarrow> Inl (type_error ''unhashable type: dict'')
      | PObj _ \<Rightarrow> Inl outside
      | PBool b \<Rightarrow> Inr (PInt (if b then 1 else 0))
      | _ \<Rightarrow> Inr v)"

text \<open>What a hashable value is in an f-string.\<close>

definition py_format :: "pyval \<Rightarrow> exn + string" where
  "py_format v =
     (case v of
        PNone \<Rightarrow> Inr ''None''
      | PBool b \<Rightarrow> Inr (if b then ''True'' else ''False'')
      | PInt i \<Rightarrow> Inr (str_of_int i)
      | PStr s \<Rightarrow> Inr s
      | PObj s \<Rightarrow> Inr s
      | _ \<Rightarrow> Inl outside)"

text \<open>\<open>{v!r}\<close> for a hashable value.\<close>

definition repr_value :: "pyval \<Rightarrow> string" where
  "repr_value v = (case v of PStr s \<Rightarrow> py_repr s | _ \<Rightarrow> (case py_format v of Inr s \<Rightarrow> s | Inl e \<Rightarrow> []))"

lemma hash_key_PStr [simp]: "hash_key (PStr s) = Inr (PStr s)"
  by (simp add: hash_key_def)

lemma py_format_PStr [simp]: "py_format (PStr s) = Inr s"
  by (simp add: py_format_def)

subsection \<open>The registry\<close>

record schema_registry =
  validator_cache :: "pyval \<rightharpoonup> pyval"

definition new_registry :: schema_registry where
  "new_registry = \<lparr>validator_cache = Map.empty\<rparr>"

definition subject_for :: "string \<Rightarrow> string" where
  "subject_for event_type = event_type @ ''-value''"

definition register ::
  "(string \<Rightarrow> string \<Rightarrow> exn + int) \<Rightarrow> string \<Rightarrow> pyval \<Rightarrow> exn + int" where
  "register client_register event_type schema =
     bindE (json_dumps schema) (\<lambda>schema_str.
       case client_register (subject_for event_type) schema_str of
         Inl exc \<Rightarrow>
           if catches [Other ConfluentSRError] exc
           then Inl (Exn (Bus SchemaRegistryError)
                  (''failed to register schema for event_type '' @ py_repr event_type @ '': '' @ exn_msg exc))
           else Inl exc
       | Inr schema_id \<Rightarrow> Inr schema_id)"

definition get_validator ::
  "(string \<Rightarrow> exn + string option) \<Rightarrow> pyval \<Rightarrow> schema_registry \<Rightarrow>
     (exn + pyval) \<times> schema_registry" where
  "get_validator client_latest event_type reg =
     (case hash_key event_type of
        Inl e \<Rightarrow> (Inl e, reg)
      | Inr key \<Rightarrow>
          (case validator_cache reg key of
             Some cached \<Rightarrow> (Inr cached, reg)
           | None \<Rightarrow>
               (case bindE (py_format event_type) (\<lambda>name. client_latest (subject_for name)) of
                  Inl exc \<Rightarrow>
                    (Inl (if catches [Other ConfluentSRError] exc
                          then Exn (Bus SchemaRegistryError)
                            (''no schema registered for event_type '' @ repr_value event_type @ '' (subject '' @
                             (case py_format event_type of Inr name \<Rightarrow> py_repr (subject_for name) | Inl e \<Rightarrow> []) @
                             ''): '' @ exn_msg exc)
                          else exc), reg)
                | Inr None \<Rightarrow>
                    (Inl (Exn (Bus SchemaRegistryError)
                       (''registry returned an empty schema body for event_type '' @ repr_value event_type @ ''.'')), reg)
                | Inr (Some schema_str) \<Rightarrow>
                    (case json_loads schema_str of
                       Inl e \<Rightarrow> (Inl e, reg)
                     | Inr schema_doc \<Rightarrow>
                         (Inr schema_doc,
                          reg\<lparr>validator_cache := (validator_cache reg)(key \<mapsto> schema_doc)\<rparr>)))))"

definition validate ::
  "(pyval \<Rightarrow> pyval \<Rightarrow> exn + unit) \<Rightarrow> (string \<Rightarrow> exn + string option) \<Rightarrow> pyval \<Rightarrow> pyval \<Rightarrow>
     schema_registry \<Rightarrow> (exn + unit) \<times> schema_registry" where
  "validate js_validate client_latest event_type payload =
     andthen (get_validator client_latest event_type) (\<lambda>validator reg.
       case js_validate validator payload of
         Inl exc \<Rightarrow>
           (Inl (if catches [Other JsonSchemaValidationError] exc
                 then Exn (Bus SchemaValidationError)
                   (''payload for event_type '' @ repr_value event_type @ '' failed schema validation: '' @ exn_msg exc)
                 else exc), reg)
       | Inr u \<Rightarrow> (Inr (), reg))"

subsection \<open>The committed schema files\<close>

definition schema_suffix :: string where
  "schema_suffix = ''.schema.json''"

definition ends_with :: "string \<Rightarrow> string \<Rightarrow> bool" where
  "ends_with suf s \<longleftrightarrow> length suf \<le> length s \<and> drop (length s - length suf) s = suf"

text \<open>\<open>iter_schema_files\<close> on the file names of a directory.\<close>

definition iter_schema_files :: "string list \<Rightarrow> (string \<times> string) list" where
  "iter_schema_files names =
     map (\<lambda>name. (take (length name - length schema_suffix) name, name))
       (sort (filter (ends_with schema_suffix) names))"

definition load_schema :: "(string \<Rightarrow> exn + bytes) \<Rightarrow> string \<Rightarrow> exn + pyval" where
  "load_schema read_file path = bindE (bindE (read_file path) utf8_decode) json_loads"

definition register_all ::
  "(string \<Rightarrow> exn + bytes) \<Rightarrow> (string \<Rightarrow> string \<Rightarrow> exn + int) \<Rightarrow> string list \<Rightarrow>
     exn + (string, int) dict" where
  "register_all read_file client_register names =
     bindE (mapE (\<lambda>(event_type, path).
              bindE (load_schema read_file path) (\<lambda>schema.
              bindE (register client_register event_type schema) (\<lambda>i. Inr (event_type, i))))
            (iter_schema_files names))
       (\<lambda>pairs. Inr (dict_of pairs))"

subsection \<open>Lemmas\<close>

lemma get_validator_cases [case_names hit err fetched]:
  obtains doc where "get_validator latest et reg = (Inr doc, reg)"
      "\<exists>key. hash_key et = Inr key \<and> validator_cache reg key = Some doc"
  | e where "get_validator latest et reg = (Inl e, reg)"
  | key name text_of doc where "hash_key et = Inr key" "validator_cache reg key = None"
      "py_format et = Inr name" "latest (subject_for name) = Inr (Some text_of)" "json_loads text_of = Inr doc"
      "get_validator latest et reg = (Inr doc, reg\<lparr>validator_cache := (validator_cache reg)(key \<mapsto> doc)\<rparr>)"
proof (cases "hash_key et")
  case (Inl e)
  with that(2) show ?thesis by (simp add: get_validator_def)
next
  case key: (Inr key)
  show ?thesis
  proof (cases "validator_cache reg key")
    case (Some doc)
    with key that(1) show ?thesis by (simp add: get_validator_def)
  next
    case None
    show ?thesis
    proof (cases "bindE (py_format et) (\<lambda>name. latest (subject_for name))")
      case (Inl e)
      with key None that(2) show ?thesis by (simp add: get_validator_def)
    next
      case fetched: (Inr r)
      then obtain name where name: "py_format et = Inr name" "latest (subject_for name) = Inr r" by auto
      show ?thesis
      proof (cases r)
        case None
        with key \<open>validator_cache reg key = None\<close> fetched that(2) show ?thesis
          by (simp add: get_validator_def del: bindE_eq_Inr)
      next
        case (Some body)
        show ?thesis
        proof (cases "json_loads body")
          case (Inl e)
          with key \<open>validator_cache reg key = None\<close> fetched Some that(2) show ?thesis
            by (simp add: get_validator_def del: bindE_eq_Inr)
        next
          case (Inr doc)
          with key \<open>validator_cache reg key = None\<close> fetched Some name show ?thesis
            by (intro that(3) [of key name body doc]) (simp_all add: get_validator_def del: bindE_eq_Inr)
        qed
      qed
    qed
  qed
qed

text \<open>A validator, once cached, stays the validator of its event type.\<close>

lemma get_validator_keeps:
  assumes "validator_cache reg k = Some doc"
  shows "validator_cache (snd (get_validator latest et reg)) k = Some doc"
  using assms by (cases rule: get_validator_cases [of latest et reg]) auto

lemma get_validator_caches:
  assumes "get_validator latest et reg = (Inr doc, reg')"
  shows "\<exists>key. hash_key et = Inr key \<and> validator_cache reg' key = Some doc"
  using assms by (cases rule: get_validator_cases [of latest et reg]) auto

lemma get_validator_hit:
  "hash_key et = Inr key \<Longrightarrow> validator_cache reg key = Some doc \<Longrightarrow> get_validator latest et reg = (Inr doc, reg)"
  by (simp add: get_validator_def)

lemma validate_keeps:
  "validator_cache reg k = Some doc \<Longrightarrow>
     validator_cache (snd (validate js latest et payload reg)) k = Some doc"
  using get_validator_keeps [of reg k doc latest et]
  by (auto simp: validate_def andthen_def split: prod.split sum.split)

text \<open>A payload passes only against the schema of its event type, which is then cached.\<close>

lemma validate_Inr:
  "validate js latest et payload reg = (Inr u, reg') \<Longrightarrow>
     \<exists>key doc. hash_key et = Inr key \<and> validator_cache reg' key = Some doc \<and> js doc payload = Inr ()"
  using get_validator_caches [of latest et reg]
  by (auto simp: validate_def andthen_def split: prod.splits sum.splits)

lemma ends_with_append [simp]: "ends_with suf (s @ suf)"
  by (simp add: ends_with_def)

lemma ends_with_iff: "ends_with suf s \<longleftrightarrow> (\<exists>p. s = p @ suf)"
  by (auto simp: ends_with_def) (metis append_take_drop_id)

subsection \<open>Properties\<close>

text \<open>
  A schema is fetched once: after a validator was obtained for an event type, no call on the
  same registry, whatever is validated in between and whatever the remote registry would answer
  by then, gets another one, and the remote is not asked again.
\<close>

theorem validator_fetched_once:
  assumes "get_validator latest et reg = (Inr doc, reg1)"
    and "reg2 = fold (\<lambda>(js, l, e, p) r. snd (validate js l e p r)) calls reg1"
  shows "get_validator latest' et reg2 = (Inr doc, reg2)"
proof -
  from get_validator_caches [OF assms(1)] obtain key where
    key: "hash_key et = Inr key" and "validator_cache reg1 key = Some doc" by blast
  then have "validator_cache (fold (\<lambda>(js, l, e, p) r. snd (validate js l e p r)) calls reg1) key = Some doc"
    by (induction calls arbitrary: reg1) (auto simp: validate_keeps)
  with key assms(2) show ?thesis by (simp add: get_validator_hit)
qed

theorem validator_fetched_once_witness:
  "get_validator (\<lambda>_. Inr (Some ''false'')) (PStr ''t'')
     (snd (validate (\<lambda>_ _. Inr ()) (\<lambda>_. Inr None) (PStr ''u'') PNone
        (new_registry\<lparr>validator_cache := [PStr ''t'' \<mapsto> PBool True]\<rparr>)))
   = (Inr (PBool True), snd (validate (\<lambda>_ _. Inr ()) (\<lambda>_. Inr None) (PStr ''u'') PNone
        (new_registry\<lparr>validator_cache := [PStr ''t'' \<mapsto> PBool True]\<rparr>)))"
proof -
  have text_parse: "json_loads ''true'' = Inr (PBool True)" by code_simp
  have "get_validator (\<lambda>s. Inr (Some ''true'')) (PStr ''t'') new_registry =
      (Inr (PBool True), new_registry\<lparr>validator_cache := [PStr ''t'' \<mapsto> PBool True]\<rparr>)"
    by (simp add: get_validator_def new_registry_def text_parse)
  from validator_fetched_once [OF this, of _ "[(\<lambda>_ _. Inr (), \<lambda>_. Inr None, PStr ''u'', PNone)]"]
  show ?thesis by simp
qed

lemma mapE_Inr_set:
  "mapE f xs = Inr ys \<Longrightarrow> y \<in> set ys \<longleftrightarrow> (\<exists>x \<in> set xs. f x = Inr y)"
  by (induction xs arbitrary: ys) auto

lemma mapE_Inl: "mapE f xs = Inl e \<Longrightarrow> \<exists>x \<in> set xs. f x = Inl e"
  by (induction xs) (auto simp: bindE_eq_Inl)

lemma update_subset: "set (AList.update k v d) \<subseteq> insert (k, v) (set d)"
  by (induction d) auto

lemma dict_of_subset: "set (dict_of kvs) \<subseteq> set kvs"
proof -
  have "set (foldl (\<lambda>d (k, v). AList.update k v d) d kvs) \<subseteq> set d \<union> set kvs" for d :: "('a, 'b) dict"
  proof (induction kvs arbitrary: d)
    case (Cons p kvs)
    obtain k v where "p = (k, v)" by (cases p)
    then show ?case using Cons.IH [of "AList.update k v d"] update_subset [of k v d] by auto
  qed simp
  from this [of "[]"] show ?thesis by (simp add: dict_of_def)
qed

lemma iter_schema_files_iff:
  "(et, path) \<in> set (iter_schema_files names) \<longleftrightarrow> path \<in> set names \<and> path = et @ schema_suffix"
proof -
  have "(et, path) = (take (length name - length schema_suffix) name, name) \<and> ends_with schema_suffix name
      \<longleftrightarrow> path = name \<and> name = et @ schema_suffix" for name
    by (auto simp: ends_with_iff)
  then show ?thesis by (auto simp: iter_schema_files_def image_iff)
qed

lemma Bex_schema_files:
  "(\<exists>x \<in> set (iter_schema_files names). P x) \<longleftrightarrow>
     (\<exists>et. et @ schema_suffix \<in> set names \<and> P (et, et @ schema_suffix))"
  (is "?l \<longleftrightarrow> ?r")
proof
  assume ?l
  then obtain et path where "(et, path) \<in> set (iter_schema_files names)" "P (et, path)"
    by (metis surj_pair)
  then show ?r by (auto simp: iter_schema_files_iff)
next
  assume ?r
  then obtain et where et: "et @ schema_suffix \<in> set names" "P (et, et @ schema_suffix)" by blast
  then have "(et, et @ schema_suffix) \<in> set (iter_schema_files names)"
    by (simp add: iter_schema_files_iff)
  with et(2) show ?l by blast
qed

lemma mapE_Inr_all: "mapE f xs = Inr ys \<Longrightarrow> x \<in> set xs \<Longrightarrow> \<exists>y. f x = Inr y"
  by (induction xs arbitrary: ys) auto

lemma register_Inr:
  "register client et schema = Inr i \<Longrightarrow> client (subject_for et) (enc '', '' '': '' schema) = Inr i"
  by (auto simp: register_def json_dumps_def split: if_splits sum.splits)

text \<open>
  \<open>register_all\<close> covers the directory: when it returns, the event types of its result are
  exactly the file names ending in \<open>.schema.json\<close> without that suffix, and the id of each is what
  the remote registry returned for that file's own schema under that event type's subject; when
  it raises, the exception is that of reading, parsing or registering one of these files.
\<close>

theorem register_all_covers:
  "case register_all read_file client names of
     Inr d \<Rightarrow> fst ` set d = {et. et @ schema_suffix \<in> set names} \<and>
       set d \<subseteq> {(et, i). \<exists>schema. load_schema read_file (et @ schema_suffix) = Inr schema \<and>
          client (subject_for et) (enc '', '' '': '' schema) = Inr i}
   | Inl e \<Rightarrow> \<exists>et. et @ schema_suffix \<in> set names \<and>
       bindE (load_schema read_file (et @ schema_suffix)) (register client et) = Inl e"
proof -
  let ?f = "\<lambda>(et, path). bindE (load_schema read_file path) (\<lambda>schema.
      bindE (register client et schema) (\<lambda>i. Inr (et, i)))"
  show ?thesis
  proof (cases "mapE ?f (iter_schema_files names)")
    case (Inl e)
    from mapE_Inl [OF this] obtain et path where "(et, path) \<in> set (iter_schema_files names)"
        "?f (et, path) = Inl e" by auto
    with Inl show ?thesis
      by (auto simp: register_all_def iter_schema_files_iff bindE_eq_Inl intro!: exI [of _ et])
  next
    case (Inr pairs)
    have pairs: "(et, i) \<in> set pairs \<longleftrightarrow> et @ schema_suffix \<in> set names \<and>
        (\<exists>schema. load_schema read_file (et @ schema_suffix) = Inr schema \<and> register client et schema = Inr i)"
      for et i
      using mapE_Inr_set [OF Inr, of "(et, i)"] unfolding Bex_schema_files by auto
    have dom: "\<exists>i. (et, i) \<in> set pairs" if "et @ schema_suffix \<in> set names" for et
    proof -
      have "(et, et @ schema_suffix) \<in> set (iter_schema_files names)"
        using that by (simp add: iter_schema_files_iff)
      from mapE_Inr_all [OF Inr this] obtain y where "?f (et, et @ schema_suffix) = Inr y" ..
      then show ?thesis unfolding pairs using that by auto
    qed
    have "fst ` set pairs = {et. et @ schema_suffix \<in> set names}"
      using dom pairs by (force simp: image_iff)
    moreover have "set (dict_of pairs) \<subseteq> {(et, i). \<exists>schema.
        load_schema read_file (et @ schema_suffix) = Inr schema \<and>
        client (subject_for et) (enc '', '' '': '' schema) = Inr i}"
      using dict_of_subset [of pairs] pairs register_Inr by fast
    ultimately show ?thesis using Inr by (simp add: register_all_def)
  qed
qed

end
