(* ===== verification/Bus_Config.thy ===== *)
theory Bus_Config
  imports Errors Pystr
begin

section \<open>Event-bus configuration and topics\<close>

text \<open>
  \<^verbatim>\<open>event-bus-sdk/trustlist_event_bus/config.py\<close>: the connection settings read from the
  environment, a map from variable names to values; and \<^verbatim>\<open>admin.py\<close>: \<open>ensure_topic\<close>, where
  the broker's answer to the request is an argument.
\<close>

definition BROKERS_ENV :: string where
  "BROKERS_ENV = ''TRUSTLIST_EVENT_BUS_BROKERS''"

definition SCHEMA_REGISTRY_ENV :: string where
  "SCHEMA_REGISTRY_ENV = ''TRUSTLIST_SCHEMA_REGISTRY_URL''"

record bus_config =
  brokers :: string
  schema_registry_url :: string

definition env_get :: "(string \<rightharpoonup> string) \<Rightarrow> string \<Rightarrow> string" where
  "env_get environ k = (case environ k of None \<Rightarrow> [] | Some v \<Rightarrow> v)"

definition brokers_unset :: exn where
  "brokers_unset = value_error (BROKERS_ENV @ '' is unset; the event-bus SDK reads every '' @
     ''connection detail from the environment and never hard-codes '' @ ''a broker address.'')"

definition registry_unset :: exn where
  "registry_unset = value_error (SCHEMA_REGISTRY_ENV @ '' is unset; the event-bus SDK reads the '' @
     ''schema-registry URL from the environment.'')"

definition from_env :: "(string \<rightharpoonup> string) \<Rightarrow> exn + bus_config" where
  "from_env environ =
     (let brokers = str_strip (env_get environ BROKERS_ENV);
          registry = str_strip (env_get environ SCHEMA_REGISTRY_ENV)
      in if brokers = [] then Inl (brokers_unset)
         else if registry = [] then Inl (registry_unset)
         else Inr \<lparr>brokers = brokers, schema_registry_url = str_rstrip_char CHR ''/'' registry\<rparr>)"

text \<open>\<open>config or EventBusConfig.from_env()\<close>\<close>

definition resolve_config :: "(string \<rightharpoonup> string) \<Rightarrow> bus_config option \<Rightarrow> exn + bus_config" where
  "resolve_config environ config = (case config of Some c \<Rightarrow> Inr c | None \<Rightarrow> from_env environ)"

text \<open>\<open>create bootstrap topic partitions replication\<close> is the result of the creation future.\<close>

definition ensure_topic ::
  "(string \<rightharpoonup> string) \<Rightarrow> (string \<Rightarrow> string \<Rightarrow> int \<Rightarrow> int \<Rightarrow> exn + unit) \<Rightarrow> string \<Rightarrow>
     bus_config option \<Rightarrow> int \<Rightarrow> int \<Rightarrow> exn + unit" where
  "ensure_topic environ create topic config num_partitions replication_factor =
     bindE (resolve_config environ config) (\<lambda>resolved.
       case create (brokers resolved) topic num_partitions replication_factor of
         Inr u \<Rightarrow> Inr ()
       | Inl exc \<Rightarrow>
           if catches [Exception] exc
           then (if is_infix ''already exists'' (str_lower (exn_msg exc)) then Inr ()
                 else Inl (Exn (Bus EventBusError)
                   (''failed to create topic '' @ py_repr topic @ '': '' @ exn_msg exc)))
           else Inl exc)"

subsection \<open>Properties\<close>

lemma str_strip_blank: "str_strip s = [] \<longleftrightarrow> list_all is_space s"
proof
  assume "str_strip s = []"
  then have "\<forall>c \<in> set (dropWhile is_space s). is_space c" by (simp add: str_strip_def)
  then have "dropWhile is_space s = []"
    by (metis dropWhile_eq_Nil_conv hd_dropWhile hd_in_set)
  then show "list_all is_space s" by (simp add: list_all_iff)
next
  assume "list_all is_space s"
  then have "dropWhile is_space s = []" unfolding list_all_iff dropWhile_eq_Nil_conv .
  then show "str_strip s = []" by (simp only: str_strip_def rev.simps dropWhile.simps)
qed

text \<open>
  Configuration fails loudly: reading the settings succeeds exactly when both variables are
  set to something other than blanks, otherwise it is a \<open>ValueError\<close> that names the first
  variable missing; the broker list is never empty and the registry URL has no trailing slash.
\<close>

theorem from_env_spec:
  "case from_env environ of
     Inr c \<Rightarrow>
       \<not> list_all is_space (env_get environ BROKERS_ENV) \<and>
       \<not> list_all is_space (env_get environ SCHEMA_REGISTRY_ENV) \<and>
       brokers c = str_strip (env_get environ BROKERS_ENV) \<and> brokers c \<noteq> [] \<and>
       (schema_registry_url c = [] \<or> last (schema_registry_url c) \<noteq> CHR ''/'')
   | Inl e \<Rightarrow>
       e = (if list_all is_space (env_get environ BROKERS_ENV)
            then brokers_unset
            else registry_unset) \<and>
       (list_all is_space (env_get environ BROKERS_ENV) \<or>
        list_all is_space (env_get environ SCHEMA_REGISTRY_ENV))"
proof -
  have strip: "u = [] \<or> last u \<noteq> c" if "u = str_rstrip_char c s" for u c s
  proof (cases "dropWhile (\<lambda>x. x = c) (rev s)")
    case (Cons x xs)
    then have "x \<noteq> c" using hd_dropWhile [of "\<lambda>x. x = c" "rev s"] by simp
    with Cons that show ?thesis by (simp add: str_rstrip_char_def)
  qed (use that in \<open>simp add: str_rstrip_char_def\<close>)
  show ?thesis
    using strip [OF refl, of "CHR ''/''" "str_strip (env_get environ SCHEMA_REGISTRY_ENV)"]
    by (simp add: from_env_def Let_def str_strip_blank)
qed

text \<open>
  \<open>ensure_topic\<close> is idempotent and typed: with settings given, it returns exactly when the
  broker created the topic or answered that it already exists, and every other answer, of
  whatever exception class, is an \<open>EventBusError\<close>.
\<close>

theorem ensure_topic_spec:
  "case create (brokers c) topic n k of
     Inr u \<Rightarrow> ensure_topic environ create topic (Some c) n k = Inr ()
   | Inl exc \<Rightarrow>
       if is_infix ''already exists'' (str_lower (exn_msg exc))
       then ensure_topic environ create topic (Some c) n k = Inr ()
       else raises (ensure_topic environ create topic (Some c) n k) (Bus EventBusError)"
  by (simp add: ensure_topic_def resolve_config_def split: sum.split)

end
