(* ===== verification/Producer.thy ===== *)
theory Producer
  imports Schema_Registry Bus_Config
begin

section \<open>The event-bus producer\<close>

text \<open>
  \<^verbatim>\<open>event-bus-sdk/trustlist_event_bus/producer.py\<close>.  The Kafka client is not part of the repository:
  the state keeps the calls made to it, in order, and \<open>pr_send\<close> is what its \<open>produce\<close> does at
  this call, \<open>Inl\<close> the exception it raises.  The other members of \<open>produce_env\<close> are what the
  process supplies: the schema registry's answers and \<open>jsonschema\<close>, the carrier
  \<open>inject_trace_context\<close> fills, the fresh identifier and the clock.
\<close>

datatype producer_event =
    Sent string "bytes option" bytes "exn option"
  | Polled
  | Flushed

record producer =
  prod_id :: string
  prod_registry :: schema_registry
  prod_config :: "(string, pyval) dict"
  prod_calls :: "producer_event list"

record produce_env =
  pr_js :: "pyval \<Rightarrow> pyval \<Rightarrow> exn + unit"
  pr_latest :: "string \<Rightarrow> exn + string option"
  pr_carrier :: "(string, pyval) dict"
  pr_uuid :: "128 word"
  pr_now :: py_datetime
  pr_send :: "exn + unit"

definition QUEUE_FULL :: string where
  "QUEUE_FULL = ''_QUEUE_FULL''"

definition EventProducer ::
  "(string \<rightharpoonup> string) \<Rightarrow> string \<Rightarrow> bus_config option \<Rightarrow> schema_registry option \<Rightarrow>
     (string, pyval) dict option \<Rightarrow> exn + producer" where
  "EventProducer environ producer_id config registry extra_config =
     bindE (resolve_config environ config) (\<lambda>resolved.
       Inr \<lparr>prod_id = producer_id,
            prod_registry = (case registry of None \<Rightarrow> new_registry | Some r \<Rightarrow> r),
            prod_config = dict_of
              ([(''bootstrap.servers'', PStr (brokers resolved)),
                (''acks'', PStr ''all''),
                (''enable.idempotence'', PBool True)] @
               (case extra_config of None \<Rightarrow> [] | Some d \<Rightarrow> d)),
            prod_calls = []\<rparr>)"

definition message_key :: "string option \<Rightarrow> bytes option" where
  "message_key partition_key =
     (case partition_key of
        None \<Rightarrow> None
      | Some k \<Rightarrow> if k = [] then None else Some (utf8_encode k))"

definition call_client :: "producer_event \<Rightarrow> producer \<Rightarrow> producer" where
  "call_client ev p = p\<lparr>prod_calls := prod_calls p @ [ev]\<rparr>"

text \<open>The \<open>try\<close> block around the client's \<open>produce\<close>, serialisation included.\<close>

definition send_event ::
  "produce_env \<Rightarrow> string \<Rightarrow> string option \<Rightarrow> event_envelope \<Rightarrow> producer \<Rightarrow> (exn + unit) \<times> producer" where
  "send_event en topic partition_key envelope p =
     (case envelope_to_bytes envelope of
        Inl e \<Rightarrow> (Inl e, p)
      | Inr raw \<Rightarrow>
          (case pr_send en of
             Inr u \<Rightarrow> (Inr (), call_client (Sent topic (message_key partition_key) raw None) p)
           | Inl e \<Rightarrow> (Inl e, call_client (Sent topic (message_key partition_key) raw (Some e)) p)))"

text \<open>
  What the \<open>except\<close> clauses raise; the dash of the first message, which is past U+00FF, is written
  as brackets.
\<close>

definition publish_error :: "string \<Rightarrow> exn \<Rightarrow> exn" where
  "publish_error topic exc =
     (if catches [Other BufferError] exc
      then Exn (Bus BackPressureError) (''event-bus producer queue is full while producing to '' @
             py_repr topic @ ''; the bus is applying back-pressure. The caller '' @
             ''must degrade gracefully (the SDK does not block).'')
      else if catches [Other KafkaException] exc
      then (if is_infix QUEUE_FULL (exn_msg exc)
            then Exn (Bus BackPressureError) (''event-bus producer queue is full while producing to '' @
                   py_repr topic @ ''; the bus is applying back-pressure.'')
            else Exn (Bus ProduceError) (''failed to produce to '' @ py_repr topic @ '': '' @ exn_msg exc))
      else exc)"

definition produce ::
  "produce_env \<Rightarrow> string \<Rightarrow> (string, pyval) dict \<Rightarrow> string \<Rightarrow> string \<Rightarrow> provenance \<Rightarrow> string option \<Rightarrow>
     string option \<Rightarrow> bool \<Rightarrow> producer \<Rightarrow> (exn + event_envelope) \<times> producer" where
  "produce en topic payload event_type idempotency_key prov partition_key event_version flush p =
     (case validate (pr_js en) (pr_latest en) (PStr event_type) (PDict payload) (prod_registry p) of
        (Inl e, reg) \<Rightarrow> (Inl e, p\<lparr>prod_registry := reg\<rparr>)
      | (Inr u, reg) \<Rightarrow>
          (case new_envelope (pr_uuid en) (pr_now en) event_type payload (prod_id p) idempotency_key
                  prov (Some (pr_carrier en))
                  (case event_version of None \<Rightarrow> ''1.0.0'' | Some v \<Rightarrow> if v = [] then ''1.0.0'' else v)
                  None None of
             Inl e \<Rightarrow> (Inl e, p\<lparr>prod_registry := reg\<rparr>)
           | Inr envelope \<Rightarrow>
               (case send_event en topic partition_key envelope (p\<lparr>prod_registry := reg\<rparr>) of
                  (Inl exc, p') \<Rightarrow> (Inl (publish_error topic exc), p')
                | (Inr v, p') \<Rightarrow> (Inr envelope, call_client (if flush then Flushed else Polled) p'))))"

text \<open>\<open>flush\<close> and \<open>close\<close>; the number of messages left is the client's answer.\<close>

definition producer_flush :: "int \<Rightarrow> producer \<Rightarrow> int \<times> producer" where
  "producer_flush remaining p = (remaining, call_client Flushed p)"

definition producer_close :: "producer \<Rightarrow> producer" where
  "producer_close p = call_client Flushed p"

definition producer_enter :: "producer \<Rightarrow> producer" where
  "producer_enter p = p"

definition producer_exit :: "producer \<Rightarrow> producer" where
  "producer_exit p = producer_close p"

text \<open>\<open>with producer: ...\<close> around a body.\<close>

definition with_producer ::
  "(producer \<Rightarrow> (exn + 'a) \<times> producer) \<Rightarrow> producer \<Rightarrow> (exn + 'a) \<times> producer" where
  "with_producer body p = (case body (producer_enter p) of (r, p') \<Rightarrow> (r, producer_exit p'))"

text \<open>However the block ends, the client was told to flush after everything the body gave it.\<close>

lemma with_producer_flushes:
  "case with_producer body p of (r, p') \<Rightarrow>
     r = fst (body p) \<and> prod_calls p' = prod_calls (snd (body p)) @ [Flushed]"
  by (simp add: with_producer_def producer_enter_def producer_exit_def producer_close_def call_client_def
      split: prod.split)

subsection \<open>Lemmas\<close>

text \<open>The envelope \<open>produce\<close> builds.\<close>

definition produced_envelope ::
  "produce_env \<Rightarrow> (string, pyval) dict \<Rightarrow> string \<Rightarrow> string \<Rightarrow> provenance \<Rightarrow> string option \<Rightarrow> producer \<Rightarrow>
     event_envelope" where
  "produced_envelope en payload event_type idempotency_key prov event_version p =
     \<lparr>env_event_type = PStr event_type,
      env_event_version = PStr (case event_version of None \<Rightarrow> ''1.0.0'' | Some v \<Rightarrow> if v = [] then ''1.0.0'' else v),
      env_producer_id = PStr (prod_id p), env_idempotency_key = PStr idempotency_key,
      env_provenance = prov, env_payload = PDict payload, env_trace_context = pr_carrier en,
      env_event_id = pr_uuid en, env_produced_at = pr_now en\<rparr>"

lemma new_envelope_produced:
  "new_envelope (pr_uuid en) (pr_now en) et payload (prod_id p) key prov (Some (pr_carrier en))
     (case ver of None \<Rightarrow> ''1.0.0'' | Some v \<Rightarrow> if v = [] then ''1.0.0'' else v) None None =
   Inr (produced_envelope en payload et key prov ver p)"
  by (simp add: new_envelope_def produced_envelope_def)

lemma produce_eq:
  "produce en topic payload et key prov pk ver flush p =
     (case validate (pr_js en) (pr_latest en) (PStr et) (PDict payload) (prod_registry p) of
        (Inl e, reg) \<Rightarrow> (Inl e, p\<lparr>prod_registry := reg\<rparr>)
      | (Inr u, reg) \<Rightarrow>
          (case send_event en topic pk (produced_envelope en payload et key prov ver p) (p\<lparr>prod_registry := reg\<rparr>) of
             (Inl exc, p') \<Rightarrow> (Inl (publish_error topic exc), p')
           | (Inr v, p') \<Rightarrow> (Inr (produced_envelope en payload et key prov ver p),
                            call_client (if flush then Flushed else Polled) p')))"
proof (cases "validate (pr_js en) (pr_latest en) (PStr et) (PDict payload) (prod_registry p)")
  case (Pair v reg)
  then show ?thesis by (cases v) (simp_all add: produce_def new_envelope_produced)
qed

lemma publish_error_class:
  "exn_class (publish_error topic exc) =
     (if catches [Other BufferError] exc \<or> catches [Other KafkaException] exc \<and> is_infix QUEUE_FULL (exn_msg exc)
      then Bus BackPressureError
      else if catches [Other KafkaException] exc then Bus ProduceError
      else exn_class exc)"
  by (simp add: publish_error_def)

lemma produce_Inr:
  assumes "produce en topic payload et key prov pk ver flush p = (Inr e, p')"
  shows "e = produced_envelope en payload et key prov ver p \<and>
     (\<exists>raw. envelope_to_bytes e = Inr raw \<and>
        prod_calls p' = prod_calls p @ [Sent topic (message_key pk) raw None, if flush then Flushed else Polled])"
proof (cases "validate (pr_js en) (pr_latest en) (PStr et) (PDict payload) (prod_registry p)")
  case (Pair v reg)
  show ?thesis
  proof (cases v)
    case (Inl x)
    with Pair assms show ?thesis by (simp add: produce_eq)
  next
    case (Inr u)
    with Pair assms show ?thesis
      by (cases "envelope_to_bytes (produced_envelope en payload et key prov ver p)"; cases "pr_send en")
        (auto simp: produce_eq send_event_def call_client_def)
  qed
qed

subsection \<open>Properties\<close>

text \<open>
  C16: nothing invalid is published: \<open>produce\<close> hands the client at most one message, and only
  after the payload passed the schema of its event type; the message is the serialisation of the
  envelope it returns, keyed by the partition key; a failed validation makes no call at all, and
  an accepted message is followed by exactly one flush or poll, as asked.
\<close>

theorem produce_only_valid:
  "case produce en topic payload et key prov pk ver flush p of
     (r, p') \<Rightarrow>
       (prod_calls p' = prod_calls p \<and> isl r) \<or>
       (\<exists>raw doc. validator_cache (prod_registry p') (PStr et) = Some doc \<and>
          pr_js en doc (PDict payload) = Inr () \<and>
          envelope_to_bytes (produced_envelope en payload et key prov ver p) = Inr raw \<and>
          (case pr_send en of
             Inr u \<Rightarrow> r = Inr (produced_envelope en payload et key prov ver p) \<and>
               prod_calls p' = prod_calls p @
                 [Sent topic (message_key pk) raw None, if flush then Flushed else Polled]
           | Inl e \<Rightarrow> r = Inl (publish_error topic e) \<and>
               prod_calls p' = prod_calls p @ [Sent topic (message_key pk) raw (Some e)]))"
proof (cases "validate (pr_js en) (pr_latest en) (PStr et) (PDict payload) (prod_registry p)")
  case (Pair v reg)
  show ?thesis
  proof (cases v)
    case (Inl e)
    with Pair show ?thesis by (simp add: produce_eq)
  next
    case (Inr u)
    with Pair validate_Inr obtain doc where "validator_cache reg (PStr et) = Some doc"
        "pr_js en doc (PDict payload) = Inr ()" by fastforce
    with Pair Inr show ?thesis
      by (auto simp: produce_eq send_event_def call_client_def split: sum.split)
  qed
qed

text \<open>
  Back-pressure is a typed error, never a silent block or a loss: when the client's queue is
  full, which it tells by a \<open>BufferError\<close> or by a \<open>KafkaException\<close> naming
  \<open>_QUEUE_FULL\<close>, \<open>produce\<close> raises \<open>BackPressureError\<close>; any other \<open>KafkaException\<close> is a
  \<open>ProduceError\<close>; both are \<open>EventBusError\<close>s, and in neither case is the client called again.
\<close>

theorem produce_back_pressure:
  assumes "validate (pr_js en) (pr_latest en) (PStr et) (PDict payload) (prod_registry p) = (Inr (), reg)"
    and "envelope_ok (produced_envelope en payload et key prov ver p)"
    and "pr_send en = Inl exc" and "exn_class exc \<in> {Other BufferError, Other KafkaException}"
  shows "case produce en topic payload et key prov pk ver flush p of
     (r, p') \<Rightarrow>
       raises r (if exn_class exc = Other BufferError \<or> is_infix QUEUE_FULL (exn_msg exc)
                 then Bus BackPressureError else Bus ProduceError) \<and>
       length (prod_calls p') = Suc (length (prod_calls p))"
proof -
  obtain raw where raw: "envelope_to_bytes (produced_envelope en payload et key prov ver p) = Inr raw"
    using envelope_to_bytes_ok(1) [OF assms(2)] by blast
  let ?p = "call_client (Sent topic (message_key pk) raw (Some exc)) (p\<lparr>prod_registry := reg\<rparr>)"
  have result: "produce en topic payload et key prov pk ver flush p = (Inl (publish_error topic exc), ?p)"
    by (simp add: produce_eq assms(1,3) send_event_def raw)
  have "catches [Other BufferError] exc \<longleftrightarrow> exn_class exc = Other BufferError"
      "catches [Other KafkaException] exc \<longleftrightarrow> exn_class exc = Other KafkaException"
    using assms(4) by (auto simp: catches_def)
  with assms(4) have "exn_class (publish_error topic exc) =
      (if exn_class exc = Other BufferError \<or> is_infix QUEUE_FULL (exn_msg exc)
       then Bus BackPressureError else Bus ProduceError)"
    unfolding publish_error_class by auto
  then show ?thesis by (simp add: result raises_def call_client_def)
qed

definition demo_produce_env :: "exn + unit \<Rightarrow> produce_env" where
  "demo_produce_env r = \<lparr>pr_js = (\<lambda>_ _. Inr ()), pr_latest = (\<lambda>_. Inr (Some ''true'')), pr_carrier = [],
     pr_uuid = 7, pr_now = demo_time, pr_send = r\<rparr>"

definition demo_producer :: producer where
  "demo_producer = \<lparr>prod_id = ''p1'', prod_registry = \<lparr>validator_cache = [PStr ''t'' \<mapsto> PBool True]\<rparr>,
     prod_config = [], prod_calls = []\<rparr>"

definition demo_provenance :: provenance where
  "demo_provenance = \<lparr>prov_source = PStr ''system'', prov_method = PStr ''dns'', prov_contributor = PNone\<rparr>"

lemma demo_validate:
  "validate (\<lambda>_ _. Inr ()) latest (PStr ''t'') v (prod_registry demo_producer) = (Inr (), prod_registry demo_producer)"
  by (simp add: validate_def demo_producer_def get_validator_def andthen_def)

lemma demo_produced_ok:
  "envelope_ok (produced_envelope (demo_produce_env r) [(''a'', PInt 1)] ''t'' ''k'' demo_provenance None demo_producer)"
  by (simp add: envelope_ok_def produced_envelope_def demo_produce_env_def demo_provenance_def
      provenance_ok_def demo_time_def wf_datetime_def days_in_month_def demo_producer_def str_of_nat.simps)

theorem produce_back_pressure_witness:
  "raises (fst (produce (demo_produce_env (Inl (Exn (Other KafkaException) ''code=_QUEUE_FULL''))) ''topic''
     [(''a'', PInt 1)] ''t'' ''k'' demo_provenance None None False demo_producer)) (Bus BackPressureError)"
proof -
  let ?exc = "Exn (Other KafkaException) ''code=_QUEUE_FULL''"
  let ?en = "demo_produce_env (Inl ?exc)"
  have env: "pr_js ?en = (\<lambda>_ _. Inr ())" "pr_send ?en = Inl ?exc" by (simp_all add: demo_produce_env_def)
  have full: "is_infix QUEUE_FULL (exn_msg ?exc)" by code_simp
  have kafka: "exn_class ?exc \<in> {Other BufferError, Other KafkaException}" by simp
  from produce_back_pressure [OF demo_validate [folded env(1)] demo_produced_ok env(2) kafka,
      where topic = "''topic''" and pk = None and flush = False] full
  show ?thesis by (simp only: case_prod_unfold exn.sel simp_thms if_True)
qed

end
