(* ===== verification/Dedup_Store.thy ===== *)
theory Dedup_Store
  imports Schema_Registry
begin

section \<open>The deduplication store\<close>

text \<open>
  The \<open>DedupStore\<close> protocol of \<^verbatim>\<open>event-bus-sdk/trustlist_event_bus/consumer.py\<close> as a locale of the
  laws the consumer relies on, and the default \<open>InMemoryDedupStore\<close> with its proof of them.
  Keys are what the wire holds, so they are hashed first (\<open>hash_key\<close>).  The store's
  \<open>OrderedDict\<close> is the list of its keys, the oldest first.
\<close>

subsection \<open>The interface\<close>

text \<open>\<open>members s\<close> is what the store remembers.\<close>

locale dedup_store =
  fixes seen_key :: "pyval \<Rightarrow> 's \<Rightarrow> (exn + bool) \<times> 's"
    and record_key :: "pyval \<Rightarrow> 's \<Rightarrow> (exn + unit) \<times> 's"
    and members :: "'s \<Rightarrow> pyval set"
    and store_ok :: "'s \<Rightarrow> bool"
  assumes unhashable: "hash_key v = Inl e \<Longrightarrow> seen_key v s = (Inl e, s) \<and> record_key v s = (Inl e, s)"
    and seen_result: "store_ok s \<Longrightarrow> hash_key v = Inr k \<Longrightarrow> fst (seen_key v s) = Inr (k \<in> members s)"
    and seen_members: "store_ok s \<Longrightarrow> members (snd (seen_key v s)) = members s"
    and seen_ok: "store_ok s \<Longrightarrow> store_ok (snd (seen_key v s))"
    and record_result: "store_ok s \<Longrightarrow> hash_key v = Inr k \<Longrightarrow> fst (record_key v s) = Inr ()"
    and record_member: "store_ok s \<Longrightarrow> hash_key v = Inr k \<Longrightarrow>
      k \<in> members (snd (record_key v s)) \<and> members (snd (record_key v s)) \<subseteq> insert k (members s)"
    and record_ok: "store_ok s \<Longrightarrow> store_ok (snd (record_key v s))"
begin

text \<open>What was just recorded is seen.\<close>

lemma seen_after_record:
  assumes "store_ok s" and "hash_key v = Inr k"
  shows "fst (seen_key v (snd (record_key v s))) = Inr True"
  using seen_result [OF record_ok [OF assms(1)] assms(2)] record_member [OF assms] by simp

lemma members_only_recorded:
  assumes "store_ok s"
  shows "members (snd (seen_key v s)) \<subseteq> members s"
    and "members (snd (record_key v s)) \<subseteq> members s \<union> {k. hash_key v = Inr k}"
  using seen_members [OF assms] record_member [OF assms, of v] unhashable [of v]
  by (cases "hash_key v"; auto)+

end

subsection \<open>The in-memory store\<close>

record lru_store =
  lru_capacity :: nat
  lru_keys :: "pyval list"

definition InMemoryDedupStore :: "int \<Rightarrow> exn + lru_store" where
  "InMemoryDedupStore capacity =
     (if capacity < 1 then Inl (value_error ''capacity must be at least 1'')
      else Inr \<lparr>lru_capacity = nat capacity, lru_keys = []\<rparr>)"

definition DEFAULT_CAPACITY :: int where
  "DEFAULT_CAPACITY = 100000"

definition move_to_end :: "pyval \<Rightarrow> pyval list \<Rightarrow> pyval list" where
  "move_to_end k ks = filter (\<lambda>x. x \<noteq> k) ks @ [k]"

text \<open>\<open>while len(self._keys) > self._capacity: self._keys.popitem(last=False)\<close>\<close>

function evict :: "nat \<Rightarrow> pyval list \<Rightarrow> pyval list" where
  "evict cap ks = (if cap < length ks then evict cap (tl ks) else ks)"
  by pat_completeness auto

termination
  by (relation "measure (\<lambda>(cap, ks). length ks)") auto

declare evict.simps [simp del]

definition lru_seen :: "pyval \<Rightarrow> lru_store \<Rightarrow> (exn + bool) \<times> lru_store" where
  "lru_seen v s =
     (case hash_key v of
        Inl e \<Rightarrow> (Inl e, s)
      | Inr k \<Rightarrow>
          if k \<in> set (lru_keys s) then (Inr True, s\<lparr>lru_keys := move_to_end k (lru_keys s)\<rparr>)
          else (Inr False, s))"

definition lru_record :: "pyval \<Rightarrow> lru_store \<Rightarrow> (exn + unit) \<times> lru_store" where
  "lru_record v s =
     (case hash_key v of
        Inl e \<Rightarrow> (Inl e, s)
      | Inr k \<Rightarrow> (Inr (), s\<lparr>lru_keys := evict (lru_capacity s) (move_to_end k (lru_keys s))\<rparr>))"

definition lru_ok :: "lru_store \<Rightarrow> bool" where
  "lru_ok s \<longleftrightarrow> 1 \<le> lru_capacity s \<and> length (lru_keys s) \<le> lru_capacity s \<and> distinct (lru_keys s)"

lemma evict_eq: "evict cap ks = drop (length ks - cap) ks"
proof (induction cap ks rule: evict.induct)
  case (1 cap ks)
  show ?case
  proof (cases "cap < length ks")
    case True
    then have "length ks - cap = Suc (length (tl ks) - cap)" by simp
    with 1 True show ?thesis by (subst evict.simps) (simp add: drop_Suc)
  next
    case False
    then show ?thesis by (subst evict.simps) simp
  qed
qed

lemma distinct_move [simp]: "distinct ks \<Longrightarrow> distinct (move_to_end k ks)"
  by (simp add: move_to_end_def)

lemma set_move [simp]: "set (move_to_end k ks) = insert k (set ks)"
  by (auto simp: move_to_end_def)

lemma length_move: "distinct ks \<Longrightarrow> length (move_to_end k ks) = (if k \<in> set ks then length ks else Suc (length ks))"
proof -
  assume d: "distinct ks"
  have "length (move_to_end k ks) = card (insert k (set ks))"
    using distinct_card [OF distinct_move [OF d, of k]] by simp
  with distinct_card [OF d] show ?thesis by (simp add: card_insert_if)
qed

lemma lru_record_keys:
  assumes "lru_ok s" and "hash_key v = Inr k"
  shows "lru_record v s = (Inr (), s\<lparr>lru_keys := drop (length (move_to_end k (lru_keys s)) - lru_capacity s)
           (filter (\<lambda>x. x \<noteq> k) (lru_keys s)) @ [k]\<rparr>)"
proof -
  have "length (move_to_end k (lru_keys s)) - lru_capacity s \<le> length (filter (\<lambda>x. x \<noteq> k) (lru_keys s))"
    using assms(1) by (auto simp: lru_ok_def move_to_end_def)
  then show ?thesis
    using assms(2) by (simp add: lru_record_def evict_eq) (simp add: move_to_end_def)
qed

lemma lru_record_ok: "lru_ok s \<Longrightarrow> lru_ok (snd (lru_record v s))"
  by (cases "hash_key v")
     (auto simp: lru_record_def evict_eq lru_ok_def)

lemma lru_seen_ok: "lru_ok s \<Longrightarrow> lru_ok (snd (lru_seen v s))"
  by (cases "hash_key v") (auto simp: lru_seen_def lru_ok_def length_move)

interpretation lru: dedup_store lru_seen lru_record "\<lambda>s. set (lru_keys s)" lru_ok
proof
  fix s v k
  assume ok: "lru_ok s" and key: "hash_key v = Inr k"
  show "k \<in> set (lru_keys (snd (lru_record v s))) \<and>
      set (lru_keys (snd (lru_record v s))) \<subseteq> insert k (set (lru_keys s))"
    using set_drop_subset unfolding lru_record_keys [OF ok key] by fastforce
next
  fix s v
  assume ok: "lru_ok s"
  then show "lru_ok (snd (lru_seen v s))" "lru_ok (snd (lru_record v s))"
    by (rule lru_seen_ok lru_record_ok)+
qed (auto simp: lru_seen_def lru_record_def split: sum.split)

lemma InMemoryDedupStore_ok: "InMemoryDedupStore capacity = Inr s \<Longrightarrow> lru_ok s"
  by (auto simp: InMemoryDedupStore_def lru_ok_def split: if_splits)

subsection \<open>The recency list it refines\<close>

text \<open>
  The abstract store never forgets: it is the list of all keys ever recorded, by last use, and
  remembers the last \<open>cap\<close> of them.
\<close>

datatype dedup_op = Seen pyval | Record pyval

fun run_dedup :: "dedup_op \<Rightarrow> lru_store \<Rightarrow> lru_store" where
  "run_dedup (Seen v) s = snd (lru_seen v s)"
| "run_dedup (Record v) s = snd (lru_record v s)"

definition recent :: "nat \<Rightarrow> 'a list \<Rightarrow> 'a list" where
  "recent cap h = drop (length h - cap) h"

fun spec_dedup :: "nat \<Rightarrow> dedup_op \<Rightarrow> pyval list \<Rightarrow> pyval list" where
  "spec_dedup cap (Seen v) h =
     (case hash_key v of
        Inl _ \<Rightarrow> h
      | Inr k \<Rightarrow> if k \<in> set (recent cap h) then move_to_end k h else h)"
| "spec_dedup cap (Record v) h =
     (case hash_key v of Inl _ \<Rightarrow> h | Inr k \<Rightarrow> move_to_end k h)"

lemma recent_append: "recent cap (h @ [k]) = (if cap = 0 then [] else recent (cap - 1) h @ [k])"
  by (cases cap) (simp_all add: recent_def)

lemma filter_recent_absent: "k \<notin> set (recent cap h) \<Longrightarrow> recent c (filter (\<lambda>x. x \<noteq> k) h) = recent c h"
  if "c \<le> cap"
proof -
  assume absent: "k \<notin> set (recent cap h)"
  have h: "h = take (length h - c) h @ recent c h" by (simp add: recent_def)
  have "set (recent c h) \<subseteq> set (recent cap h)"
    using that by (simp add: recent_def set_drop_subset_set_drop)
  with absent have "filter (\<lambda>x. x \<noteq> k) (recent c h) = recent c h" by (auto simp: filter_id_conv)
  then have f: "filter (\<lambda>x. x \<noteq> k) h = filter (\<lambda>x. x \<noteq> k) (take (length h - c) h) @ recent c h"
    by (subst h) simp
  show ?thesis
  proof (cases "c \<le> length h")
    case True
    then have "length (recent c h) = c" by (simp add: recent_def)
    then show ?thesis unfolding f by (simp add: recent_def [of c "_ @ _"])
  next
    case False
    then have "recent c h = h" by (simp add: recent_def)
    with f False show ?thesis by (simp add: recent_def)
  qed
qed

lemma recent_present:
  assumes "distinct (h :: pyval list)" and "k \<in> set (recent cap h)"
  shows "recent (cap - 1) (filter (\<lambda>x. x \<noteq> k) h) = filter (\<lambda>x. x \<noteq> k) (recent cap h)"
proof -
  define p w where "p = take (length h - cap) h" and "w = recent cap h"
  have h: "h = p @ w" by (simp add: p_def w_def recent_def)
  have "k \<in> set w" using assms(2) by (simp only: w_def)
  moreover have dist: "distinct (p @ w)" using assms(1) by (simp only: h [symmetric])
  ultimately have "filter (\<lambda>x. x \<noteq> k) p = p" by (auto simp: filter_id_conv)
  then have fh: "filter (\<lambda>x. x \<noteq> k) h = p @ filter (\<lambda>x. x \<noteq> k) w"
    using h by (metis filter_append)
  have "distinct w" using dist by simp
  then have len: "length (filter (\<lambda>x. x \<noteq> k) w) = length w - 1"
    using length_move [of w k] assms(2) by (simp add: w_def move_to_end_def)
  show ?thesis
  proof (cases "cap \<le> length h")
    case True
    then have "length w = cap" by (simp add: w_def recent_def)
    with len show ?thesis unfolding w_def [symmetric] fh by (simp add: recent_def)
  next
    case False
    then have "p = []" by (simp add: p_def)
    with h have "length w < cap" using False by simp
    with len \<open>p = []\<close> show ?thesis unfolding w_def [symmetric] fh by (simp add: recent_def)
  qed
qed

lemma recent_move_present:
  assumes "distinct h" and "k \<in> set (recent cap h)"
  shows "recent cap (move_to_end k h) = move_to_end k (recent cap h)"
proof -
  have "cap \<noteq> 0" using assms(2) by (cases cap) (simp_all add: recent_def)
  with recent_present [OF assms] show ?thesis by (simp add: move_to_end_def recent_append)
qed

lemma recent_recent: "c \<le> cap \<Longrightarrow> recent c (recent cap h) = recent c h"
  by (cases "cap \<le> length h") (simp_all add: recent_def)

lemma recent_move_absent:
  assumes "1 \<le> cap" and "k \<notin> set (recent cap h)"
  shows "recent cap (move_to_end k h) = recent cap (move_to_end k (recent cap h))"
  using assms filter_recent_absent [of "cap - 1" cap k h]
    filter_recent_absent [of "cap - 1" cap k "recent cap h"]
  by (simp add: move_to_end_def recent_append recent_recent)

lemma run_dedup_step:
  assumes "lru_keys s = recent (lru_capacity s) h" and "distinct h" and "1 \<le> lru_capacity s"
  shows "lru_keys (run_dedup op s) = recent (lru_capacity s) (spec_dedup (lru_capacity s) op h)"
    and "lru_capacity (run_dedup op s) = lru_capacity s"
    and "distinct (spec_dedup (lru_capacity s) op h)"
proof -
  have evict: "evict cap ks = recent cap ks" for cap ks by (simp add: evict_eq recent_def)
  show "lru_capacity (run_dedup op s) = lru_capacity s"
    by (cases op) (auto simp: lru_seen_def lru_record_def split: sum.split)
  show "distinct (spec_dedup (lru_capacity s) op h)"
    using assms(2) by (cases op) (auto split: sum.split)
  show "lru_keys (run_dedup op s) = recent (lru_capacity s) (spec_dedup (lru_capacity s) op h)"
  proof (cases op)
    case (Seen v)
    then show ?thesis
      using assms recent_move_present [OF assms(2)] by (auto simp: lru_seen_def split: sum.split)
  next
    case (Record v)
    show ?thesis
    proof (cases "hash_key v")
      case (Inr k)
      have "recent (lru_capacity s) (move_to_end k (recent (lru_capacity s) h)) =
          recent (lru_capacity s) (move_to_end k h)"
      proof (cases "k \<in> set (recent (lru_capacity s) h)")
        case True
        then show ?thesis
          using recent_move_present [OF assms(2) True] by (metis order_refl recent_recent)
      next
        case False
        with recent_move_absent [OF assms(3) False] show ?thesis by simp
      qed
      with Inr Record assms(1) show ?thesis by (simp add: lru_record_def evict)
    qed (use Record assms in \<open>simp add: lru_record_def\<close>)
  qed
qed

subsection \<open>Properties\<close>

text \<open>
  C12: the in-memory store refines the recency list: after any sequence of lookups and recordings
  on a fresh store, hits and misses alike, the keys it holds are, in order, the last
  \<open>capacity\<close> entries of the unbounded list of all keys ordered by last use.
\<close>

theorem lru_refines_recency_list:
  assumes "InMemoryDedupStore capacity = Inr s"
  shows "lru_keys (fold run_dedup ops s) =
     recent (nat capacity) (fold (spec_dedup (nat capacity)) ops [])"
proof -
  have "lru_keys (fold run_dedup ops t) = recent (lru_capacity t) (fold (spec_dedup (lru_capacity t)) ops h)"
    if "lru_keys t = recent (lru_capacity t) h" "distinct h" "1 \<le> lru_capacity t" for t h
    using that
  proof (induction ops arbitrary: t h)
    case (Cons op ops)
    note step = run_dedup_step [OF Cons.prems, of op]
    show ?case using Cons.IH [OF step(1) [folded step(2)] _ _] step Cons.prems(3)
      by (simp add: step(2))
  qed simp
  from this [of s "[]"] assms show ?thesis
    by (auto simp: InMemoryDedupStore_def recent_def split: if_splits)
qed

theorem lru_refines_recency_list_witness:
  "lru_keys (fold run_dedup [Record (PStr ''a''), Record (PStr ''b''), Seen (PStr ''a''), Record (PStr ''c'')]
     \<lparr>lru_capacity = 2, lru_keys = []\<rparr>) = [PStr ''a'', PStr ''c'']"
proof -
  have "InMemoryDedupStore 2 = Inr \<lparr>lru_capacity = 2, lru_keys = []\<rparr>" by (simp add: InMemoryDedupStore_def)
  from lru_refines_recency_list [OF this, of "[Record (PStr ''a''), Record (PStr ''b''), Seen (PStr ''a''), Record (PStr ''c'')]"]
  show ?thesis by (simp add: move_to_end_def recent_def)
qed

end
