(* ===== verification/Consumer.thy ===== *)
theory Consumer
  imports Dedup_Store Bus_Config
begin

section \<open>The event-bus consumer\<close>

text \<open>
  \<open>EventConsumer\<close> of \<^verbatim>\<open>event-bus-sdk/trustlist_event_bus/consumer.py\<close>, over any deduplication store
  given by its two operations.  The Kafka client and the handler are not part of the repository:
  what they do in one call of \<open>poll_once\<close> is its \<open>poll_env\<close> (the message polled or the exception
  raised, the handler's outcome on an envelope, the commit's outcome), and the state keeps the
  calls made to them, in order.
\<close>

record message =
  msg_error :: "(bool \<times> string) option"
  msg_value :: "bytes option"
  msg_position :: "string \<times> int \<times> int"

text \<open>
  \<open>msg_error\<close> is whether the error's code is \<open>_PARTITION_EOF\<close>, and its text;
  \<open>msg_position\<close> the topic, partition and offset.
\<close>

datatype consumer_event =
    Handled event_envelope "exn option"
  | Committed message "exn option"
  | Sought "string \<times> int \<times> int"

text \<open>
  The last is the client's \<open>seek\<close>, the one call that moves its position back; it is here so that what the client
  delivers next can be told from the calls made.
\<close>

record 'd consumer =
  group_id :: string
  con_config :: "(string, pyval) dict"
  con_registry :: schema_registry
  dedup :: 'd
  con_topics :: "string list"
  is_closed :: bool
  con_calls :: "consumer_event list"

record poll_env =
  pe_poll :: "exn + message option"
  pe_js :: "pyval \<Rightarrow> pyval \<Rightarrow> exn + unit"
  pe_latest :: "string \<Rightarrow> exn + string option"
  pe_handler :: "event_envelope \<Rightarrow> exn + unit"
  pe_commit :: "exn + unit"

definition EventConsumer ::
  "(string \<rightharpoonup> string) \<Rightarrow> string \<Rightarrow> bus_config option \<Rightarrow> schema_registry option \<Rightarrow> 'd \<Rightarrow>
     (string, pyval) dict option \<Rightarrow> exn + 'd consumer" where
  "EventConsumer environ gid config registry store extra_config =
     bindE (resolve_config environ config) (\<lambda>resolved.
       Inr \<lparr>group_id = gid,
            con_config = dict_of
              ([(''bootstrap.servers'', PStr (brokers resolved)),
                (''group.id'', PStr gid),
                (''enable.auto.commit'', PBool False),
                (''auto.offset.reset'', PStr ''earliest'')] @
               (case extra_config of None \<Rightarrow> [] | Some d \<Rightarrow> d)),
            con_registry = (case registry of None \<Rightarrow> new_registry | Some r \<Rightarrow> r),
            dedup = store, con_topics = [], is_closed = False, con_calls = []\<rparr>)"

text \<open>\<open>con_topics\<close> is the client's subscription, which a new one replaces.\<close>

definition consumer_subscribe :: "string list \<Rightarrow> 'd consumer \<Rightarrow> 'd consumer" where
  "consumer_subscribe topics c = c\<lparr>con_topics := topics\<rparr>"

definition event_bus_error :: "string \<Rightarrow> exn" where
  "event_bus_error = Exn (Bus EventBusError)"

definition decode_on_stack :: "(string \<Rightarrow> bool) \<Rightarrow> message \<Rightarrow> exn + event_envelope" where
  "decode_on_stack overflow m =
     (case msg_value m of
        None \<Rightarrow> Inl (event_bus_error ''event-bus message has an empty body; cannot decode an envelope.'')
      | Some raw \<Rightarrow>
          (case envelope_from_bytes_on overflow raw of
             Inr e \<Rightarrow> Inr e
           | Inl exc \<Rightarrow>
               if catches [Other ValueError, Other KeyError] exc
               then Inl (event_bus_error (''event-bus message is not a valid envelope: '' @ exn_msg exc))
               else Inl exc))"

text \<open>
  \<open>poll_once\<close> below is over bodies whose nesting the stack can follow.  A body that it cannot raises as a poll
  that raises does, before the consumer's state is touched, which is the case \<open>pe_poll = Inl recursion_error\<close>.
\<close>

definition decode :: "message \<Rightarrow> exn + event_envelope" where
  "decode = decode_on_stack (\<lambda>_. False)"

lemma decode_eq:
  "decode m =
     (case msg_value m of
        None \<Rightarrow> Inl (event_bus_error ''event-bus message has an empty body; cannot decode an envelope.'')
      | Some raw \<Rightarrow>
          (case envelope_from_bytes raw of
             Inr e \<Rightarrow> Inr e
           | Inl exc \<Rightarrow>
               if catches [Other ValueError, Other KeyError] exc
               then Inl (event_bus_error (''event-bus message is not a valid envelope: '' @ exn_msg exc))
               else Inl exc))"
  unfolding decode_def decode_on_stack_def envelope_from_bytes_def ..

definition on_registry ::
  "(schema_registry \<Rightarrow> (exn + 'a) \<times> schema_registry) \<Rightarrow> 'd consumer \<Rightarrow> (exn + 'a) \<times> 'd consumer" where
  "on_registry f c = (case f (con_registry c) of (r, reg) \<Rightarrow> (r, c\<lparr>con_registry := reg\<rparr>))"

definition on_dedup :: "('d \<Rightarrow> (exn + 'a) \<times> 'd) \<Rightarrow> 'd consumer \<Rightarrow> (exn + 'a) \<times> 'd consumer" where
  "on_dedup f c = (case f (dedup c) of (r, d) \<Rightarrow> (r, c\<lparr>dedup := d\<rparr>))"

definition call_out :: "consumer_event \<Rightarrow> 'd consumer \<Rightarrow> 'd consumer" where
  "call_out ev c = c\<lparr>con_calls := con_calls c @ [ev]\<rparr>"

definition call_handler :: "poll_env \<Rightarrow> event_envelope \<Rightarrow> 'd consumer \<Rightarrow> (exn + unit) \<times> 'd consumer" where
  "call_handler en env c =
     (case pe_handler en env of
        Inr u \<Rightarrow> (Inr (), call_out (Handled env None) c)
      | Inl e \<Rightarrow> (Inl e, call_out (Handled env (Some e)) c))"

definition commit :: "poll_env \<Rightarrow> message \<Rightarrow> 'd consumer \<Rightarrow> (exn + unit) \<times> 'd consumer" where
  "commit en m c =
     (case pe_commit en of
        Inr u \<Rightarrow> (Inr (), call_out (Committed m None) c)
      | Inl exc \<Rightarrow>
          (Inl (if catches [Other KafkaException] exc
                then event_bus_error (''failed to commit offset: '' @ exn_msg exc) else exc),
           call_out (Committed m (Some exc)) c))"

text \<open>What \<open>poll_once\<close> does with a message that was delivered without an error.\<close>

definition process ::
  "(pyval \<Rightarrow> 'd \<Rightarrow> (exn + bool) \<times> 'd) \<Rightarrow> (pyval \<Rightarrow> 'd \<Rightarrow> (exn + unit) \<times> 'd) \<Rightarrow> poll_env \<Rightarrow>
     message \<Rightarrow> event_envelope \<Rightarrow> 'd consumer \<Rightarrow> (exn + event_envelope option) \<times> 'd consumer" where
  "process seen_key record_key en m env =
     andthen (on_registry (validate (pe_js en) (pe_latest en) (env_event_type env) (env_payload env))) (\<lambda>_.
     andthen (on_dedup (seen_key (env_idempotency_key env))) (\<lambda>dup.
       if dup then andthen (commit en m) (\<lambda>_. ret (Some env))
       else
         andthen (call_handler en env) (\<lambda>_.
         andthen (on_dedup (record_key (env_idempotency_key env))) (\<lambda>_.
         andthen (commit en m) (\<lambda>_. ret (Some env))))))"

definition poll_once ::
  "(pyval \<Rightarrow> 'd \<Rightarrow> (exn + bool) \<times> 'd) \<Rightarrow> (pyval \<Rightarrow> 'd \<Rightarrow> (exn + unit) \<times> 'd) \<Rightarrow> poll_env \<Rightarrow>
     'd consumer \<Rightarrow> (exn + event_envelope option) \<times> 'd consumer" where
  "poll_once seen_key record_key en c =
     (case pe_poll en of
        Inl e \<Rightarrow> (Inl e, c)
      | Inr None \<Rightarrow> (Inr None, c)
      | Inr (Some m) \<Rightarrow>
          (case msg_error m of
             Some (partition_eof, err) \<Rightarrow>
               if partition_eof then (Inr None, c)
               else (Inl (event_bus_error (''event-bus poll error: '' @ err)), c)
           | None \<Rightarrow>
               (case decode m of
                  Inl e \<Rightarrow> (Inl e, c)
                | Inr env \<Rightarrow> process seen_key record_key en m env c)))"

definition consumer_close :: "'d consumer \<Rightarrow> 'd consumer" where
  "consumer_close c = c\<lparr>is_closed := True\<rparr>"

text \<open>\<open>with consumer: ...\<close> around a body; \<open>__exit__\<close> returns nothing, so what the body raised goes on.\<close>

definition consumer_enter :: "'d consumer \<Rightarrow> 'd consumer" where
  "consumer_enter c = c"

definition consumer_exit :: "'d consumer \<Rightarrow> 'd consumer" where
  "consumer_exit c = consumer_close c"

definition with_consumer ::
  "('d consumer \<Rightarrow> (exn + 'a) \<times> 'd consumer) \<Rightarrow> 'd consumer \<Rightarrow> (exn + 'a) \<times> 'd consumer" where
  "with_consumer body c = (case body (consumer_enter c) of (r, c') \<Rightarrow> (r, consumer_exit c'))"

text \<open>
  The \<open>run\<close> loop over a list of iterations; each says whether \<open>close()\<close> was called from elsewhere
  before its test of the flag, and what its poll meets.  \<open>None\<close>: still running when the list ends.
\<close>

fun consumer_run ::
  "(pyval \<Rightarrow> 'd \<Rightarrow> (exn + bool) \<times> 'd) \<Rightarrow> (pyval \<Rightarrow> 'd \<Rightarrow> (exn + unit) \<times> 'd) \<Rightarrow>
     (bool \<times> poll_env) list \<Rightarrow> int option \<Rightarrow> int \<Rightarrow> 'd consumer \<Rightarrow> (exn + int) option \<times> 'd consumer" where
  "consumer_run seen_key record_key [] max_events processed c = (None, c)"
| "consumer_run seen_key record_key ((stop, en) # its) max_events processed c =
     (let c1 = (if stop then consumer_close c else c)
      in if is_closed c1 then (Some (Inr processed), c1)
         else if max_events \<noteq> None \<and> the max_events \<le> processed then (Some (Inr processed), c1)
         else (case poll_once seen_key record_key en c1 of
                 (Inl e, c2) \<Rightarrow> (Some (Inl e), c2)
               | (Inr r, c2) \<Rightarrow>
                   consumer_run seen_key record_key its max_events
                     (if r = None then processed else processed + 1) c2))"

text \<open>However the block ends its outcome is the body's, and the consumer it leaves runs no loop any more.\<close>

lemma with_consumer_closes:
  "case with_consumer body c of (r, c') \<Rightarrow> r = fst (body c) \<and> dedup c' = dedup (snd (body c)) \<and>
     con_calls c' = con_calls (snd (body c)) \<and>
     consumer_run seen_key record_key (it # its) limit n c' = (Some (Inr n), c')"
  by (cases it) (auto simp: with_consumer_def consumer_enter_def consumer_exit_def consumer_close_def
      split: prod.splits)

subsection \<open>One call of \<open>poll_once\<close>\<close>

lemma on_registry_frame [simp]:
  "dedup (snd (on_registry f c)) = dedup c" "con_calls (snd (on_registry f c)) = con_calls c"
  "is_closed (snd (on_registry f c)) = is_closed c"
  by (simp_all add: on_registry_def split: prod.split)

text \<open>
  The calls a poll makes, and what it does to the store, by how far it gets.
\<close>

inductive poll_effect ::
  "(pyval \<Rightarrow> 'd \<Rightarrow> (exn + bool) \<times> 'd) \<Rightarrow> (pyval \<Rightarrow> 'd \<Rightarrow> (exn + unit) \<times> 'd) \<Rightarrow> poll_env \<Rightarrow> 'd \<Rightarrow>
     consumer_event list \<Rightarrow> (exn + event_envelope option) \<Rightarrow> 'd \<Rightarrow> bool"
  for seen_key record_key en d where
  quiet: "r = Inr None \<or> isl r \<Longrightarrow> poll_effect seen_key record_key en d [] r d"
| lookup_failed: "seen_key k d = (Inl e, d') \<Longrightarrow> poll_effect seen_key record_key en d [] (Inl e) d'"
| duplicate: "decode m = Inr env \<Longrightarrow> seen_key (env_idempotency_key env) d = (Inr True, d') \<Longrightarrow>
    pe_poll en = Inr (Some m) \<Longrightarrow>
    poll_effect seen_key record_key en d [Committed m exc]
      (case exc of None \<Rightarrow> Inr (Some env) | Some _ \<Rightarrow> Inl e) d'"
| failed: "decode m = Inr env \<Longrightarrow> seen_key (env_idempotency_key env) d = (Inr False, d') \<Longrightarrow>
    pe_poll en = Inr (Some m) \<Longrightarrow> pe_handler en env = Inl e \<Longrightarrow>
    poll_effect seen_key record_key en d [Handled env (Some e)] (Inl e) d'"
| unrecorded: "decode m = Inr env \<Longrightarrow> seen_key (env_idempotency_key env) d = (Inr False, d') \<Longrightarrow>
    record_key (env_idempotency_key env) d' = (Inl e, d'') \<Longrightarrow>
    pe_poll en = Inr (Some m) \<Longrightarrow> pe_handler en env = Inr v \<Longrightarrow>
    poll_effect seen_key record_key en d [Handled env None] (Inl e) d''"
| handled: "decode m = Inr env \<Longrightarrow> seen_key (env_idempotency_key env) d = (Inr False, d') \<Longrightarrow>
    record_key (env_idempotency_key env) d' = (Inr u, d'') \<Longrightarrow>
    pe_poll en = Inr (Some m) \<Longrightarrow> pe_handler en env = Inr v \<Longrightarrow>
    poll_effect seen_key record_key en d [Handled env None, Committed m exc]
      (case exc of None \<Rightarrow> Inr (Some env) | Some _ \<Rightarrow> Inl e) d''"

lemma commit_effect:
  "\<exists>exc e. commit en m c = (case exc of None \<Rightarrow> Inr () | Some _ \<Rightarrow> Inl e, call_out (Committed m exc) c)"
proof (cases "pe_commit en")
  case (Inl exc)
  then show ?thesis by (auto simp: commit_def intro!: exI [of _ "Some exc"])
next
  case (Inr u)
  then show ?thesis by (auto simp: commit_def intro!: exI [of _ None])
qed

text \<open>After the lookup: a duplicate is only committed, any other event is handled, recorded and committed.\<close>

lemma duplicate_effect:
  assumes "decode m = Inr env" and "pe_poll en = Inr (Some m)"
    and "seen_key (env_idempotency_key env) d = (Inr True, dedup c)"
    and "andthen (commit en m) (\<lambda>_. ret (Some env)) c = (r, c')"
  shows "\<exists>evs. con_calls c' = con_calls c @ evs \<and> is_closed c' = is_closed c \<and>
    poll_effect seen_key record_key en d evs r (dedup c')"
proof -
  obtain exc e where com: "commit en m c = (case exc of None \<Rightarrow> Inr () | Some _ \<Rightarrow> Inl e, call_out (Committed m exc) c)"
    using commit_effect by blast
  with assms(4) have "r = (case exc of None \<Rightarrow> Inr (Some env) | Some _ \<Rightarrow> Inl e)" "c' = call_out (Committed m exc) c"
    by (auto simp: andthen_def split: option.splits)
  with assms(1-3) show ?thesis by (auto simp: call_out_def intro!: poll_effect.duplicate)
qed

lemma handler_effect:
  assumes dec: "decode m = Inr env" and poll: "pe_poll en = Inr (Some m)"
    and seen: "seen_key (env_idempotency_key env) d = (Inr False, dedup c)"
    and run: "andthen (call_handler en env) (\<lambda>_. andthen (on_dedup (record_key (env_idempotency_key env))) (\<lambda>_.
      andthen (commit en m) (\<lambda>_. ret (Some env)))) c = (r, c')"
  shows "\<exists>evs. con_calls c' = con_calls c @ evs \<and> is_closed c' = is_closed c \<and>
    poll_effect seen_key record_key en d evs r (dedup c')"
proof (cases "pe_handler en env")
  case (Inl e)
  with run have "r = Inl e" "c' = call_out (Handled env (Some e)) c"
    by (simp_all add: andthen_def call_handler_def)
  with Inl dec poll seen show ?thesis by (auto simp: call_out_def intro!: poll_effect.failed)
next
  case h: (Inr w)
  obtain q d2 where rec: "record_key (env_idempotency_key env) (dedup c) = (q, d2)" by fastforce
  let ?c = "(call_out (Handled env None) c)\<lparr>dedup := d2\<rparr>"
  have step: "on_dedup (record_key (env_idempotency_key env)) (call_out (Handled env None) c) = (q, ?c)"
    by (simp add: on_dedup_def call_out_def rec)
  show ?thesis
  proof (cases q)
    case (Inl e)
    with run h step have "r = Inl e" "c' = ?c" by (simp_all add: andthen_def call_handler_def)
    with dec poll seen h rec Inl show ?thesis by (auto simp: call_out_def intro!: poll_effect.unrecorded)
  next
    case (Inr u)
    obtain exc e where com: "commit en m ?c = (case exc of None \<Rightarrow> Inr () | Some _ \<Rightarrow> Inl e, call_out (Committed m exc) ?c)"
      using commit_effect by blast
    with run h step Inr have "r = (case exc of None \<Rightarrow> Inr (Some env) | Some _ \<Rightarrow> Inl e)"
        "c' = call_out (Committed m exc) ?c"
      by (auto simp: andthen_def call_handler_def split: option.splits)
    with dec poll seen h rec Inr show ?thesis by (auto simp: call_out_def intro!: poll_effect.handled)
  qed
qed

lemma process_effect:
  assumes dec: "decode m = Inr env" and poll: "pe_poll en = Inr (Some m)"
    and run: "process seen_key record_key en m env c = (r, c')"
  shows "\<exists>evs. con_calls c' = con_calls c @ evs \<and> is_closed c' = is_closed c \<and>
    poll_effect seen_key record_key en (dedup c) evs r (dedup c')"
proof (cases "on_registry (validate (pe_js en) (pe_latest en) (env_event_type env) (env_payload env)) c")
  case (Pair v c1)
  have c1: "dedup c1 = dedup c" "con_calls c1 = con_calls c" "is_closed c1 = is_closed c"
    using on_registry_frame [of _ c] Pair by (metis snd_conv)+
  obtain b d1 where seen: "seen_key (env_idempotency_key env) (dedup c) = (b, d1)" by fastforce
  let ?c2 = "c1\<lparr>dedup := d1\<rparr>"
  have step: "on_dedup (seen_key (env_idempotency_key env)) c1 = (b, ?c2)" by (simp add: on_dedup_def c1 seen)
  show ?thesis
  proof (cases v)
    case (Inl e)
    with run Pair have "r = Inl e" "c' = c1" by (simp_all add: process_def andthen_def)
    with c1 show ?thesis by (auto intro: poll_effect.quiet)
  next
    case v: (Inr u)
    show ?thesis
    proof (cases b)
      case (Inl e)
      with run Pair v step have "r = Inl e" "c' = ?c2" by (simp_all add: process_def andthen_def)
      with c1 seen Inl show ?thesis by (auto intro: poll_effect.lookup_failed)
    next
      case b: (Inr dup)
      note start = run [unfolded process_def andthen_def [of "on_registry _"] andthen_def [of "on_dedup (seen_key _)"],
          unfolded Pair prod.case v sum.case step b]
      show ?thesis
        using duplicate_effect [OF dec poll, of seen_key "dedup c" ?c2 r c' record_key]
          handler_effect [OF dec poll, of seen_key "dedup c" ?c2 record_key r c'] start seen b c1
        by (cases dup) simp_all
    qed
  qed
qed

lemma poll_once_effect:
  assumes "poll_once seen_key record_key en c = (r, c')"
  shows "\<exists>evs. con_calls c' = con_calls c @ evs \<and> is_closed c' = is_closed c \<and>
    poll_effect seen_key record_key en (dedup c) evs r (dedup c')"
proof (cases "\<exists>m env. decode m = Inr env \<and> pe_poll en = Inr (Some m) \<and> process seen_key record_key en m env c = (r, c')")
  case True
  then show ?thesis using process_effect by blast
next
  case False
  with assms have "c' = c \<and> (r = Inr None \<or> isl r)"
    by (auto simp: poll_once_def split: sum.splits option.splits prod.splits if_splits)
  then show ?thesis by (auto intro: poll_effect.quiet)
qed

subsection \<open>Sequences of polls\<close>

text \<open>
  \<open>polls\<close> is any sequence of calls of \<open>poll_once\<close> on one consumer, by \<open>run\<close> or by a caller that
  catches what it raises and calls again.
\<close>

definition polls ::
  "(pyval \<Rightarrow> 'd \<Rightarrow> (exn + bool) \<times> 'd) \<Rightarrow> (pyval \<Rightarrow> 'd \<Rightarrow> (exn + unit) \<times> 'd) \<Rightarrow> poll_env list \<Rightarrow>
     'd consumer \<Rightarrow> 'd consumer" where
  "polls seen_key record_key ens c = fold (\<lambda>en c. snd (poll_once seen_key record_key en c)) ens c"

text \<open>The keys of the events whose handler returned, in order.\<close>

fun success_key :: "consumer_event \<Rightarrow> pyval list" where
  "success_key (Handled env None) = (case hash_key (env_idempotency_key env) of Inr k \<Rightarrow> [k] | Inl _ \<Rightarrow> [])"
| "success_key _ = []"

definition success_keys :: "consumer_event list \<Rightarrow> pyval list" where
  "success_keys evs = concat (map success_key evs)"

lemma success_keys_simps [simp]:
  "success_keys [] = []"
  "success_keys (ev # evs) = success_key ev @ success_keys evs"
  "success_keys (evs @ evs') = success_keys evs @ success_keys evs'"
  by (simp_all add: success_keys_def)

definition commits_follow_handling :: "consumer_event list \<Rightarrow> bool" where
  "commits_follow_handling evs \<longleftrightarrow>
     (\<forall>before m exc after. evs = before @ Committed m exc # after \<longrightarrow>
        (\<exists>env k. decode m = Inr env \<and> hash_key (env_idempotency_key env) = Inr k \<and>
           k \<in> set (success_keys before)))"

lemma commits_follow_Nil [simp]: "commits_follow_handling []"
  by (simp add: commits_follow_handling_def)

lemma commits_follow_snoc:
  assumes "commits_follow_handling evs"
    and "\<And>m exc. ev = Committed m exc \<Longrightarrow> \<exists>env k. decode m = Inr env \<and>
      hash_key (env_idempotency_key env) = Inr k \<and> k \<in> set (success_keys evs)"
  shows "commits_follow_handling (evs @ [ev])"
  unfolding commits_follow_handling_def
proof (intro allI impI)
  fix before m exc after
  assume eq: "evs @ [ev] = before @ Committed m exc # after"
  show "\<exists>env k. decode m = Inr env \<and> hash_key (env_idempotency_key env) = Inr k \<and> k \<in> set (success_keys before)"
  proof (cases after rule: rev_cases)
    case Nil
    with eq assms(2) show ?thesis by simp
  next
    case (snoc after' x)
    with eq have "evs = before @ Committed m exc # after'" by simp
    with assms(1) show ?thesis unfolding commits_follow_handling_def by blast
  qed
qed

lemma commits_follow_Handled: "commits_follow_handling evs \<Longrightarrow> commits_follow_handling (evs @ [Handled env r])"
  by (rule commits_follow_snoc) simp_all

lemma commits_follow_Committed:
  assumes "commits_follow_handling evs" and "decode m = Inr env"
    and "hash_key (env_idempotency_key env) = Inr k" and "k \<in> set (success_keys evs)"
  shows "commits_follow_handling (evs @ [Committed m exc])"
  using assms by (intro commits_follow_snoc) auto

context dedup_store
begin

lemma seen_Inr:
  assumes "store_ok d" and "seen_key v d = (Inr b, d')"
  shows "\<exists>k. hash_key v = Inr k \<and> b = (k \<in> members d) \<and> members d' = members d \<and> store_ok d'"
proof (cases "hash_key v")
  case (Inl e)
  with unhashable [of v e d] assms(2) show ?thesis by simp
next
  case (Inr k)
  with seen_result [OF assms(1) Inr] seen_members [OF assms(1), of v] seen_ok [OF assms(1), of v] assms(2)
  show ?thesis by simp
qed

text \<open>The consumer's invariant: what the store remembers was handled, and so was what was committed.\<close>

definition consumer_inv :: "'s consumer \<Rightarrow> bool" where
  "consumer_inv c \<longleftrightarrow> store_ok (dedup c) \<and> members (dedup c) \<subseteq> set (success_keys (con_calls c)) \<and>
     commits_follow_handling (con_calls c)"

lemma poll_once_inv:
  assumes "consumer_inv c"
  shows "consumer_inv (snd (poll_once seen_key record_key en c))"
proof -
  obtain r c' where poll: "poll_once seen_key record_key en c = (r, c')" by fastforce
  from poll_once_effect [OF poll] obtain evs where evs: "con_calls c' = con_calls c @ evs"
      and eff: "poll_effect seen_key record_key en (dedup c) evs r (dedup c')" by blast
  from assms have ok: "store_ok (dedup c)" and mem: "members (dedup c) \<subseteq> set (success_keys (con_calls c))"
      and com: "commits_follow_handling (con_calls c)" by (simp_all add: consumer_inv_def)
  have append2: "con_calls c @ [a, b] = (con_calls c @ [a]) @ [b]" for a b by simp
  from eff show ?thesis
  proof cases
    case quiet
    with assms poll evs show ?thesis by (simp add: consumer_inv_def)
  next
    case (lookup_failed k e)
    with seen_ok [OF ok, of k] seen_members [OF ok, of k] poll evs mem com
    show ?thesis by (simp add: consumer_inv_def)
  next
    case (duplicate m env exc e)
    from seen_Inr [OF ok duplicate(4)] obtain k where k: "hash_key (env_idempotency_key env) = Inr k"
        "k \<in> members (dedup c)" "members (dedup c') = members (dedup c)" "store_ok (dedup c')" by auto
    with mem have "k \<in> set (success_keys (con_calls c))" by blast
    with commits_follow_Committed [OF com duplicate(3) k(1)] k mem poll evs duplicate(1)
    show ?thesis by (simp add: consumer_inv_def)
  next
    case (failed m env e)
    with seen_Inr [OF ok failed(4)] poll evs mem com commits_follow_Handled
    show ?thesis by (auto simp: consumer_inv_def)
  next
    case (unrecorded m env d1 e v)
    from seen_Inr [OF ok unrecorded(4)] obtain k where "hash_key (env_idempotency_key env) = Inr k" "store_ok d1" by auto
    with record_result [of d1 "env_idempotency_key env"] unrecorded(5) show ?thesis by simp
  next
    case (handled m env d1 u v exc e)
    from seen_Inr [OF ok handled(4)] obtain k where k: "hash_key (env_idempotency_key env) = Inr k"
        "members d1 = members (dedup c)" "store_ok d1" by auto
    from record_ok [OF k(3), of "env_idempotency_key env"] record_member [OF k(3,1)] handled(5)
    have d': "store_ok (dedup c')" "members (dedup c') \<subseteq> insert k (members d1)" by simp_all
    have key: "k \<in> set (success_keys (con_calls c @ [Handled env None]))" using k(1) by simp
    have "commits_follow_handling (con_calls c @ [Handled env None])"
      using com by (simp add: commits_follow_Handled)
    from commits_follow_Committed [OF this handled(3) k(1) key]
    have "commits_follow_handling (con_calls c @ [Handled env None, Committed m exc])" by simp
    with d' k mem poll evs handled(1) show ?thesis by (auto simp: consumer_inv_def)
  qed
qed

lemma polls_inv: "consumer_inv c \<Longrightarrow> consumer_inv (polls seen_key record_key ens c)"
  unfolding polls_def by (induction ens arbitrary: c) (simp_all add: poll_once_inv)

lemma step_ok:
  "store_ok d \<Longrightarrow> seen_key v d = (r, d') \<Longrightarrow> store_ok d'"
  "store_ok d \<Longrightarrow> record_key v d = (q, d') \<Longrightarrow> store_ok d'"
  using seen_ok [of d v] record_ok [of d v] by simp_all

lemma poll_effect_store_ok:
  assumes "store_ok d" and "poll_effect seen_key record_key en d evs r d'"
  shows "store_ok d'"
  using assms(2,1) by cases (blast intro: step_ok)+

text \<open>A key the store remembers is not handled again.\<close>

lemma poll_effect_duplicate:
  assumes "store_ok d" and "poll_effect seen_key record_key en d evs r d'"
    and "Handled env x \<in> set evs" and "hash_key (env_idempotency_key env) = Inr k"
  shows "k \<notin> members d"
  using assms(2)
proof cases
  case (failed m env' e)
  with seen_Inr [OF assms(1) failed(4)] assms(3,4) show ?thesis by auto
next
  case (unrecorded m env' d1 e v)
  with seen_Inr [OF assms(1) unrecorded(4)] assms(3,4) show ?thesis by auto
next
  case (handled m env' d1 u v exc e)
  with seen_Inr [OF assms(1) handled(4)] assms(3,4) show ?thesis by auto
qed (use assms(3) in simp_all)

end

subsection \<open>The in-memory store: handled at most once\<close>

definition handled_once :: "lru_store consumer \<Rightarrow> bool" where
  "handled_once c \<longleftrightarrow> lru_ok (dedup c) \<and> set (lru_keys (dedup c)) = set (success_keys (con_calls c)) \<and>
     distinct (success_keys (con_calls c))"

lemma lru_seen_Inr:
  "lru_seen v d = (Inr b, d') \<Longrightarrow> \<exists>k. hash_key v = Inr k \<and> b = (k \<in> set (lru_keys d)) \<and>
     set (lru_keys d') = set (lru_keys d) \<and> (\<not> b \<longrightarrow> d' = d)"
  by (auto simp: lru_seen_def split: sum.splits if_splits)

lemma lru_capacity_seen: "lru_seen v d = (b, d') \<Longrightarrow> lru_capacity d' = lru_capacity d"
  by (auto simp: lru_seen_def split: sum.splits if_splits)

lemma lru_capacity_record: "lru_record v d = (b, d') \<Longrightarrow> lru_capacity d' = lru_capacity d"
  by (auto simp: lru_record_def split: sum.splits)

lemma poll_once_capacity:
  "poll_once lru_seen lru_record en c = (r, c') \<Longrightarrow> lru_capacity (dedup c') = lru_capacity (dedup c)"
  using poll_once_effect [of lru_seen lru_record en c r c']
  by (auto elim!: poll_effect.cases dest!: lru_capacity_seen lru_capacity_record)

lemma poll_once_handled_once:
  assumes inv: "handled_once c" and poll: "poll_once lru_seen lru_record en c = (r, c')"
    and room: "card (set (success_keys (con_calls c'))) \<le> lru_capacity (dedup c)"
  shows "handled_once c'"
proof -
  from poll_once_effect [OF poll] obtain evs where evs: "con_calls c' = con_calls c @ evs"
      and eff: "poll_effect lru_seen lru_record en (dedup c) evs r (dedup c')" by blast
  from inv have ok: "lru_ok (dedup c)" and keys: "set (lru_keys (dedup c)) = set (success_keys (con_calls c))"
      and dist: "distinct (success_keys (con_calls c))" by (simp_all add: handled_once_def)
  from eff show ?thesis
  proof cases
    case quiet
    with inv evs show ?thesis by (simp add: handled_once_def)
  next
    case (lookup_failed k e)
    with lru_seen_ok [OF ok, of k] evs keys dist show ?thesis
      by (auto simp: handled_once_def lru_seen_def split: sum.splits if_splits)
  next
    case (duplicate m env exc e)
    with lru_seen_Inr [OF duplicate(4)] lru_seen_ok [OF ok, of "env_idempotency_key env"] evs keys dist
    show ?thesis by (auto simp: handled_once_def)
  next
    case (failed m env e)
    with lru_seen_Inr [OF failed(4)] evs keys dist ok show ?thesis by (auto simp: handled_once_def)
  next
    case (unrecorded m env d1 e v)
    with lru_seen_Inr [OF unrecorded(4)] show ?thesis by (auto simp: lru_record_def)
  next
    case (handled m env d1 u v exc e)
    from lru_seen_Inr [OF handled(4)] obtain k where k: "hash_key (env_idempotency_key env) = Inr k"
        "k \<notin> set (lru_keys (dedup c))" "d1 = dedup c" by auto
    have new: "success_keys (con_calls c') = success_keys (con_calls c) @ [k]"
      using evs handled(1) k(1) by simp
    have "length (move_to_end k (lru_keys (dedup c))) = card (insert k (set (lru_keys (dedup c))))"
      using ok length_move [of "lru_keys (dedup c)" k] distinct_card [of "lru_keys (dedup c)"] k(2)
      by (simp add: lru_ok_def)
    also have "\<dots> \<le> lru_capacity (dedup c)" using room new keys by simp
    finally have "evict (lru_capacity (dedup c)) (move_to_end k (lru_keys (dedup c))) = move_to_end k (lru_keys (dedup c))"
      by (simp add: evict_eq)
    then have "dedup c' = (dedup c)\<lparr>lru_keys := move_to_end k (lru_keys (dedup c))\<rparr>"
      using handled(5) k by (simp add: lru_record_def)
    moreover have "lru_ok (dedup c')"
      using lru_record_ok [OF ok, of "env_idempotency_key env"] handled(5) k(3) by simp
    ultimately show ?thesis using keys dist k(2) by (simp add: handled_once_def new)
  qed
qed

lemma polls_handled_once:
  assumes "handled_once c" and "card (set (success_keys (con_calls (polls lru_seen lru_record ens c)))) \<le> lru_capacity (dedup c)"
  shows "handled_once (polls lru_seen lru_record ens c)"
  using assms
proof (induction ens rule: rev_induct)
  case Nil
  then show ?case by (simp add: polls_def)
next
  case (snoc en ens)
  let ?c = "polls lru_seen lru_record ens c"
  obtain r c' where poll: "poll_once lru_seen lru_record en ?c = (r, c')" by fastforce
  have last: "polls lru_seen lru_record (ens @ [en]) c = c'" by (simp add: polls_def poll [unfolded polls_def])
  have cap: "lru_capacity (dedup ?c) = lru_capacity (dedup c)"
    unfolding polls_def
    by (induction ens rule: rev_induct) (simp_all add: poll_once_capacity [OF surjective_pairing])
  from poll_once_effect [OF poll] have "set (success_keys (con_calls ?c)) \<subseteq> set (success_keys (con_calls c'))"
    by auto
  then have "card (set (success_keys (con_calls ?c))) \<le> card (set (success_keys (con_calls c')))"
    by (simp add: card_mono)
  with snoc last have "handled_once ?c" by simp
  from poll_once_handled_once [OF this poll] snoc.prems(2) last cap show ?case by simp
qed

subsection \<open>The loop\<close>

fun committed_ok :: "consumer_event \<Rightarrow> bool" where
  "committed_ok (Committed m None) = True"
| "committed_ok _ = False"

lemma poll_once_count:
  assumes "poll_once seen_key record_key en c = (Inr r, c')"
  shows "\<exists>evs. con_calls c' = con_calls c @ evs \<and> is_closed c' = is_closed c \<and>
    length (filter committed_ok evs) = (if r = None then 0 else 1)"
proof -
  from poll_once_effect [OF assms] obtain evs where evs: "con_calls c' = con_calls c @ evs"
      "is_closed c' = is_closed c"
      and eff: "poll_effect seen_key record_key en (dedup c) evs (Inr r) (dedup c')" by blast
  from eff have "length (filter committed_ok evs) = (if r = None then 0 else 1)"
    by cases (auto split: option.splits)
  with evs show ?thesis by blast
qed

text \<open>A message that passes every step is processed whatever the consumer's state.\<close>

definition delivers :: "poll_env \<Rightarrow> bool" where
  "delivers en \<longleftrightarrow> (\<exists>m env k et text_of doc. pe_poll en = Inr (Some m) \<and> msg_error m = None \<and>
     decode m = Inr env \<and> env_idempotency_key env = PStr k \<and> env_event_type env = PStr et \<and>
     pe_latest en (subject_for et) = Inr (Some text_of) \<and> json_loads text_of = Inr doc \<and>
     (\<forall>d. pe_js en d (env_payload env) = Inr ()) \<and> pe_handler en env = Inr () \<and> pe_commit en = Inr ())"

definition idle :: "poll_env \<Rightarrow> bool" where
  "idle en \<longleftrightarrow> pe_poll en = Inr None"

lemma validate_passes:
  assumes "latest (subject_for et) = Inr (Some text_of)" and "json_loads text_of = Inr doc"
    and "\<forall>d. js d payload = Inr ()"
  shows "fst (validate js latest (PStr et) payload reg) = Inr ()"
  using assms
  by (cases "validator_cache reg (PStr et)") (simp_all add: validate_def get_validator_def andthen_def)

context dedup_store
begin

lemma delivers_processes:
  assumes "delivers en" and "store_ok (dedup c)"
  shows "\<exists>env c'. poll_once seen_key record_key en c = (Inr (Some env), c') \<and> store_ok (dedup c')"
proof -
  from assms(1) obtain m env k et text_of doc where en: "pe_poll en = Inr (Some m)" "msg_error m = None"
      "decode m = Inr env" "env_idempotency_key env = PStr k" "env_event_type env = PStr et"
      "pe_latest en (subject_for et) = Inr (Some text_of)" "json_loads text_of = Inr doc"
      "\<forall>d. pe_js en d (env_payload env) = Inr ()" "pe_handler en env = Inr ()" "pe_commit en = Inr ()"
    unfolding delivers_def by blast
  obtain reg where val: "validate (pe_js en) (pe_latest en) (PStr et) (env_payload env) (con_registry c) = (Inr (), reg)"
    using validate_passes [where latest = "pe_latest en" and js = "pe_js en" and reg = "con_registry c",
        OF en(6) en(7) en(8)] by (metis prod.collapse)
  let ?c1 = "c\<lparr>con_registry := reg\<rparr>"
  have key: "hash_key (PStr k) = Inr (PStr k)" by simp
  obtain d1 where d1: "seen_key (PStr k) (dedup c) = (Inr (PStr k \<in> members (dedup c)), d1)" "store_ok d1"
    using seen_result [OF assms(2) key] seen_ok [OF assms(2), of "PStr k"] by (metis prod.collapse)
  obtain d2 where d2: "record_key (PStr k) d1 = (Inr (), d2)" "store_ok d2"
    using record_result [OF d1(2) key] record_ok [OF d1(2), of "PStr k"] by (metis prod.collapse)
  show ?thesis
    using en(1-5,9,10) val d1 d2
    by (auto simp: poll_once_def process_def on_registry_def andthen_def on_dedup_def call_handler_def
        commit_def call_out_def)
qed

lemma run_delivers:
  assumes "store_ok (dedup c)" and "\<not> is_closed c"
    and "\<forall>(stop, en) \<in> set its. \<not> stop \<and> (idle en \<or> delivers en)"
    and "its = its1 @ [it]" and "n \<le> m"
    and "m - n \<le> int (length (filter (\<lambda>(stop, en). delivers en) its1))"
  shows "fst (consumer_run seen_key record_key its (Some m) n c) = Some (Inr m)"
  using assms
proof (induction its arbitrary: its1 n c)
  case Nil
  then show ?case by simp
next
  case (Cons x its)
  obtain stop en where x: "x = (stop, en)" by (cases x)
  with Cons.prems(3) have en: "\<not> stop" "idle en \<or> delivers en" by auto
  show ?case
  proof (cases "m \<le> n")
    case True
    with Cons.prems(2,5) en x show ?thesis by simp
  next
    case False
    then obtain its2 where its1: "its1 = x # its2" "its = its2 @ [it]"
      using Cons.prems(4,6) by (cases its1) auto
    show ?thesis
    proof (cases "delivers en")
      case True
      from delivers_processes [OF True Cons.prems(1)] obtain env c' where
        p: "poll_once seen_key record_key en c = (Inr (Some env), c')" "store_ok (dedup c')" by blast
      from poll_once_count [OF p(1)] Cons.prems(2) have "\<not> is_closed c'" by auto
      with Cons.IH [OF p(2) this _ its1(2), of "n + 1"] Cons.prems False x its1 True en p
      show ?thesis by simp
    next
      case idle: False
      with en have "poll_once seen_key record_key en c = (Inr None, c)"
        by (simp add: idle_def poll_once_def)
      with Cons.IH [OF Cons.prems(1,2) _ its1(2), of n] Cons.prems False x its1 idle en
      show ?thesis by simp
    qed
  qed
qed

end

lemma run_result:
  assumes "consumer_run seen_key record_key its max_events n c = (Some (Inr k), c')"
  shows "\<exists>evs. con_calls c' = con_calls c @ evs \<and> k = n + int (length (filter committed_ok evs)) \<and>
    (is_closed c' \<or> (\<exists>m. max_events = Some m \<and> k = max n m)) \<and> (\<forall>m. max_events = Some m \<longrightarrow> k \<le> max n m)"
  using assms
proof (induction its arbitrary: n c)
  case (Cons x its)
  obtain stop en where x: "x = (stop, en)" by (cases x)
  define c1 where "c1 = (if stop then consumer_close c else c)"
  have c1: "con_calls c1 = con_calls c" by (simp add: c1_def consumer_close_def)
  show ?case
  proof (cases "is_closed c1 \<or> max_events \<noteq> None \<and> the max_events \<le> n")
    case True
    with Cons.prems x c1_def have "k = n" "c' = c1" by (auto simp: Let_def split: if_splits)
    with True c1 show ?thesis by auto
  next
    case False
    with Cons.prems x obtain r c2 where p: "poll_once seen_key record_key en c1 = (Inr r, c2)"
        and rest: "consumer_run seen_key record_key its max_events (if r = None then n else n + 1) c2 = (Some (Inr k), c')"
      by (auto simp: Let_def c1_def [symmetric] split: prod.splits sum.splits if_splits)
    from poll_once_count [OF p] obtain evs1 where e1: "con_calls c2 = con_calls c1 @ evs1"
        "length (filter committed_ok evs1) = (if r = None then 0 else 1)" by blast
    from Cons.IH [OF rest] obtain evs2 where e2: "con_calls c' = con_calls c2 @ evs2"
        "k = (if r = None then n else n + 1) + int (length (filter committed_ok evs2))"
        "is_closed c' \<or> (\<exists>m. max_events = Some m \<and> k = max (if r = None then n else n + 1) m)"
        "\<forall>m. max_events = Some m \<longrightarrow> k \<le> max (if r = None then n else n + 1) m"
      by blast
    have "con_calls c' = con_calls c @ (evs1 @ evs2)" using c1 e1(1) e2(1) by simp
    moreover have "k = n + int (length (filter committed_ok (evs1 @ evs2)))" using e1(2) e2(2) by simp
    moreover have "is_closed c' \<or> (\<exists>m. max_events = Some m \<and> k = max n m)"
      using e2(3) False by (cases max_events) (auto split: if_splits)
    moreover have "\<forall>m. max_events = Some m \<longrightarrow> k \<le> max n m"
      using e2(4) False by (cases max_events) (auto split: if_splits)
    ultimately show ?thesis by blast
  qed
qed simp

lemma run_stops:
  assumes "(True, en) \<in> set its"
  shows "fst (consumer_run seen_key record_key its max_events n c) \<noteq> None"
  using assms
proof (induction its arbitrary: n c)
  case (Cons x its)
  obtain stop en' where x: "x = (stop, en')" by (cases x)
  show ?case
  proof (cases stop)
    case True
    with x show ?thesis by (simp add: consumer_close_def)
  next
    case False
    with Cons.prems x have "(True, en) \<in> set its" by auto
    with Cons.IH x show ?thesis by (auto simp: Let_def split: prod.split sum.split)
  qed
qed simp

subsection \<open>What decoding raises\<close>

definition envelope_errors :: "exn_class set" where
  "envelope_errors = decode_errors \<union> {Other KeyError, Other TypeError, Other AttributeError}"

lemma raises_only_mono: "raises_only C r \<Longrightarrow> C \<subseteq> D \<Longrightarrow> raises_only D r"
  by (cases r) auto

lemma raises_only_mapE: "(\<And>x. raises_only C (f x)) \<Longrightarrow> raises_only C (mapE f xs)"
  by (induction xs) (auto intro!: raises_only_bind)

lemma envelope_errors_in [simp]:
  "Other KeyError \<in> envelope_errors" "Other TypeError \<in> envelope_errors"
  "Other AttributeError \<in> envelope_errors" "Other ValueError \<in> envelope_errors"
  "Other OutsideFragment \<in> envelope_errors"
  "exn_class outside \<in> envelope_errors" "exn_class update_sequence_error \<in> envelope_errors"
  by (simp_all add: envelope_errors_def decode_errors_def outside_def update_sequence_error_def)

lemma getitem_errors: "raises_only envelope_errors (getitem v k)"
  by (cases v) (auto simp: getitem_def split: option.split)

lemma get_method_errors: "raises_only envelope_errors (get_method v k)"
  by (cases v) (simp_all add: get_method_def)

lemma uuid_value_errors: "raises_only envelope_errors (uuid_value v)"
  by (cases v) (auto simp: uuid_value_def parse_uuid_def parse_hex_def Let_def)

lemma datetime_value_errors: "raises_only envelope_errors (datetime_value v)"
  by (cases v) (auto simp: datetime_value_def fromisoformat_def split: option.split)

lemma item_pair_errors: "raises_only envelope_errors (item_pair v)"
  by (cases v) (auto simp: item_pair_def split: list.split)

lemma string_key_errors: "raises_only envelope_errors (string_key v)"
  by (cases v) (simp_all add: string_key_def)

lemma dict_or_empty_errors: "raises_only envelope_errors (dict_or_empty v)"
proof (cases v)
  case (PList vs)
  have "raises_only envelope_errors (bindE (item_pair i) (\<lambda>(k, x). bindE (string_key k) (\<lambda>s. Inr (s, x))))" for i
    using item_pair_errors string_key_errors by (auto intro!: raises_only_bind split: prod.split)
  then have "raises_only envelope_errors (mapE (\<lambda>i. bindE (item_pair i) (\<lambda>(k, x). bindE (string_key k)
      (\<lambda>s. Inr (s, x)))) vs)" by (rule raises_only_mapE)
  then show ?thesis unfolding PList dict_or_empty_def pyval.case by (rule raises_only_bind) simp
qed (auto simp: dict_or_empty_def)

lemma envelope_from_dict_errors: "raises_only envelope_errors (envelope_from_dict v)"
  unfolding envelope_from_dict_def provenance_from_dict_def
  by (intro raises_only_bind getitem_errors get_method_errors uuid_value_errors datetime_value_errors
      dict_or_empty_errors raises_only_simps)

lemma envelope_from_bytes_errors:
  "raises_only (insert (Other RecursionError) envelope_errors) (envelope_from_bytes_on overflow raw)"
  unfolding envelope_from_bytes_on_def
  by (intro raises_only_bind raises_only_if raises_only_mono [OF envelope_from_dict_errors]
      raises_only_mono [OF utf8_decode_errors] raises_only_mono [OF json_loads_errors])
    (auto simp: envelope_errors_def recursion_error_def)

text \<open>The class of what decoding raises, by what rebuilding the envelope raised.\<close>

lemma decode_on_stack_class:
  assumes "msg_value m = Some raw" and "envelope_from_bytes_on overflow raw = Inl x"
  shows "\<exists>e. decode_on_stack overflow m = Inl e \<and> exn_class e =
    (if exn_class x \<in> {Other RecursionError, Other TypeError, Other AttributeError, Other OutsideFragment}
     then exn_class x else Bus EventBusError)"
proof -
  have "exn_class x \<in> insert (Other RecursionError) envelope_errors"
    using envelope_from_bytes_errors [of overflow raw] assms(2) by simp
  then have "catches [Other ValueError, Other KeyError] x \<longleftrightarrow>
      exn_class x \<notin> {Other RecursionError, Other TypeError, Other AttributeError, Other OutsideFragment}"
    by (auto simp: envelope_errors_def decode_errors_def catches_def)
  with assms show ?thesis by (auto simp: decode_on_stack_def event_bus_error_def)
qed

text \<open>A stack overflow is met exactly in the reading of a body that overflows.\<close>

lemma bytes_recursion:
  "raises (envelope_from_bytes_on overflow raw) (Other RecursionError) \<longleftrightarrow>
     (\<exists>s. utf8_decode raw = Inr s \<and> overflow s)"
proof (cases "utf8_decode raw")
  case (Inl e)
  with utf8_decode_errors [of raw] show ?thesis
    by (auto simp: envelope_from_bytes_on_def raises_def decode_errors_def)
next
  case (Inr s)
  have "raises_only envelope_errors (bindE (json_loads s) envelope_from_dict)"
    by (intro raises_only_bind envelope_from_dict_errors raises_only_mono [OF json_loads_errors])
      (auto simp: envelope_errors_def)
  then have "\<not> raises (bindE (json_loads s) envelope_from_dict) (Other RecursionError)"
    by (cases "bindE (json_loads s) envelope_from_dict") (auto simp: raises_def envelope_errors_def decode_errors_def)
  with Inr show ?thesis by (simp add: envelope_from_bytes_on_def recursion_error_def)
qed

lemma decode_recursion:
  "raises (decode_on_stack overflow m) (Other RecursionError) \<longleftrightarrow>
     (\<exists>raw s. msg_value m = Some raw \<and> utf8_decode raw = Inr s \<and> overflow s)"
proof (cases "msg_value m")
  case None
  then show ?thesis by (simp add: decode_on_stack_def event_bus_error_def)
next
  case (Some raw)
  have "raises (decode_on_stack overflow m) (Other RecursionError) \<longleftrightarrow>
      raises (envelope_from_bytes_on overflow raw) (Other RecursionError)"
  proof (cases "envelope_from_bytes_on overflow raw")
    case (Inl x)
    with decode_on_stack_class [OF Some Inl] show ?thesis by (auto simp: raises_def split: if_splits)
  qed (simp add: decode_on_stack_def Some)
  with Some bytes_recursion show ?thesis by simp
qed

lemma bodies:
  "raises (envelope_from_bytes ''{}'') (Other KeyError)"
  "raises (envelope_from_bytes ''[]'') (Other TypeError)"
  "raises (envelope_from_bytes (enc '','' '':'' (PDict [(''event_id'', PInt 5)]))) (Other AttributeError)"
  by code_simp+

lemma raises_decode:
  "raises (decode (m\<lparr>msg_value := None\<rparr>)) (Bus EventBusError)"
  "raises (envelope_from_bytes raw) (Other KeyError) \<Longrightarrow> raises (decode (m\<lparr>msg_value := Some raw\<rparr>)) (Bus EventBusError)"
  "raises (envelope_from_bytes raw) (Other TypeError) \<Longrightarrow> raises (decode (m\<lparr>msg_value := Some raw\<rparr>)) (Other TypeError)"
  "raises (envelope_from_bytes raw) (Other AttributeError) \<Longrightarrow>
     raises (decode (m\<lparr>msg_value := Some raw\<rparr>)) (Other AttributeError)"
  by (auto simp: decode_eq event_bus_error_def raises_def catches_def split: sum.splits)

subsection \<open>Properties\<close>

lemma fresh_consumer:
  assumes "InMemoryDedupStore capacity = Inr s"
    and "EventConsumer environ gid config registry s extra = Inr c"
  shows "lru.consumer_inv c" and "handled_once c" and "lru_capacity (dedup c) = nat capacity"
    and "con_calls c = []" and "lru_ok (dedup c)" and "\<not> is_closed c"
proof -
  from assms have s: "s = \<lparr>lru_capacity = nat capacity, lru_keys = []\<rparr>" "1 \<le> capacity"
    by (auto simp: InMemoryDedupStore_def split: if_splits)
  from assms(2) s show "lru.consumer_inv c" "handled_once c" "lru_capacity (dedup c) = nat capacity"
      "con_calls c = []" "lru_ok (dedup c)" "\<not> is_closed c"
    by (auto simp: EventConsumer_def lru.consumer_inv_def handled_once_def lru_ok_def)
qed

text \<open>
  C4: no offset is committed for an event that was not handled: over any sequence of polls on a
  fresh consumer with the in-memory store, whatever is delivered and whatever the handler, the registry and the
  broker do, every message whose commit is ever attempted decodes to an event whose idempotency
  key belongs to an event the handler had already processed successfully.
\<close>

theorem no_commit_without_handling:
  assumes "InMemoryDedupStore capacity = Inr s"
    and "EventConsumer environ gid config registry s extra = Inr c"
  shows "commits_follow_handling (con_calls (polls lru_seen lru_record ens c))"
  using lru.polls_inv [OF fresh_consumer(1) [OF assms]] by (simp add: lru.consumer_inv_def)

definition demo_message :: "event_envelope \<Rightarrow> int \<Rightarrow> message" where
  "demo_message e offset = \<lparr>msg_error = None, msg_value = Some (enc '','' '':'' (envelope_to_dict e)),
     msg_position = (''topic'', 0, offset)\<rparr>"

definition demo_poll :: "(event_envelope \<Rightarrow> exn + unit) \<Rightarrow> event_envelope \<Rightarrow> int \<Rightarrow> poll_env" where
  "demo_poll handler e offset = \<lparr>pe_poll = Inr (Some (demo_message e offset)), pe_js = (\<lambda>_ _. Inr ()),
     pe_latest = (\<lambda>_. Inr (Some ''true'')), pe_handler = handler, pe_commit = Inr ()\<rparr>"

definition demo_consumer :: "lru_store consumer" where
  "demo_consumer = \<lparr>group_id = ''g'',
     con_config = [(''bootstrap.servers'', PStr ''b''), (''group.id'', PStr ''g''),
       (''enable.auto.commit'', PBool False), (''auto.offset.reset'', PStr ''earliest'')],
     con_registry = new_registry, dedup = \<lparr>lru_capacity = 1, lru_keys = []\<rparr>, con_topics = [],
     is_closed = False, con_calls = []\<rparr>"

lemma fresh_demo_consumer:
  "InMemoryDedupStore 1 = Inr \<lparr>lru_capacity = 1, lru_keys = []\<rparr>"
  "EventConsumer Map.empty ''g'' (Some \<lparr>brokers = ''b'', schema_registry_url = ''u''\<rparr>) None
     \<lparr>lru_capacity = 1, lru_keys = []\<rparr> None = Inr demo_consumer"
  by (simp_all add: InMemoryDedupStore_def EventConsumer_def resolve_config_def demo_consumer_def dict_of_def)

lemma decode_demo [simp]: "envelope_ok e \<Longrightarrow> decode (demo_message e offset) = Inr e"
  by (simp add: decode_eq demo_message_def envelope_to_bytes_ok)

lemma json_true: "json_loads ''true'' = Inr (PBool True)"
  by code_simp

lemma demo_calls:
  "con_calls (polls lru_seen lru_record [demo_poll (\<lambda>_. Inr ()) demo_envelope 0, demo_poll (\<lambda>_. Inr ()) demo_envelope 1] demo_consumer)
     = [Handled demo_envelope None, Committed (demo_message demo_envelope 0) None,
        Committed (demo_message demo_envelope 1) None]"
proof -
  have fields: "env_event_type demo_envelope = PStr ''t''" "env_idempotency_key demo_envelope = PStr ''k''"
    by (simp_all add: demo_envelope_def)
  have msg: "msg_error (demo_message e i) = None" for e i by (simp add: demo_message_def)
  show ?thesis
    by (simp add: polls_def poll_once_def demo_poll_def msg demo_envelope_ok process_def on_registry_def andthen_def
        validate_def get_validator_def fields json_true on_dedup_def lru_seen_def lru_record_def evict_eq
        call_handler_def commit_def call_out_def demo_consumer_def new_registry_def move_to_end_def)
qed

theorem no_commit_without_handling_witness:
  "commits_follow_handling [Handled demo_envelope None, Committed (demo_message demo_envelope 0) None,
     Committed (demo_message demo_envelope 1) None]"
  using no_commit_without_handling [OF fresh_demo_consumer, of
      "[demo_poll (\<lambda>_. Inr ()) demo_envelope 0, demo_poll (\<lambda>_. Inr ()) demo_envelope 1]"]
  by (simp only: demo_calls)

text \<open>
  C14: within its capacity the store makes handling exactly-once: as long as the distinct keys
  handled are no more than the store's capacity, no two successful handler calls of one consumer,
  over any sequence of polls, redeliveries and failures included, are for the same key.
\<close>

theorem handled_at_most_once:
  assumes "InMemoryDedupStore capacity = Inr s"
    and "EventConsumer environ gid config registry s extra = Inr c"
    and "card (set (success_keys (con_calls (polls lru_seen lru_record ens c)))) \<le> nat capacity"
  shows "distinct (success_keys (con_calls (polls lru_seen lru_record ens c)))"
  using polls_handled_once [OF fresh_consumer(2) [OF assms(1,2)]] fresh_consumer(3) [OF assms(1,2)] assms(3)
  by (simp add: handled_once_def)

theorem handled_at_most_once_witness:
  "distinct (success_keys [Handled demo_envelope None, Committed (demo_message demo_envelope 0) None,
     Committed (demo_message demo_envelope 1) None])"
proof -
  have "card (set (success_keys [Handled demo_envelope None, Committed (demo_message demo_envelope 0) None,
     Committed (demo_message demo_envelope 1) None])) \<le> nat 1"
    by (simp add: demo_envelope_def)
  from handled_at_most_once [OF fresh_demo_consumer this [folded demo_calls]] show ?thesis by (simp only: demo_calls)
qed

text \<open>
  C28: \<open>run\<close> returns: with \<open>max_events\<close> at \<open>m\<close> it returns exactly \<open>m\<close> once \<open>m\<close> deliverable messages
  have been polled, however many empty polls come between, and from any state it returns once
  \<open>close\<close> was called, or raises what a poll raised before.
\<close>

theorem run_returns:
  assumes "lru_ok (dedup c)" and "\<not> is_closed c" and "0 \<le> m"
    and "\<forall>(stop, en) \<in> set its. \<not> stop \<and> (idle en \<or> delivers en)" and "idle last_en"
    and "m \<le> int (length (filter (\<lambda>(stop, en). delivers en) its))"
  shows "fst (consumer_run lru_seen lru_record (its @ [(False, last_en)]) (Some m) 0 c) = Some (Inr m) \<and>
     fst (consumer_run lru_seen lru_record (any @ [(True, en)]) limit n c') \<noteq> None"
proof -
  have "fst (consumer_run lru_seen lru_record (any @ [(True, en)]) limit n c') \<noteq> None"
    by (rule run_stops [of en]) simp
  moreover have "\<forall>(stop, en) \<in> set (its @ [(False, last_en)]). \<not> stop \<and> (idle en \<or> delivers en)"
    using assms(4,5) by auto
  ultimately show ?thesis
    using lru.run_delivers [OF assms(1,2) _ refl assms(3)] assms(6) by simp
qed

lemma delivers_demo: "delivers (demo_poll (\<lambda>_. Inr ()) demo_envelope i)"
proof -
  have "env_event_type demo_envelope = PStr ''t''" "env_idempotency_key demo_envelope = PStr ''k''"
      "msg_error (demo_message demo_envelope i) = None"
    by (simp_all add: demo_envelope_def demo_message_def)
  then show ?thesis
    unfolding delivers_def demo_poll_def
    by (intro exI [of _ "demo_message demo_envelope i"] exI [of _ demo_envelope] exI [of _ "''k''"]
        exI [of _ "''t''"] exI [of _ "''true''"] exI [of _ "PBool True"])
      (simp add: demo_envelope_ok json_true)
qed

theorem run_returns_witness:
  "fst (consumer_run lru_seen lru_record
     [(False, (demo_poll (\<lambda>_. Inr ()) demo_envelope 0)\<lparr>pe_poll := Inr None\<rparr>),
      (False, demo_poll (\<lambda>_. Inr ()) demo_envelope 0),
      (False, (demo_poll (\<lambda>_. Inr ()) demo_envelope 0)\<lparr>pe_poll := Inr None\<rparr>)] (Some 1) 0 demo_consumer)
   = Some (Inr 1)"
proof -
  let ?idle = "(demo_poll (\<lambda>_. Inr ()) demo_envelope 0)\<lparr>pe_poll := Inr None\<rparr>"
  have "idle ?idle" by (simp add: idle_def)
  moreover from fresh_consumer(5,6) [OF fresh_demo_consumer]
  have "lru_ok (dedup demo_consumer)" "\<not> is_closed demo_consumer" .
  ultimately show ?thesis
    using run_returns [where its = "[(False, ?idle), (False, demo_poll (\<lambda>_. Inr ()) demo_envelope 0)]"
        and last_en = ?idle and m = 1 and c = demo_consumer] delivers_demo [of 0]
    by auto
qed

text \<open>
  C34: \<open>run\<close> counts commits: the number it returns is the number of offsets it committed; it never passes
  \<open>max_events\<close>, closed or not (a negative limit is a limit of none), and where the consumer is not closed it is
  exactly that limit.
\<close>

theorem run_counts_commits:
  "case consumer_run seen_key record_key its limit 0 c of
     (Some (Inr k), c') \<Rightarrow>
       (\<exists>evs. con_calls c' = con_calls c @ evs \<and> k = int (length (filter committed_ok evs))) \<and>
       (case limit of None \<Rightarrow> True | Some m \<Rightarrow> k \<le> max 0 m) \<and>
       (is_closed c' \<or> (\<exists>m. limit = Some m \<and> k = max 0 m))
   | _ \<Rightarrow> True"
proof (cases "consumer_run seen_key record_key its limit 0 c")
  case (Pair r c')
  show ?thesis
  proof (cases "\<exists>k. r = Some (Inr k)")
    case True
    then obtain k where "r = Some (Inr k)" by blast
    with run_result [of seen_key record_key its limit 0 c k c'] Pair show ?thesis by (auto split: option.split)
  next
    case False
    with Pair show ?thesis by (auto split: option.split sum.split)
  qed
qed

text \<open>
  C36: what decoding raises: a message with no body, or one whose body is not UTF-8, not JSON, lacks a
  member or holds a malformed identifier or timestamp, is an \<open>EventBusError\<close>; but a body that is
  JSON of another shape escapes as a \<open>TypeError\<close> or an \<open>AttributeError\<close>, which the method does not
  document: the body \<open>[]\<close> and an object whose \<open>event_id\<close> is a number are such bodies.  A body nested more
  deeply than the stack allows escapes as a \<open>RecursionError\<close>, and no other body does.
\<close>

theorem decode_errors_spec:
  "(case decode_on_stack overflow m of Inr e \<Rightarrow> True
    | Inl e \<Rightarrow> exn_class e \<in> {Bus EventBusError, Other TypeError, Other AttributeError, Other RecursionError, Other OutsideFragment}) \<and>
   (raises (decode_on_stack overflow m) (Other RecursionError) \<longleftrightarrow>
      (\<exists>raw s. msg_value m = Some raw \<and> utf8_decode raw = Inr s \<and> overflow s)) \<and>
   decode_on_stack (\<lambda>_. False) m = decode m \<and>
   raises (decode (m\<lparr>msg_value := None\<rparr>)) (Bus EventBusError) \<and>
   raises (decode (m\<lparr>msg_value := Some ''{}''\<rparr>)) (Bus EventBusError) \<and>
   raises (decode (m\<lparr>msg_value := Some ''[]''\<rparr>)) (Other TypeError) \<and>
   raises (decode (m\<lparr>msg_value := Some (enc '','' '':'' (PDict [(''event_id'', PInt 5)]))\<rparr>)) (Other AttributeError)"
proof (intro conjI, goal_cases)
  case 1
  show ?case
  proof (cases "msg_value m")
    case None
    then show ?thesis by (simp add: decode_on_stack_def event_bus_error_def)
  next
    case (Some raw)
    show ?thesis
    proof (cases "envelope_from_bytes_on overflow raw")
      case (Inl x)
      from decode_on_stack_class [OF Some Inl] show ?thesis by (auto split: if_splits)
    qed (simp add: decode_on_stack_def Some)
  qed
next
  case 2
  show ?case by (rule decode_recursion)
qed (simp only: decode_def, (intro raises_decode bodies)+)

end
