(* ===== verification/Redelivery.thy ===== *)
theory Redelivery
  imports Consumer "HOL-Library.Sublist"
begin

section \<open>Restarted consumers\<close>

text \<open>
  At-least-once delivery, the promise of \<^verbatim>\<open>event-bus-sdk/trustlist_event_bus/consumer.py\<close>, over a partition and a
  sequence of consumer processes.  A process builds its consumer, calls \<open>run\<close>, and ends when \<open>run\<close>
  returns or raises, or is killed; the next one starts with a new consumer, the in-memory store lost.
  What the broker does is a hypothesis (\<open>from_committed\<close>): a process is given the messages of the
  partition in their order, from the committed offset on.
\<close>

type_synonym iteration = "bool \<times> poll_env"

fun polled_message :: "iteration \<Rightarrow> message list" where
  "polled_message (stop, en) =
     (case pe_poll en of
        Inr (Some m) \<Rightarrow> if msg_error m = None then [m] else []
      | _ \<Rightarrow> [])"

definition polled :: "iteration list \<Rightarrow> message list" where
  "polled its = concat (map polled_message its)"

fun committed_message :: "consumer_event \<Rightarrow> message list" where
  "committed_message (Committed m None) = [m]"
| "committed_message _ = []"

definition committed :: "consumer_event list \<Rightarrow> message list" where
  "committed evs = concat (map committed_message evs)"

lemma polled_simps [simp]: "polled [] = []" "polled (it # its) = polled_message it @ polled its"
  by (simp_all add: polled_def)

lemma committed_simps [simp]:
  "committed [] = []" "committed (ev # evs) = committed_message ev @ committed evs"
  "committed (evs @ evs') = committed evs @ committed evs'"
  by (simp_all add: committed_def)

text \<open>The calls one process makes: \<open>run\<close> with its limit over the iterations it gets to.\<close>

definition process_calls :: "int option \<times> iteration list \<Rightarrow> lru_store consumer \<Rightarrow> consumer_event list" where
  "process_calls s c = con_calls (snd (consumer_run lru_seen lru_record (snd s) (fst s) 0 c))"

definition sessions_calls :: "(int option \<times> iteration list) list \<Rightarrow> lru_store consumer \<Rightarrow> consumer_event list" where
  "sessions_calls ss c = concat (map (\<lambda>s. process_calls s c) ss)"

fun from_committed ::
  "lru_store consumer \<Rightarrow> message list \<Rightarrow> (int option \<times> iteration list) list \<Rightarrow> bool" where
  "from_committed c log [] = True"
| "from_committed c log (s # ss) =
     (prefix (polled (snd s)) log \<and> from_committed c (drop (length (committed (process_calls s c))) log) ss)"

subsection \<open>One process\<close>

lemma quiet_poll:
  "poll_once seen_key record_key en c = (Inr None, c') \<Longrightarrow> polled_message (stop, en) = []"
  by (auto simp: poll_once_def process_def andthen_def
      split: sum.splits option.splits prod.splits if_splits)

lemma delivered_poll:
  "poll_once seen_key record_key en c = (Inr (Some e), c') \<Longrightarrow>
     \<exists>m. pe_poll en = Inr (Some m) \<and> polled_message (stop, en) = [m]"
  by (auto simp: poll_once_def split: sum.splits option.splits if_splits)

text \<open>A poll that returns commits what it was given, one that raises commits nothing.\<close>

lemma poll_once_commits:
  assumes "poll_once seen_key record_key en c = (r, c')"
  shows "\<exists>evs. con_calls c' = con_calls c @ evs \<and> is_closed c' = is_closed c \<and>
    committed evs = (case r of Inl _ \<Rightarrow> [] | Inr _ \<Rightarrow> polled_message (stop, en))"
proof -
  from poll_once_effect [OF assms] obtain evs where evs: "con_calls c' = con_calls c @ evs"
      "is_closed c' = is_closed c"
      and eff: "poll_effect seen_key record_key en (dedup c) evs r (dedup c')" by blast
  have "committed evs = (case r of Inl _ \<Rightarrow> [] | Inr _ \<Rightarrow> polled_message (stop, en))"
  proof (cases r)
    case (Inl e)
    with eff show ?thesis by cases (auto split: option.splits)
  next
    case (Inr x)
    show ?thesis
    proof (cases x)
      case None
      with eff Inr have "committed evs = []" by cases (auto split: option.splits)
      moreover have "polled_message (stop, en) = []"
        using assms unfolding Inr None by (rule quiet_poll)
      ultimately show ?thesis unfolding Inr by (simp del: polled_message.simps)
    next
      case (Some e)
      from delivered_poll assms Inr Some obtain m where
        m: "pe_poll en = Inr (Some m)" "polled_message (stop, en) = [m]" by blast
      from eff Inr Some m(1) have "committed evs = [m]" by cases (auto split: option.splits)
      with m Inr show ?thesis by simp
    qed
  qed
  with evs show ?thesis by blast
qed

text \<open>So what \<open>run\<close> commits has no gap: it is an initial part of what it polled.\<close>

lemma run_commits_prefix:
  "\<exists>evs. con_calls (snd (consumer_run seen_key record_key its limit n c)) = con_calls c @ evs \<and>
     prefix (committed evs) (polled its)"
proof (induction its arbitrary: n c)
  case (Cons it its)
  obtain stop en where it: "it = (stop, en)" by (cases it)
  define c1 where "c1 = (if stop then consumer_close c else c)"
  have c1: "con_calls c1 = con_calls c" by (simp add: c1_def consumer_close_def)
  show ?case
  proof (cases "is_closed c1 \<or> limit \<noteq> None \<and> the limit \<le> n")
    case True
    then show ?thesis by (auto simp: it Let_def c1_def [symmetric] c1)
  next
    case False
    obtain r c2 where p: "poll_once seen_key record_key en c1 = (r, c2)" by fastforce
    from poll_once_commits [OF p, of stop] obtain evs1 where e1: "con_calls c2 = con_calls c @ evs1"
        "committed evs1 = (case r of Inl _ \<Rightarrow> [] | Inr _ \<Rightarrow> polled_message (stop, en))" using c1 by auto
    show ?thesis
    proof (cases r)
      case (Inl e)
      with False p have "snd (consumer_run seen_key record_key (it # its) limit n c) = c2"
        by (auto simp: it Let_def c1_def [symmetric])
      with e1 Inl show ?thesis by simp
    next
      case (Inr x)
      with False p have "snd (consumer_run seen_key record_key (it # its) limit n c) =
          snd (consumer_run seen_key record_key its limit (if x = None then n else n + 1) c2)"
        by (auto simp: it Let_def c1_def [symmetric])
      with Cons.IH [of "if x = None then n else n + 1" c2] e1 Inr it show ?thesis by auto
    qed
  qed
qed simp

context dedup_store
begin

lemma run_inv: "consumer_inv c \<Longrightarrow> consumer_inv (snd (consumer_run seen_key record_key its limit n c))"
proof (induction its arbitrary: n c)
  case (Cons it its)
  obtain stop en where it: "it = (stop, en)" by (cases it)
  define c1 where "c1 = (if stop then consumer_close c else c)"
  have "consumer_inv c1" using Cons.prems by (simp add: c1_def consumer_close_def consumer_inv_def)
  then have "consumer_inv (snd (poll_once seen_key record_key en c1))" by (rule poll_once_inv)
  with Cons.IH \<open>consumer_inv c1\<close> show ?case
    by (auto simp: it Let_def c1_def [symmetric] split: prod.split sum.split)
qed simp

lemma run_commits_all:
  assumes "store_ok (dedup c)" and "\<not> is_closed c"
    and "\<forall>(stop, en) \<in> set its. \<not> stop \<and> (idle en \<or> delivers en)"
  shows "\<exists>evs. con_calls (snd (consumer_run seen_key record_key its None n c)) = con_calls c @ evs \<and>
    committed evs = polled its"
  using assms
proof (induction its arbitrary: n c)
  case (Cons it its)
  obtain stop en where it: "it = (stop, en)" by (cases it)
  with Cons.prems(3) have en: "\<not> stop" "idle en \<or> delivers en" by auto
  have "\<exists>x c2. poll_once seen_key record_key en c = (Inr x, c2) \<and> store_ok (dedup c2)"
  proof (cases "delivers en")
    case True
    with delivers_processes [OF True Cons.prems(1)] show ?thesis by blast
  next
    case False
    with en have "poll_once seen_key record_key en c = (Inr None, c)" by (simp add: idle_def poll_once_def)
    with Cons.prems(1) show ?thesis by blast
  qed
  then obtain x c2 where p: "poll_once seen_key record_key en c = (Inr x, c2)" "store_ok (dedup c2)" by blast
  from poll_once_commits [OF p(1), of stop] obtain evs1 where e1: "con_calls c2 = con_calls c @ evs1"
      "is_closed c2 = is_closed c" "committed evs1 = polled_message (stop, en)" by auto
  have step: "snd (consumer_run seen_key record_key (it # its) None n c) =
      snd (consumer_run seen_key record_key its None (if x = None then n else n + 1) c2)"
    using en Cons.prems(2) p(1) by (simp add: it)
  from Cons.IH [OF p(2) _ , of "if x = None then n else n + 1"] Cons.prems(2,3) e1(2) obtain evs2 where
    "con_calls (snd (consumer_run seen_key record_key its None (if x = None then n else n + 1) c2)) = con_calls c2 @ evs2"
    "committed evs2 = polled its" by auto
  with e1 step it have "con_calls (snd (consumer_run seen_key record_key (it # its) None n c)) = con_calls c @ (evs1 @ evs2) \<and>
      committed (evs1 @ evs2) = polled (it # its)" by simp
  then show ?case by blast
qed simp

end

subsection \<open>A sequence of processes\<close>

definition handled_in :: "consumer_event list \<Rightarrow> message set" where
  "handled_in evs = {m. \<exists>env k. decode m = Inr env \<and> hash_key (env_idempotency_key env) = Inr k \<and>
     k \<in> set (success_keys evs)}"

lemma committed_handled:
  assumes "commits_follow_handling evs"
  shows "set (committed evs) \<subseteq> handled_in evs"
proof
  fix m
  assume "m \<in> set (committed evs)"
  then obtain ev where "ev \<in> set evs" "m \<in> set (committed_message ev)" by (auto simp: committed_def)
  then have "Committed m None \<in> set evs" by (cases ev rule: committed_message.cases) auto
  then obtain before after where evs: "evs = before @ Committed m None # after" by (meson split_list)
  with assms obtain env k where "decode m = Inr env" "hash_key (env_idempotency_key env) = Inr k"
      "k \<in> set (success_keys before)"
    unfolding commits_follow_handling_def by blast
  with evs show "m \<in> handled_in evs" by (auto simp: handled_in_def)
qed

lemma handled_in_append [simp]: "handled_in (evs @ evs') = handled_in evs \<union> handled_in evs'"
  by (auto simp: handled_in_def)

lemma sessions_calls_simps [simp]:
  "sessions_calls [] c = []"
  "sessions_calls (s # ss) c = process_calls s c @ sessions_calls ss c"
  "sessions_calls (ss @ ss') c = sessions_calls ss c @ sessions_calls ss' c"
  by (simp_all add: sessions_calls_def)

lemma process_prefix: "con_calls c = [] \<Longrightarrow> prefix (committed (process_calls s c)) (polled (snd s))"
  using run_commits_prefix [of lru_seen lru_record "snd s" "fst s" 0 c] by (auto simp: process_calls_def)

lemma process_handled:
  "lru.consumer_inv c \<Longrightarrow> set (committed (process_calls s c)) \<subseteq> handled_in (process_calls s c)"
  using lru.run_inv [of c "snd s" "fst s" 0] committed_handled
  by (simp add: process_calls_def lru.consumer_inv_def)

lemma sessions_prefix:
  assumes "con_calls c = []" and "from_committed c log ss"
  shows "prefix (committed (sessions_calls ss c)) log"
  using assms(2)
proof (induction ss arbitrary: log)
  case (Cons s ss)
  let ?done = "committed (process_calls s c)"
  from Cons.prems have "prefix ?done log"
    using process_prefix [OF assms(1), of s] prefix_order.trans by auto
  then obtain rest where log: "log = ?done @ rest" by (auto simp: prefix_def)
  with Cons.prems have "from_committed c rest ss" by (metis append_eq_conv_conj from_committed.simps(2))
  from Cons.IH [OF this] have "prefix (committed (sessions_calls ss c)) rest" .
  then show ?case by (subst log) simp
qed simp

lemma sessions_handled:
  "lru.consumer_inv c \<Longrightarrow> set (committed (sessions_calls ss c)) \<subseteq> handled_in (sessions_calls ss c)"
proof (induction ss)
  case (Cons s ss)
  with process_handled [of c s] show ?case by auto
qed simp

subsection \<open>One client on a partition\<close>

text \<open>
  What a Kafka client documents of \<open>poll\<close>, \<open>seek\<close> and \<open>commit\<close>: it delivers the message at its position and moves to the
  next; only a \<open>seek\<close> moves it otherwise; and committing a message commits the offset after it.  \<open>deliveries\<close> calls
  \<open>poll_once\<close> once for each environment, whether it returned or raised, and gives the positions delivered, the position
  reached and the consumer.  The client is never without a message before the end of the partition.
\<close>

definition at_position :: "message list \<Rightarrow> nat \<Rightarrow> poll_env \<Rightarrow> poll_env" where
  "at_position log pos en = en\<lparr>pe_poll := Inr (if pos < length log then Some (log ! pos) else None)\<rparr>"

fun sought :: "consumer_event \<Rightarrow> nat \<Rightarrow> nat" where
  "sought (Sought (topic, part, offset)) pos = nat offset"
| "sought _ pos = pos"

fun deliveries ::
  "message list \<Rightarrow> poll_env list \<Rightarrow> nat \<Rightarrow> lru_store consumer \<Rightarrow> nat list \<times> nat \<times> lru_store consumer" where
  "deliveries log [] pos c = ([], pos, c)"
| "deliveries log (en # ens) pos c =
     (let c' = snd (poll_once lru_seen lru_record (at_position log pos en) c);
          made = drop (length (con_calls c)) (con_calls c');
          pos' = fold sought made (if pos < length log then Suc pos else pos)
      in case deliveries log ens pos' c' of
           (ps, rest) \<Rightarrow> ((if pos < length log then [pos] else []) @ ps, rest))"

definition committed_offset :: "consumer_event list \<Rightarrow> int option" where
  "committed_offset evs =
     (case rev (committed evs) of [] \<Rightarrow> None | m # _ \<Rightarrow> Some (snd (snd (msg_position m)) + 1))"

text \<open>A poll never seeks, so no position is delivered twice.\<close>

lemma never_seeks:
  assumes "poll_once lru_seen lru_record en c = (r, c')"
  shows "fold sought (drop (length (con_calls c)) (con_calls c')) pos = pos"
proof -
  from poll_once_effect [OF assms] obtain evs where evs: "con_calls c' = con_calls c @ evs"
    and "poll_effect lru_seen lru_record en (dedup c) evs r (dedup c')" by blast
  from this(2) have "fold sought evs pos = pos" by cases simp_all
  with evs show ?thesis by simp
qed

lemma deliveries_step:
  assumes "poll_once lru_seen lru_record (at_position log pos en) c = (r, c')" and "pos < length log"
  shows "deliveries log (en # ens) pos c =
    (case deliveries log ens (Suc pos) c' of (ps, rest) \<Rightarrow> (pos # ps, rest))"
  using assms never_seeks [OF assms(1)] by (simp add: Let_def)

lemma deliveries_forward: "list_all (\<lambda>i. pos \<le> i) (fst (deliveries log ens pos c))"
proof (induction ens arbitrary: pos c)
  case (Cons en ens)
  obtain r c' where p: "poll_once lru_seen lru_record (at_position log pos en) c = (r, c')" by fastforce
  let ?next = "if pos < length log then Suc pos else pos"
  obtain ps rest where rest: "deliveries log ens ?next c' = (ps, rest)" by (cases "deliveries log ens ?next c'")
  from Cons.IH [of ?next c'] rest have "list_all (\<lambda>i. ?next \<le> i) ps" by simp
  then have "list_all (\<lambda>i. pos \<le> i) ps" by (rule list.pred_mono_strong) (simp split: if_splits)
  with rest show ?case by (simp add: Let_def p never_seeks [OF p])
qed simp

lemma delivers_any_handler: "delivers en \<Longrightarrow> delivers (en\<lparr>pe_handler := \<lambda>_. Inr ()\<rparr>)"
  by (auto simp: delivers_def)

text \<open>For an event whose key is not recorded the outcome of a poll is the handler's.\<close>

lemma unseen_poll:
  assumes del: "delivers (en\<lparr>pe_handler := \<lambda>_. Inr ()\<rparr>)" and m: "pe_poll en = Inr (Some m)" "decode m = Inr env"
    and c: "env_idempotency_key env \<notin> set (lru_keys (dedup c))"
  obtains (failed) reg e where "pe_handler en env = Inl e"
      "poll_once lru_seen lru_record en c =
         (Inl e, c\<lparr>con_registry := reg, con_calls := con_calls c @ [Handled env (Some e)]\<rparr>)"
    | (handled) c' where "pe_handler en env = Inr ()" "poll_once lru_seen lru_record en c = (Inr (Some env), c')"
      "con_calls c' = con_calls c @ [Handled env None, Committed m None]"
proof -
  from del m obtain k et text_of doc where en: "msg_error m = None"
      "env_idempotency_key env = PStr k" "env_event_type env = PStr et"
      "pe_latest en (subject_for et) = Inr (Some text_of)" "json_loads text_of = Inr doc"
      "\<forall>d. pe_js en d (env_payload env) = Inr ()" "pe_commit en = Inr ()"
    unfolding delivers_def by auto
  obtain reg where val: "validate (pe_js en) (pe_latest en) (PStr et) (env_payload env) (con_registry c) = (Inr (), reg)"
    using validate_passes [where latest = "pe_latest en" and js = "pe_js en" and reg = "con_registry c",
        OF en(4) en(5) en(6)] by (metis prod.collapse)
  have seen: "lru_seen (PStr k) (dedup c) = (Inr False, dedup c)" using c en(2) by (simp add: lru_seen_def)
  obtain d where rec: "lru_record (PStr k) (dedup c) = (Inr (), d)" by (simp add: lru_record_def)
  show ?thesis
  proof (cases "pe_handler en env")
    case (Inl e)
    with en m val seen have "poll_once lru_seen lru_record en c =
        (Inl e, c\<lparr>con_registry := reg, con_calls := con_calls c @ [Handled env (Some e)]\<rparr>)"
      by (simp add: poll_once_def process_def on_registry_def andthen_def on_dedup_def call_handler_def call_out_def)
    with Inl show ?thesis by (rule failed)
  next
    case (Inr u)
    then have ok: "pe_handler en env = Inr ()" by simp
    from Inr en m val seen rec have "poll_once lru_seen lru_record en c = (Inr (Some env),
        c\<lparr>con_registry := reg, dedup := d, con_calls := con_calls c @ [Handled env None, Committed m None]\<rparr>)"
      by (simp add: poll_once_def process_def on_registry_def andthen_def on_dedup_def call_handler_def commit_def
          call_out_def)
    from handled [OF ok this] show ?thesis by simp
  qed
qed

subsection \<open>Properties\<close>

text \<open>
  C2: at-least-once: over any sequence of consumer processes, however each ends and whatever fails in
  it, given by the broker the messages of a partition in order from the committed offset on, what has been committed
  is an initial part of the partition without a gap, and every event in it was processed successfully
  by the handler; and a last process that meets no failure and is given all that remains completes the partition,
  every one of its events having been handled.
\<close>

theorem at_least_once:
  assumes "InMemoryDedupStore capacity = Inr d"
    and "EventConsumer environ gid config registry d extra = Inr c"
    and "from_committed c log ss"
  shows "prefix (committed (sessions_calls ss c)) log \<and>
    set (committed (sessions_calls ss c)) \<subseteq> handled_in (sessions_calls ss c) \<and>
    ((\<forall>(stop, en) \<in> set its. \<not> stop \<and> (idle en \<or> delivers en)) \<longrightarrow>
     polled its = drop (length (committed (sessions_calls ss c))) log \<longrightarrow>
     set log \<subseteq> handled_in (sessions_calls (ss @ [(None, its)]) c))"
proof -
  note fresh = fresh_consumer [OF assms(1,2)]
  have pre: "prefix (committed (sessions_calls ss c)) log" by (rule sessions_prefix [OF fresh(4) assms(3)])
  have "set log \<subseteq> handled_in (sessions_calls (ss @ [(None, its)]) c)"
    if its: "\<forall>(stop, en) \<in> set its. \<not> stop \<and> (idle en \<or> delivers en)"
      and rest: "polled its = drop (length (committed (sessions_calls ss c))) log"
  proof -
    have "committed (process_calls (None, its) c) = polled its"
      using lru.run_commits_all [OF fresh(5,6) its, of 0] by (auto simp: process_calls_def fresh(4))
    with pre rest have "log = committed (sessions_calls (ss @ [(None, its)]) c)"
      by (auto simp: prefix_def)
    then show ?thesis using sessions_handled [OF fresh(1), of "ss @ [(None, its)]"] by simp
  qed
  with pre sessions_handled [OF fresh(1)] show ?thesis by blast
qed

definition failing_poll :: poll_env where
  "failing_poll = demo_poll (\<lambda>_. Inl (Exn (Other OtherException) ''handler failed'')) demo_envelope 0"

theorem at_least_once_witness:
  "{demo_message demo_envelope 0} \<subseteq> handled_in (sessions_calls
     [(None, [(False, failing_poll)]), (None, [(False, demo_poll (\<lambda>_. Inr ()) demo_envelope 0)])] demo_consumer)"
proof -
  let ?m = "demo_message demo_envelope 0"
  let ?its = "[(False, demo_poll (\<lambda>_. Inr ()) demo_envelope 0)]"
  let ?ss = "[(None, [(False, failing_poll)])] :: (int option \<times> iteration list) list"
  have msg: "msg_error (demo_message e i) = None" for e i by (simp add: demo_message_def)
  have "from_committed demo_consumer [?m] ?ss"
    by (simp add: failing_poll_def demo_poll_def msg)
  note main = at_least_once [OF fresh_demo_consumer this, of ?its]
  have fields: "env_event_type demo_envelope = PStr ''t''" "env_idempotency_key demo_envelope = PStr ''k''"
    by (simp_all add: demo_envelope_def)
  have "process_calls (None, [(False, failing_poll)]) demo_consumer =
      [Handled demo_envelope (Some (Exn (Other OtherException) ''handler failed''))]"
    by (simp add: process_calls_def failing_poll_def poll_once_def demo_poll_def msg demo_envelope_ok process_def
        on_registry_def andthen_def validate_def get_validator_def fields json_true on_dedup_def lru_seen_def
        call_handler_def call_out_def demo_consumer_def new_registry_def)
  then have none: "committed (sessions_calls ?ss demo_consumer) = []" by simp
  have "polled ?its = [?m]" by (simp add: demo_poll_def msg)
  with main none delivers_demo show ?thesis by simp
qed

text \<open>
  C38: a failed event is passed over: when the handler raises on an event that passed every check, its key not yet
  recorded, and the caller polls the same consumer again, what the client delivers is the next message of the partition.  The calls of the two polls
  are exactly the handler call that failed, the handler call for the second event, and the commit of the second event;
  there is no seek back.  The committed offset is then past the failed event, so it is delivered again neither by any
  further poll of this consumer nor by any consumer that starts from the committed offset: unless the consumer is
  restarted before it polls again, the event that the comment says is redelivered is lost.
\<close>

theorem failed_event_passed_over:
  assumes log: "log = before @ m1 # m2 # after" "msg_position m2 = (topic, part, int (length before) + 1)"
    and unseen: "env_idempotency_key env1 \<notin> set (lru_keys (dedup c))" "env_idempotency_key env2 \<notin> set (lru_keys (dedup c))"
    and first: "decode m1 = Inr env1" "delivers (en1\<lparr>pe_poll := Inr (Some m1), pe_handler := \<lambda>_. Inr ()\<rparr>)"
    and raised: "pe_handler en1 env1 = Inl e"
    and second: "decode m2 = Inr env2" "delivers (en2\<lparr>pe_poll := Inr (Some m2)\<rparr>)"
  shows "case deliveries log [en1, en2] (length before) c of (ps, pos, c') \<Rightarrow>
     ps = [length before, length before + 1] \<and> pos = length before + 2 \<and>
     con_calls c' = con_calls c @ [Handled env1 (Some e), Handled env2 None, Committed m2 None] \<and>
     committed_offset (con_calls c') = Some (int (length before) + 2) \<and>
     list_all (\<lambda>i. length before + 2 \<le> i) (fst (deliveries log ens pos c')) \<and>
     list_all (\<lambda>i. length before + 2 \<le> i)
       (fst (deliveries log ens (nat (the (committed_offset (con_calls c')))) restarted))"
proof -
  let ?n = "length before"
  have at: "at_position log ?n en1 = en1\<lparr>pe_poll := Inr (Some m1)\<rparr>"
      "at_position log (Suc ?n) en2 = en2\<lparr>pe_poll := Inr (Some m2)\<rparr>"
    by (simp_all add: at_position_def log nth_append)
  have inside: "?n < length log" "Suc ?n < length log" by (simp_all add: log)
  obtain c1 where p1: "poll_once lru_seen lru_record (at_position log ?n en1) c = (Inl e, c1)"
      "con_calls c1 = con_calls c @ [Handled env1 (Some e)]" "dedup c1 = dedup c"
    by (rule unseen_poll [OF _ _ first(1) unseen(1), where en = "at_position log ?n en1"])
      (use first(2) raised in \<open>simp_all add: at\<close>)
  from second have ok2: "pe_handler en2 env2 = Inr ()" by (auto simp: delivers_def)
  obtain c2 where p2: "poll_once lru_seen lru_record (at_position log (Suc ?n) en2) c1 = (Inr (Some env2), c2)"
      "con_calls c2 = con_calls c1 @ [Handled env2 None, Committed m2 None]"
    by (rule unseen_poll [OF _ _ second(1) unseen(2) [folded p1(3)], where en = "at_position log (Suc ?n) en2"])
      (use delivers_any_handler [OF second(2)] ok2 in \<open>simp_all add: at\<close>)
  have "deliveries log [en1, en2] ?n c = ([?n, Suc ?n], Suc (Suc ?n), c2)"
    using deliveries_step [OF p1(1) inside(1), of "[en2]"] deliveries_step [OF p2(1) inside(2), of "[]"]
    by (simp del: deliveries.simps(2))
  moreover have "con_calls c2 = con_calls c @ [Handled env1 (Some e), Handled env2 None, Committed m2 None]"
    by (simp add: p1(2) p2(2))
  moreover from this have "committed_offset (con_calls c2) = Some (int ?n + 2)"
    by (simp add: committed_offset_def log(2))
  moreover have "nat (int ?n + 2) = ?n + 2" by simp
  ultimately show ?thesis
    using deliveries_forward [of "?n + 2" log ens c2] deliveries_forward [of "?n + 2" log ens restarted] by simp
qed

theorem failed_event_passed_over_witness:
  "case deliveries [demo_message demo_envelope 0, demo_message demo_envelope 1]
       [failing_poll, demo_poll (\<lambda>_. Inr ()) demo_envelope 1] 0 demo_consumer of (ps, pos, c') \<Rightarrow>
     con_calls c' = [Handled demo_envelope (Some (Exn (Other OtherException) ''handler failed'')),
       Handled demo_envelope None, Committed (demo_message demo_envelope 1) None] \<and>
     committed_offset (con_calls c') = Some 2"
proof -
  let ?m = "demo_message demo_envelope"
  have poll: "failing_poll\<lparr>pe_poll := Inr (Some (?m 0)), pe_handler := \<lambda>_. Inr ()\<rparr> = demo_poll (\<lambda>_. Inr ()) demo_envelope 0"
      "(demo_poll (\<lambda>_. Inr ()) demo_envelope 1)\<lparr>pe_poll := Inr (Some (?m 1))\<rparr> = demo_poll (\<lambda>_. Inr ()) demo_envelope 1"
    by (simp_all add: failing_poll_def demo_poll_def)
  have m: "[?m 0, ?m 1] = [] @ ?m 0 # ?m 1 # []" "msg_position (?m 1) = (''topic'', 0, int (length []) + 1)"
    by (simp_all add: demo_message_def)
  have dec: "decode (?m i) = Inr demo_envelope" for i by (simp add: demo_envelope_ok)
  have offset: "committed_offset [Handled demo_envelope (Some (Exn (Other OtherException) ''handler failed'')),
      Handled demo_envelope None, Committed (?m 1) None] = Some 2"
    by (simp add: committed_offset_def demo_message_def)
  have unseen: "env_idempotency_key demo_envelope \<notin> set (lru_keys (dedup demo_consumer))"
    by (simp add: demo_consumer_def)
  have none: "con_calls demo_consumer = []" by (simp add: demo_consumer_def)
  have fails: "pe_handler failing_poll demo_envelope = Inl (Exn (Other OtherException) ''handler failed'')"
    by (simp add: failing_poll_def demo_poll_def)
  from failed_event_passed_over [where ?en2.0 = "demo_poll (\<lambda>_. Inr ()) demo_envelope 1" and c = demo_consumer,
      OF m unseen unseen dec _ fails dec, unfolded poll, OF delivers_demo delivers_demo]
  show ?thesis unfolding case_prod_beta by (simp only: list.size of_nat_0 add_0 append_Nil none offset simp_thms)
qed

end
