(* ===== verification/Data_Model.thy ===== *)
theory Data_Model
  imports Errors
begin

section \<open>The canonical data model\<close>

text \<open>
  \<^verbatim>\<open>data-model/trustlist_data_model/models.py\<close>: the enum types and the fifteen tables, one
  definition per class, with the column helpers and the naming convention of the file.
  \<open>compile_table\<close> is what a class says of its table once the naming convention has named its
  constraints: a primary key from the columns marked so, a foreign key for every
  \<open>ForeignKey(...)\<close>, and the table arguments.
\<close>

datatype sql_type =
    T_Uuid | T_Varchar nat | T_Text | T_Numeric nat nat | T_Timestamptz | T_Boolean | T_Bytea
  | T_Jsonb | T_Inet | T_Enum string

datatype constraint =
    PrimaryKey string "string list"
  | Unique string "string list"
  | Check string string
  | ForeignKey string "string list" string "string list"

record sql_column =
  c_name :: string
  c_type :: sql_type
  c_default :: "string option"
  c_nullable :: bool

definition sa_column :: "string \<Rightarrow> sql_type \<Rightarrow> string option \<Rightarrow> bool \<Rightarrow> sql_column" where
  "sa_column n t d nullable = \<lparr>c_name = n, c_type = t, c_default = d, c_nullable = nullable\<rparr>"

record sql_table =
  t_name :: string
  t_columns :: "sql_column list"
  t_constraints :: "constraint list"

subsection \<open>Declarative columns and table arguments\<close>

record orm_column =
  oc_column :: sql_column
  oc_primary :: bool
  oc_references :: "(string \<times> string) option"

definition column :: "string \<Rightarrow> sql_type \<Rightarrow> bool \<Rightarrow> orm_column" where
  "column n t nullable =
     \<lparr>oc_column = sa_column n t None nullable, oc_primary = False, oc_references = None\<rparr>"

definition defaulting :: "string \<Rightarrow> orm_column \<Rightarrow> orm_column" where
  "defaulting d c = c\<lparr>oc_column := (oc_column c)\<lparr>c_default := Some d\<rparr>\<rparr>"

definition references :: "string \<Rightarrow> string \<Rightarrow> orm_column \<Rightarrow> orm_column" where
  "references t n c = c\<lparr>oc_references := Some (t, n)\<rparr>"

definition primary :: "orm_column \<Rightarrow> orm_column" where
  "primary c = c\<lparr>oc_primary := True\<rparr>"

definition uuid_pk :: "string \<Rightarrow> orm_column" where
  "uuid_pk n = primary (defaulting ''gen_random_uuid()'' (column n T_Uuid False))"

definition created_at :: orm_column where
  "created_at = defaulting ''now()'' (column ''created_at'' T_Timestamptz False)"

definition updated_at :: orm_column where
  "updated_at = defaulting ''now()'' (column ''updated_at'' T_Timestamptz False)"

datatype table_arg =
    UniqueArg "string option" "string list"
  | CheckArg string string
  | IndexArg string "string list"
  | ForeignKeyArg "string option" "string list" string "string list"

record orm_table =
  o_name :: string
  o_columns :: "orm_column list"
  o_args :: "table_arg list"

text \<open>A quoted SQL literal.\<close>

definition quoted :: "string \<Rightarrow> string" where
  "quoted s = CHR 0x27 # s @ [CHR 0x27]"

subsection \<open>The naming convention\<close>

fun join_names :: "string list \<Rightarrow> string" where
  "join_names [] = []"
| "join_names [c] = c"
| "join_names (c # cs) = c @ ''_'' @ join_names cs"

definition uq_name :: "string \<Rightarrow> string list \<Rightarrow> string" where
  "uq_name t cs = ''uq_'' @ t @ ''_'' @ join_names cs"

definition ck_name :: "string \<Rightarrow> string \<Rightarrow> string" where
  "ck_name t n = ''ck_'' @ t @ ''_'' @ n"

definition fk_name :: "string \<Rightarrow> string list \<Rightarrow> string \<Rightarrow> string" where
  "fk_name t cs referred = ''fk_'' @ t @ ''_'' @ hd cs @ ''_'' @ referred"

definition pk_name :: "string \<Rightarrow> string" where
  "pk_name t = ''pk_'' @ t"

fun compile_arg :: "string \<Rightarrow> table_arg \<Rightarrow> constraint list" where
  "compile_arg t (UniqueArg n cs) = [Unique (case n of None \<Rightarrow> uq_name t cs | Some m \<Rightarrow> m) cs]"
| "compile_arg t (CheckArg n sql) = [Check (ck_name t n) sql]"
| "compile_arg t (IndexArg n cs) = []"
| "compile_arg t (ForeignKeyArg n cs r rcs) =
     [ForeignKey (case n of None \<Rightarrow> fk_name t cs r | Some m \<Rightarrow> m) cs r rcs]"

definition compile_reference :: "string \<Rightarrow> orm_column \<Rightarrow> constraint list" where
  "compile_reference t c =
     (case oc_references c of
        None \<Rightarrow> []
      | Some (r, rc) \<Rightarrow> [ForeignKey (fk_name t [c_name (oc_column c)] r) [c_name (oc_column c)] r [rc]])"

definition compile_table :: "orm_table \<Rightarrow> sql_table" where
  "compile_table o_t =
     \<lparr>t_name = o_name o_t,
      t_columns = map oc_column (o_columns o_t),
      t_constraints =
        PrimaryKey (pk_name (o_name o_t)) (map (c_name \<circ> oc_column) (filter oc_primary (o_columns o_t))) #
        concat (map (compile_reference (o_name o_t)) (o_columns o_t)) @
        concat (map (compile_arg (o_name o_t)) (o_args o_t))\<rparr>"

fun arg_index :: "string \<Rightarrow> table_arg \<Rightarrow> (string \<times> string \<times> string list) list" where
  "arg_index t (IndexArg n cs) = [(n, t, cs)]"
| "arg_index t _ = []"

definition compile_indexes :: "orm_table \<Rightarrow> (string \<times> string \<times> string list) list" where
  "compile_indexes o_t = concat (map (arg_index (o_name o_t)) (o_args o_t))"

subsection \<open>The enum types and the tables\<close>

definition model_append_only_tables :: "string list" where
  "model_append_only_tables =
     [''evidence'', ''provenance'', ''score_history'', ''attestation'', ''auth_audit_event'']"

definition orm_enums :: "(string \<times> string list) list" where
  "orm_enums =
     [(''domain_status'', [''green'', ''grey'', ''red'', ''under_review'', ''dormant'']),
      (''attestation_membership_status'', [''inferred'', ''operator_attested'', ''contested'']),
      (''evidence_source'', [''system'', ''human'', ''contributor'', ''cti_partner'']),
      (''attestation_verification_status'', [''pending'', ''verified'', ''rejected'', ''revoked'']),
      (''score_verdict'', [''green'', ''grey'', ''red'', ''under_review'']),
      (''user_archetype'', [''operator'', ''brand_customer'', ''foundation_internal'']),
      (''auth_audit_event_type'', [''login_success'', ''login_failure'', ''mfa_challenge_issued'',
        ''mfa_challenge_success'', ''mfa_challenge_failure'',
        ''password_change'', ''role_grant'', ''role_revoke'',
        ''account_disable'', ''session_revoke'']),
      (''operator_verification_tier'', [''tier_0'', ''tier_1'', ''tier_2'']),
      (''foundation_governance_role'', [''trust_council_voting'', ''trust_council_observer'',
        ''adjudicator'', ''ops_staff'', ''maintainer''])]"

definition orm_domain :: orm_table where
  "orm_domain = \<lparr>
     o_name = ''domain'',
     o_columns =
       [uuid_pk ''domain_id'',
        column ''normalised_url'' (T_Varchar 255) False,
        column ''current_status'' (T_Enum ''domain_status'') False,
        column ''current_score'' (T_Numeric 6 3) True,
        column ''score_version'' T_Text True,
        column ''last_scored_at'' T_Timestamptz True,
        created_at,
        updated_at],
     o_args =
       [UniqueArg (Some ''uq_domain_normalised_url'') [''normalised_url''],
        CheckArg ''normalised_url_is_normalised''
         (''normalised_url = lower(normalised_url) AND normalised_url !~ '' @
          quoted ''^[a-z][a-z0-9+.-]*://'' @ '' AND normalised_url NOT LIKE '' @
          quoted ''www.%'' @ '' AND normalised_url NOT LIKE '' @ quoted ''%?%'' @
          '' AND normalised_url NOT LIKE '' @ quoted ''%#%'' @ '' AND normalised_url !~ '' @
          quoted (CHR 0x5C # ''s'') @ '' AND length(normalised_url) > 0''),
        IndexArg ''ix_domain_current_status'' [''current_status''],
        IndexArg ''ix_domain_last_scored_at'' [''last_scored_at'']]\<rparr>"

definition orm_pool :: orm_table where
  "orm_pool = \<lparr>
     o_name = ''pool'',
     o_columns =
       [uuid_pk ''pool_id'',
        column ''canonical_handle'' (T_Varchar 128) False,
        column ''derived_status'' (T_Enum ''domain_status'') True,
        column ''derived_score'' (T_Numeric 6 3) True,
        defaulting ''false'' (column ''attestation_flag'' T_Boolean False),
        created_at,
        updated_at],
     o_args =
       [UniqueArg (Some ''uq_pool_canonical_handle'') [''canonical_handle'']]\<rparr>"

definition orm_domain_pool_membership :: orm_table where
  "orm_domain_pool_membership = \<lparr>
     o_name = ''domain_pool_membership'',
     o_columns =
       [primary (references ''domain'' ''domain_id'' (column ''domain_id'' T_Uuid False)),
        primary (references ''pool'' ''pool_id'' (column ''pool_id'' T_Uuid False)),
        primary (column ''valid_from'' T_Timestamptz False),
        column ''valid_until'' T_Timestamptz True,
        column ''confidence'' (T_Numeric 4 3) False,
        column ''attestation_status'' (T_Enum ''attestation_membership_status'') False,
        created_at],
     o_args =
       [CheckArg ''confidence_in_unit_interval''
         ''confidence >= 0 AND confidence <= 1'',
        IndexArg ''ix_domain_pool_membership_domain_id_valid_until'' [''domain_id'', ''valid_until'']]\<rparr>"

definition orm_provenance :: orm_table where
  "orm_provenance = \<lparr>
     o_name = ''provenance'',
     o_columns =
       [uuid_pk ''provenance_id'',
        column ''source'' (T_Enum ''evidence_source'') False,
        column ''method'' T_Text False,
        column ''observed_at'' T_Timestamptz False,
        references ''user_account'' ''user_id'' (column ''contributor_id'' T_Uuid True),
        column ''contributor_identity'' T_Text True,
        created_at],
     o_args =
       []\<rparr>"

definition orm_evidence :: orm_table where
  "orm_evidence = \<lparr>
     o_name = ''evidence'',
     o_columns =
       [uuid_pk ''evidence_id'',
        references ''domain'' ''domain_id'' (column ''domain_id'' T_Uuid False),
        column ''signal_class'' T_Text False,
        column ''source'' (T_Enum ''evidence_source'') False,
        column ''method'' T_Text False,
        defaulting (quoted []) (column ''source_url'' T_Text False),
        column ''observed_at'' T_Timestamptz False,
        defaulting ''now()'' (column ''recorded_at'' T_Timestamptz False),
        column ''contributor_identity'' T_Text True,
        column ''observed_value'' T_Jsonb False,
        references ''provenance'' ''provenance_id'' (column ''provenance_id'' T_Uuid False)],
     o_args =
       [IndexArg ''ix_evidence_domain_id_signal_class_observed_at'' [''domain_id'', ''signal_class'', ''observed_at DESC'']]\<rparr>"

definition orm_attestation :: orm_table where
  "orm_attestation = \<lparr>
     o_name = ''attestation'',
     o_columns =
       [uuid_pk ''attestation_id'',
        references ''domain'' ''domain_id'' (column ''domain_id'' T_Uuid False),
        references ''pool'' ''pool_id'' (column ''pool_id'' T_Uuid True),
        references ''user_account'' ''user_id'' (column ''operator_user_id'' T_Uuid False),
        column ''signature'' T_Bytea False,
        column ''signed_at'' T_Timestamptz False,
        column ''verification_status'' (T_Enum ''attestation_verification_status'') False,
        created_at],
     o_args =
       []\<rparr>"

definition orm_score :: orm_table where
  "orm_score = \<lparr>
     o_name = ''score'',
     o_columns =
       [primary (references ''domain'' ''domain_id'' (column ''domain_id'' T_Uuid False)),
        column ''composite_score'' (T_Numeric 6 3) False,
        column ''verdict'' (T_Enum ''score_verdict'') False,
        column ''category_scores'' T_Jsonb False,
        column ''rationale_summary'' T_Text True,
        defaulting ''false'' (column ''severity_flag'' T_Boolean False),
        column ''algorithm_version'' T_Text False,
        column ''computed_at'' T_Timestamptz False],
     o_args =
       []\<rparr>"

definition orm_score_history :: orm_table where
  "orm_score_history = \<lparr>
     o_name = ''score_history'',
     o_columns =
       [uuid_pk ''score_history_id'',
        references ''domain'' ''domain_id'' (column ''domain_id'' T_Uuid False),
        column ''composite_score'' (T_Numeric 6 3) False,
        column ''verdict'' (T_Enum ''score_verdict'') False,
        column ''category_scores'' T_Jsonb False,
        column ''rationale_summary'' T_Text True,
        defaulting ''false'' (column ''severity_flag'' T_Boolean False),
        column ''algorithm_version'' T_Text False,
        column ''computed_at'' T_Timestamptz False],
     o_args =
       [IndexArg ''ix_score_history_domain_id_computed_at'' [''domain_id'', ''computed_at DESC'']]\<rparr>"

subsection \<open>The authentication side\<close>

definition orm_user_account :: orm_table where
  "orm_user_account = \<lparr>
     o_name = ''user_account'',
     o_columns =
       [uuid_pk ''user_id'',
        column ''archetype'' (T_Enum ''user_archetype'') False,
        column ''email'' (T_Varchar 320) False,
        column ''email_verified_at'' T_Timestamptz True,
        column ''password_hash'' T_Bytea False,
        column ''totp_secret'' T_Bytea True,
        column ''totp_enrolled_at'' T_Timestamptz True,
        created_at,
        updated_at,
        column ''disabled_at'' T_Timestamptz True],
     o_args =
       [UniqueArg (Some ''uq_user_account_archetype_email'') [''archetype'', ''email''],
        UniqueArg (Some ''uq_user_account_user_id_archetype'') [''user_id'', ''archetype'']]\<rparr>"

definition orm_user_session :: orm_table where
  "orm_user_session = \<lparr>
     o_name = ''user_session'',
     o_columns =
       [uuid_pk ''session_id'',
        references ''user_account'' ''user_id'' (column ''user_id'' T_Uuid False),
        created_at,
        defaulting ''now()'' (column ''last_seen_at'' T_Timestamptz False),
        column ''revoked_at'' T_Timestamptz True,
        column ''device_fingerprint'' T_Text True,
        column ''ip_address_observed'' T_Inet True],
     o_args =
       [IndexArg ''ix_user_session_user_id_revoked_at'' [''user_id'', ''revoked_at'']]\<rparr>"

definition orm_user_role_assignment :: orm_table where
  "orm_user_role_assignment = \<lparr>
     o_name = ''user_role_assignment'',
     o_columns =
       [primary (column ''user_id'' T_Uuid False),
        column ''account_archetype'' (T_Enum ''user_archetype'') False,
        primary (column ''role'' T_Text False),
        primary (defaulting ''now()'' (column ''granted_at'' T_Timestamptz False)),
        references ''user_account'' ''user_id'' (column ''granted_by_user_id'' T_Uuid True),
        column ''revoked_at'' T_Timestamptz True,
        column ''customer_id'' T_Uuid True],
     o_args =
       [ForeignKeyArg (Some ''fk_user_role_assignment_user_id_user_account'') [''user_id'', ''account_archetype''] ''user_account'' [''user_id'', ''archetype''],
        CheckArg ''customer_id_required_for_brand_customer''
         (''(account_archetype = '' @ quoted ''brand_customer'' @
          '' AND customer_id IS NOT NULL) OR (account_archetype <> '' @
          quoted ''brand_customer'' @ '' AND customer_id IS NULL)'')]\<rparr>"

definition orm_auth_audit_event :: orm_table where
  "orm_auth_audit_event = \<lparr>
     o_name = ''auth_audit_event'',
     o_columns =
       [uuid_pk ''auth_audit_event_id'',
        references ''user_account'' ''user_id'' (column ''user_id'' T_Uuid True),
        column ''event_type'' (T_Enum ''auth_audit_event_type'') False,
        defaulting ''now()'' (column ''occurred_at'' T_Timestamptz False),
        column ''ip_address_observed'' T_Inet True,
        column ''user_agent_observed'' T_Text True,
        defaulting (quoted ''{}'' @ ''::jsonb'') (column ''event_details'' T_Jsonb False)],
     o_args =
       [IndexArg ''ix_auth_audit_event_user_id_occurred_at'' [''user_id'', ''occurred_at DESC'']]\<rparr>"

definition orm_operator_account_extension :: orm_table where
  "orm_operator_account_extension = \<lparr>
     o_name = ''operator_account_extension'',
     o_columns =
       [primary (references ''user_account'' ''user_id'' (column ''user_id'' T_Uuid False)),
        defaulting (quoted ''tier_0'') (column ''verification_tier'' (T_Enum ''operator_verification_tier'') False),
        defaulting (quoted ''[]'' @ ''::jsonb'') (column ''tier_1_verifications'' T_Jsonb False),
        column ''tier_2_verification'' T_Jsonb True,
        column ''display_name'' T_Text True],
     o_args =
       []\<rparr>"

definition orm_brand_customer_account_extension :: orm_table where
  "orm_brand_customer_account_extension = \<lparr>
     o_name = ''brand_customer_account_extension'',
     o_columns =
       [primary (references ''user_account'' ''user_id'' (column ''user_id'' T_Uuid False)),
        column ''customer_id'' T_Uuid False,
        column ''display_name'' T_Text True],
     o_args =
       [CheckArg ''customer_id_not_null''
         ''customer_id IS NOT NULL'']\<rparr>"

definition orm_foundation_user_account_extension :: orm_table where
  "orm_foundation_user_account_extension = \<lparr>
     o_name = ''foundation_user_account_extension'',
     o_columns =
       [primary (references ''user_account'' ''user_id'' (column ''user_id'' T_Uuid False)),
        column ''governance_role'' (T_Enum ''foundation_governance_role'') False,
        column ''display_name'' T_Text True],
     o_args =
       []\<rparr>"

text \<open>\<open>Base.metadata\<close>\<close>

definition orm_metadata :: "orm_table list" where
  "orm_metadata =
     [orm_domain,
      orm_pool,
      orm_domain_pool_membership,
      orm_provenance,
      orm_evidence,
      orm_attestation,
      orm_score,
      orm_score_history,
      orm_user_account,
      orm_user_session,
      orm_user_role_assignment,
      orm_auth_audit_event,
      orm_operator_account_extension,
      orm_brand_customer_account_extension,
      orm_foundation_user_account_extension]"

end
