(* ===== verification/Migration.thy ===== *)
theory Migration
  imports Data_Model "HOL-Library.Product_Lexorder" "HOL-Library.Sublist"
begin

section \<open>The migration\<close>

text \<open>
  \<^verbatim>\<open>data-model/migrations/versions/0001_create_canonical_data_model.py\<close>: the statements
  \<open>upgrade\<close> issues, in their order, one definition per table, and what they build.  The
  database refuses a statement out of order: a table that exists already, a column of a type that
  does not, a foreign key to columns that are not declared unique, an index or a grant on nothing.

  The statements are built by Alembic's operations under the metadata that \<^verbatim>\<open>env.py\<close> hands to
  \<open>context.configure\<close> as \<open>target_metadata\<close>, so its naming convention holds for them (Alembic, "The Importance
  of Naming Constraints").  A pattern with the token \<open>constraint_name\<close> is applied to every explicit name that is
  not wrapped in \<open>op.f\<close>; of the convention's patterns only \<open>ck\<close> has it, and no name of the migration is wrapped.
  Names of other constraints and of indexes are taken as they are.
\<close>

datatype privilege = SELECT | INSERT | UPDATE | DELETE

datatype ddl =
    CreateType string "string list"
  | CreateTable string "sql_column list" "constraint list"
  | CreateIndex string string "string list"
  | CreateView string string "string list"
  | CreateUniqueIndex string string "string list"
  | RefreshView string
  | CreateRole string
  | Grant "privilege list" string string

record database =
  db_types :: "(string \<times> string list) list"
  db_tables :: "sql_table list"
  db_views :: "(string \<times> string \<times> string list) list"
  db_indexes :: "(string \<times> string \<times> string list) list"
  db_unique_indexes :: "(string \<times> string \<times> string list) list"
  db_roles :: "string list"
  db_grants :: "(string \<times> string \<times> privilege) list"

definition empty_database :: database where
  "empty_database = \<lparr>db_types = [], db_tables = [], db_views = [], db_indexes = [],
     db_unique_indexes = [], db_roles = [], db_grants = []\<rparr>"

definition database_error :: "string \<Rightarrow> exn" where
  "database_error = Exn (Other OtherException)"

definition find_table :: "string \<Rightarrow> database \<Rightarrow> sql_table option" where
  "find_table n d = List.find (\<lambda>t. t_name t = n) (db_tables d)"

definition relation_exists :: "string \<Rightarrow> database \<Rightarrow> bool" where
  "relation_exists n d \<longleftrightarrow> n \<in> set (map t_name (db_tables d)) \<or> n \<in> set (map fst (db_views d))"

fun type_known :: "database \<Rightarrow> sql_type \<Rightarrow> bool" where
  "type_known d (T_Enum n) = (n \<in> set (map fst (db_types d)))"
| "type_known d _ = True"

fun is_key :: "string list \<Rightarrow> constraint \<Rightarrow> bool" where
  "is_key cs (PrimaryKey n ks) = (ks = cs)"
| "is_key cs (Unique n ks) = (ks = cs)"
| "is_key cs _ = False"

definition col_type :: "sql_column list \<Rightarrow> string \<Rightarrow> sql_type option" where
  "col_type cols n = map_option c_type (List.find (\<lambda>c. c_name c = n) cols)"

fun constraint_ok :: "database \<Rightarrow> sql_column list \<Rightarrow> constraint \<Rightarrow> bool" where
  "constraint_ok d cols (PrimaryKey n cs) = list_all (\<lambda>c. c \<in> set (map c_name cols)) cs"
| "constraint_ok d cols (Unique n cs) = list_all (\<lambda>c. c \<in> set (map c_name cols)) cs"
| "constraint_ok d cols (Check n sql) = True"
| "constraint_ok d cols (ForeignKey n cs r rcs) =
     (case find_table r d of
        None \<Rightarrow> False
      | Some t \<Rightarrow> list_all (\<lambda>c. c \<in> set (map c_name cols)) cs \<and>
          list_ex (is_key rcs) (t_constraints t) \<and>
          map (col_type cols) cs = map (col_type (t_columns t)) rcs)"

definition table_ok :: "database \<Rightarrow> string \<Rightarrow> sql_column list \<Rightarrow> constraint list \<Rightarrow> bool" where
  "table_ok d n cols cons \<longleftrightarrow>
     \<not> relation_exists n d \<and> distinct (map c_name cols) \<and> list_all (type_known d \<circ> c_type) cols \<and>
     list_all (constraint_ok d cols) cons"

text \<open>The name a constraint of a migration gets under the convention of the models' metadata.\<close>

fun convention_named :: "string \<Rightarrow> constraint \<Rightarrow> constraint" where
  "convention_named t (Check n sql) = Check (ck_name t n) sql"
| "convention_named t c = c"

fun exec_ddl :: "ddl \<Rightarrow> database \<Rightarrow> exn + database" where
  "exec_ddl (CreateType n vs) d =
     (if n \<in> set (map fst (db_types d)) then Inr d else Inr (d\<lparr>db_types := db_types d @ [(n, vs)]\<rparr>))"
| "exec_ddl (CreateTable n cols cons) d =
     (if table_ok d n cols cons
      then Inr (d\<lparr>db_tables := db_tables d @ [\<lparr>t_name = n, t_columns = cols,
        t_constraints = map (convention_named n) cons\<rparr>]\<rparr>)
      else Inl (database_error ''cannot create table''))"
| "exec_ddl (CreateIndex n t cs) d =
     (if find_table t d = None \<or> n \<in> set (map fst (db_indexes d))
      then Inl (database_error ''cannot create index'')
      else Inr (d\<lparr>db_indexes := db_indexes d @ [(n, t, cs)]\<rparr>))"
| "exec_ddl (CreateView n t cs) d =
     (if relation_exists n d \<or> find_table t d = None
      then Inl (database_error ''cannot create view'')
      else Inr (d\<lparr>db_views := db_views d @ [(n, t, cs)]\<rparr>))"
| "exec_ddl (CreateUniqueIndex n v cs) d =
     (if v \<notin> set (map fst (db_views d)) then Inl (database_error ''no such relation'')
      else Inr (d\<lparr>db_unique_indexes := db_unique_indexes d @ [(n, v, cs)]\<rparr>))"
| "exec_ddl (RefreshView v) d =
     (if v \<notin> set (map fst (db_views d)) then Inl (database_error ''no such relation'') else Inr d)"
| "exec_ddl (CreateRole r) d =
     (if r \<in> set (db_roles d) then Inr d else Inr (d\<lparr>db_roles := db_roles d @ [r]\<rparr>))"
| "exec_ddl (Grant ps rel r) d =
     (if \<not> relation_exists rel d \<or> r \<notin> set (db_roles d) then Inl (database_error ''cannot grant'')
      else Inr (d\<lparr>db_grants := db_grants d @ map (\<lambda>p. (r, rel, p)) ps\<rparr>))"

fun run_ddl :: "ddl list \<Rightarrow> database \<Rightarrow> exn + database" where
  "run_ddl [] d = Inr d"
| "run_ddl (s # ss) d = bindE (exec_ddl s d) (run_ddl ss)"

subsection \<open>The statements\<close>

definition APP_ROLE :: string where
  "APP_ROLE = ''trustlist_app''"

definition APPEND_ONLY_TABLES :: "string list" where
  "APPEND_ONLY_TABLES =
     [''evidence'', ''provenance'', ''score_history'', ''attestation'', ''auth_audit_event'']"

definition ALL_TABLES :: "string list" where
  "ALL_TABLES =
     [''domain'', ''pool'', ''domain_pool_membership'', ''attestation'', ''evidence'', ''provenance'',
      ''score'', ''score_history'', ''user_account'', ''user_session'', ''user_role_assignment'',
      ''auth_audit_event'', ''operator_account_extension'', ''brand_customer_account_extension'',
      ''foundation_user_account_extension'']"

definition ENUMS :: "(string \<times> string list) list" where
  "ENUMS =
     [(''domain_status'', [''green'', ''grey'', ''red'', ''under_review'', ''dormant'']),
      (''attestation_membership_status'', [''inferred'', ''operator_attested'', ''contested'']),
      (''evidence_source'', [''system'', ''human'', ''contributor'', ''cti_partner'']),
      (''attestation_verification_status'', [''pending'', ''verified'', ''rejected'', ''revoked'']),
      (''score_verdict'', [''green'', ''grey'', ''red'', ''under_review'']),
      (''user_archetype'', [''operator'', ''brand_customer'', ''foundation_internal'']),
      (''auth_audit_event_type'', [''login_success'', ''login_failure'', ''mfa_challenge_issued'',
        ''mfa_challenge_success'', ''mfa_challenge_failure'',
        ''password_change'', ''role_grant'', ''role_revoke'',
        ''account_disable'', ''session_revoke'']),
      (''operator_verification_tier'', [''tier_0'', ''tier_1'', ''tier_2'']),
      (''foundation_governance_role'', [''trust_council_voting'', ''trust_council_observer'',
        ''adjudicator'', ''ops_staff'', ''maintainer''])]"

definition create_domain :: "ddl list" where
  "create_domain =
     [CreateTable ''domain''
       [sa_column ''domain_id'' T_Uuid (Some ''gen_random_uuid()'') False,
        sa_column ''normalised_url'' (T_Varchar 255) None False,
        sa_column ''current_status'' (T_Enum ''domain_status'') None False,
        sa_column ''current_score'' (T_Numeric 6 3) None True,
        sa_column ''score_version'' T_Text None True,
        sa_column ''last_scored_at'' T_Timestamptz None True,
        sa_column ''created_at'' T_Timestamptz (Some ''now()'') False,
        sa_column ''updated_at'' T_Timestamptz (Some ''now()'') False]
       [Check ''ck_domain_normalised_url_is_normalised''
         (''normalised_url = lower(normalised_url) AND normalised_url !~ '' @
          quoted ''^[a-z][a-z0-9+.-]*://'' @ '' AND normalised_url NOT LIKE '' @
          quoted ''www.%'' @ '' AND normalised_url NOT LIKE '' @ quoted ''%?%'' @
          '' AND normalised_url NOT LIKE '' @ quoted ''%#%'' @ '' AND normalised_url !~ '' @
          quoted (CHR 0x5C # ''s'') @ '' AND length(normalised_url) > 0''),
        PrimaryKey ''pk_domain'' [''domain_id''],
        Unique ''uq_domain_normalised_url'' [''normalised_url'']],
      CreateIndex ''ix_domain_current_status'' ''domain'' [''current_status''],
      CreateIndex ''ix_domain_last_scored_at'' ''domain'' [''last_scored_at'']]"

definition create_pool :: "ddl list" where
  "create_pool =
     [CreateTable ''pool''
       [sa_column ''pool_id'' T_Uuid (Some ''gen_random_uuid()'') False,
        sa_column ''canonical_handle'' (T_Varchar 128) None False,
        sa_column ''derived_status'' (T_Enum ''domain_status'') None True,
        sa_column ''derived_score'' (T_Numeric 6 3) None True,
        sa_column ''attestation_flag'' T_Boolean (Some ''false'') False,
        sa_column ''created_at'' T_Timestamptz (Some ''now()'') False,
        sa_column ''updated_at'' T_Timestamptz (Some ''now()'') False]
       [PrimaryKey ''pk_pool'' [''pool_id''],
        Unique ''uq_pool_canonical_handle'' [''canonical_handle'']]]"

definition create_user_account :: "ddl list" where
  "create_user_account =
     [CreateTable ''user_account''
       [sa_column ''user_id'' T_Uuid (Some ''gen_random_uuid()'') False,
        sa_column ''archetype'' (T_Enum ''user_archetype'') None False,
        sa_column ''email'' (T_Varchar 320) None False,
        sa_column ''email_verified_at'' T_Timestamptz None True,
        sa_column ''password_hash'' T_Bytea None False,
        sa_column ''totp_secret'' T_Bytea None True,
        sa_column ''totp_enrolled_at'' T_Timestamptz None True,
        sa_column ''created_at'' T_Timestamptz (Some ''now()'') False,
        sa_column ''updated_at'' T_Timestamptz (Some ''now()'') False,
        sa_column ''disabled_at'' T_Timestamptz None True]
       [PrimaryKey ''pk_user_account'' [''user_id''],
        Unique ''uq_user_account_archetype_email'' [''archetype'', ''email''],
        Unique ''uq_user_account_user_id_archetype'' [''user_id'', ''archetype'']]]"

definition create_domain_pool_membership :: "ddl list" where
  "create_domain_pool_membership =
     [CreateTable ''domain_pool_membership''
       [sa_column ''domain_id'' T_Uuid None False,
        sa_column ''pool_id'' T_Uuid None False,
        sa_column ''valid_from'' T_Timestamptz None False,
        sa_column ''valid_until'' T_Timestamptz None True,
        sa_column ''confidence'' (T_Numeric 4 3) None False,
        sa_column ''attestation_status'' (T_Enum ''attestation_membership_status'') None False,
        sa_column ''created_at'' T_Timestamptz (Some ''now()'') False]
       [Check ''ck_domain_pool_membership_confidence_in_unit_interval''
         ''confidence >= 0 AND confidence <= 1'',
        ForeignKey ''fk_domain_pool_membership_domain_id_domain'' [''domain_id''] ''domain'' [''domain_id''],
        ForeignKey ''fk_domain_pool_membership_pool_id_pool'' [''pool_id''] ''pool'' [''pool_id''],
        PrimaryKey ''pk_domain_pool_membership'' [''domain_id'', ''pool_id'', ''valid_from'']],
      CreateIndex ''ix_domain_pool_membership_domain_id_valid_until'' ''domain_pool_membership'' [''domain_id'', ''valid_until'']]"

definition create_provenance :: "ddl list" where
  "create_provenance =
     [CreateTable ''provenance''
       [sa_column ''provenance_id'' T_Uuid (Some ''gen_random_uuid()'') False,
        sa_column ''source'' (T_Enum ''evidence_source'') None False,
        sa_column ''method'' T_Text None False,
        sa_column ''observed_at'' T_Timestamptz None False,
        sa_column ''contributor_id'' T_Uuid None True,
        sa_column ''contributor_identity'' T_Text None True,
        sa_column ''created_at'' T_Timestamptz (Some ''now()'') False]
       [ForeignKey ''fk_provenance_contributor_id_user_account'' [''contributor_id''] ''user_account'' [''user_id''],
        PrimaryKey ''pk_provenance'' [''provenance_id'']]]"

definition create_evidence :: "ddl list" where
  "create_evidence =
     [CreateTable ''evidence''
       [sa_column ''evidence_id'' T_Uuid (Some ''gen_random_uuid()'') False,
        sa_column ''domain_id'' T_Uuid None False,
        sa_column ''signal_class'' T_Text None False,
        sa_column ''source'' (T_Enum ''evidence_source'') None False,
        sa_column ''method'' T_Text None False,
        sa_column ''source_url'' T_Text (Some (quoted [])) False,
        sa_column ''observed_at'' T_Timestamptz None False,
        sa_column ''recorded_at'' T_Timestamptz (Some ''now()'') False,
        sa_column ''contributor_identity'' T_Text None True,
        sa_column ''observed_value'' T_Jsonb None False,
        sa_column ''provenance_id'' T_Uuid None False]
       [ForeignKey ''fk_evidence_domain_id_domain'' [''domain_id''] ''domain'' [''domain_id''],
        ForeignKey ''fk_evidence_provenance_id_provenance'' [''provenance_id''] ''provenance'' [''provenance_id''],
        PrimaryKey ''pk_evidence'' [''evidence_id'']],
      CreateIndex ''ix_evidence_domain_id_signal_class_observed_at'' ''evidence'' [''domain_id'', ''signal_class'', ''observed_at DESC'']]"

definition create_attestation :: "ddl list" where
  "create_attestation =
     [CreateTable ''attestation''
       [sa_column ''attestation_id'' T_Uuid (Some ''gen_random_uuid()'') False,
        sa_column ''domain_id'' T_Uuid None False,
        sa_column ''pool_id'' T_Uuid None True,
        sa_column ''operator_user_id'' T_Uuid None False,
        sa_column ''signature'' T_Bytea None False,
        sa_column ''signed_at'' T_Timestamptz None False,
        sa_column ''verification_status'' (T_Enum ''attestation_verification_status'') None False,
        sa_column ''created_at'' T_Timestamptz (Some ''now()'') False]
       [ForeignKey ''fk_attestation_domain_id_domain'' [''domain_id''] ''domain'' [''domain_id''],
        ForeignKey ''fk_attestation_pool_id_pool'' [''pool_id''] ''pool'' [''pool_id''],
        ForeignKey ''fk_attestation_operator_user_id_user_account'' [''operator_user_id''] ''user_account'' [''user_id''],
        PrimaryKey ''pk_attestation'' [''attestation_id'']]]"

definition create_score :: "ddl list" where
  "create_score =
     [CreateTable ''score''
       [sa_column ''domain_id'' T_Uuid None False,
        sa_column ''composite_score'' (T_Numeric 6 3) None False,
        sa_column ''verdict'' (T_Enum ''score_verdict'') None False,
        sa_column ''category_scores'' T_Jsonb None False,
        sa_column ''rationale_summary'' T_Text None True,
        sa_column ''severity_flag'' T_Boolean (Some ''false'') False,
        sa_column ''algorithm_version'' T_Text None False,
        sa_column ''computed_at'' T_Timestamptz None False]
       [ForeignKey ''fk_score_domain_id_domain'' [''domain_id''] ''domain'' [''domain_id''],
        PrimaryKey ''pk_score'' [''domain_id'']]]"

definition create_score_history :: "ddl list" where
  "create_score_history =
     [CreateTable ''score_history''
       [sa_column ''score_history_id'' T_Uuid (Some ''gen_random_uuid()'') False,
        sa_column ''domain_id'' T_Uuid None False,
        sa_column ''composite_score'' (T_Numeric 6 3) None False,
        sa_column ''verdict'' (T_Enum ''score_verdict'') None False,
        sa_column ''category_scores'' T_Jsonb None False,
        sa_column ''rationale_summary'' T_Text None True,
        sa_column ''severity_flag'' T_Boolean (Some ''false'') False,
        sa_column ''algorithm_version'' T_Text None False,
        sa_column ''computed_at'' T_Timestamptz None False]
       [ForeignKey ''fk_score_history_domain_id_domain'' [''domain_id''] ''domain'' [''domain_id''],
        PrimaryKey ''pk_score_history'' [''score_history_id'']],
      CreateIndex ''ix_score_history_domain_id_computed_at'' ''score_history'' [''domain_id'', ''computed_at DESC'']]"

definition create_user_session :: "ddl list" where
  "create_user_session =
     [CreateTable ''user_session''
       [sa_column ''session_id'' T_Uuid (Some ''gen_random_uuid()'') False,
        sa_column ''user_id'' T_Uuid None False,
        sa_column ''created_at'' T_Timestamptz (Some ''now()'') False,
        sa_column ''last_seen_at'' T_Timestamptz (Some ''now()'') False,
        sa_column ''revoked_at'' T_Timestamptz None True,
        sa_column ''device_fingerprint'' T_Text None True,
        sa_column ''ip_address_observed'' T_Inet None True]
       [ForeignKey ''fk_user_session_user_id_user_account'' [''user_id''] ''user_account'' [''user_id''],
        PrimaryKey ''pk_user_session'' [''session_id'']],
      CreateIndex ''ix_user_session_user_id_revoked_at'' ''user_session'' [''user_id'', ''revoked_at'']]"

definition create_user_role_assignment :: "ddl list" where
  "create_user_role_assignment =
     [CreateTable ''user_role_assignment''
       [sa_column ''user_id'' T_Uuid None False,
        sa_column ''account_archetype'' (T_Enum ''user_archetype'') None False,
        sa_column ''role'' T_Text None False,
        sa_column ''granted_at'' T_Timestamptz (Some ''now()'') False,
        sa_column ''granted_by_user_id'' T_Uuid None True,
        sa_column ''revoked_at'' T_Timestamptz None True,
        sa_column ''customer_id'' T_Uuid None True]
       [Check ''ck_user_role_assignment_customer_id_required_for_brand_customer''
         (''(account_archetype = '' @ quoted ''brand_customer'' @
          '' AND customer_id IS NOT NULL) OR (account_archetype <> '' @
          quoted ''brand_customer'' @ '' AND customer_id IS NULL)''),
        ForeignKey ''fk_user_role_assignment_granted_by_user_id_user_account'' [''granted_by_user_id''] ''user_account'' [''user_id''],
        ForeignKey ''fk_user_role_assignment_user_id_user_account'' [''user_id'', ''account_archetype''] ''user_account'' [''user_id'', ''archetype''],
        PrimaryKey ''pk_user_role_assignment'' [''user_id'', ''role'', ''granted_at'']]]"

definition create_auth_audit_event :: "ddl list" where
  "create_auth_audit_event =
     [CreateTable ''auth_audit_event''
       [sa_column ''auth_audit_event_id'' T_Uuid (Some ''gen_random_uuid()'') False,
        sa_column ''user_id'' T_Uuid None True,
        sa_column ''event_type'' (T_Enum ''auth_audit_event_type'') None False,
        sa_column ''occurred_at'' T_Timestamptz (Some ''now()'') False,
        sa_column ''ip_address_observed'' T_Inet None True,
        sa_column ''user_agent_observed'' T_Text None True,
        sa_column ''event_details'' T_Jsonb (Some (quoted ''{}'' @ ''::jsonb'')) False]
       [ForeignKey ''fk_auth_audit_event_user_id_user_account'' [''user_id''] ''user_account'' [''user_id''],
        PrimaryKey ''pk_auth_audit_event'' [''auth_audit_event_id'']],
      CreateIndex ''ix_auth_audit_event_user_id_occurred_at'' ''auth_audit_event'' [''user_id'', ''occurred_at DESC'']]"

definition create_operator_account_extension :: "ddl list" where
  "create_operator_account_extension =
     [CreateTable ''operator_account_extension''
       [sa_column ''user_id'' T_Uuid None False,
        sa_column ''verification_tier'' (T_Enum ''operator_verification_tier'') (Some (quoted ''tier_0'')) False,
        sa_column ''tier_1_verifications'' T_Jsonb (Some (quoted ''[]'' @ ''::jsonb'')) False,
        sa_column ''tier_2_verification'' T_Jsonb None True,
        sa_column ''display_name'' T_Text None True]
       [ForeignKey ''fk_operator_account_extension_user_id_user_account'' [''user_id''] ''user_account'' [''user_id''],
        PrimaryKey ''pk_operator_account_extension'' [''user_id'']]]"

definition create_brand_customer_account_extension :: "ddl list" where
  "create_brand_customer_account_extension =
     [CreateTable ''brand_customer_account_extension''
       [sa_column ''user_id'' T_Uuid None False,
        sa_column ''customer_id'' T_Uuid None False,
        sa_column ''display_name'' T_Text None True]
       [Check ''ck_brand_customer_account_extension_customer_id_not_null''
         ''customer_id IS NOT NULL'',
        ForeignKey ''fk_brand_customer_account_extension_user_id_user_account'' [''user_id''] ''user_account'' [''user_id''],
        PrimaryKey ''pk_brand_customer_account_extension'' [''user_id'']]]"

definition create_foundation_user_account_extension :: "ddl list" where
  "create_foundation_user_account_extension =
     [CreateTable ''foundation_user_account_extension''
       [sa_column ''user_id'' T_Uuid None False,
        sa_column ''governance_role'' (T_Enum ''foundation_governance_role'') None False,
        sa_column ''display_name'' T_Text None True]
       [ForeignKey ''fk_foundation_user_account_extension_user_id_user_account'' [''user_id''] ''user_account'' [''user_id''],
        PrimaryKey ''pk_foundation_user_account_extension'' [''user_id'']]]"

definition create_tables :: "ddl list" where
  "create_tables =
     create_domain @
     create_pool @
     create_user_account @
     create_domain_pool_membership @
     create_provenance @
     create_evidence @
     create_attestation @
     create_score @
     create_score_history @
     create_user_session @
     create_user_role_assignment @
     create_auth_audit_event @
     create_operator_account_extension @
     create_brand_customer_account_extension @
     create_foundation_user_account_extension"

definition create_enum_types :: "ddl list" where
  "create_enum_types = map (\<lambda>(n, vs). CreateType n vs) ENUMS"

definition create_evidence_current_view :: "ddl list" where
  "create_evidence_current_view =
     [CreateView ''evidence_current'' ''evidence''
        [''evidence_id'', ''domain_id'', ''signal_class'', ''source'', ''method'', ''source_url'',
         ''observed_at'', ''recorded_at'', ''contributor_identity'', ''observed_value'', ''provenance_id''],
      CreateUniqueIndex ''ux_evidence_current_natural_key'' ''evidence_current''
        [''domain_id'', ''signal_class'', ''source_url''],
      RefreshView ''evidence_current'']"

definition create_application_role :: "ddl list" where
  "create_application_role =
     CreateRole APP_ROLE #
     map (\<lambda>t. Grant [SELECT, INSERT] t APP_ROLE) ALL_TABLES @
     map (\<lambda>t. Grant [UPDATE, DELETE] t APP_ROLE) (filter (\<lambda>t. t \<notin> set APPEND_ONLY_TABLES) ALL_TABLES) @
     [Grant [SELECT] ''evidence_current'' APP_ROLE]"

definition revision :: string where
  "revision = ''0001''"

definition down_revision :: "string option" where
  "down_revision = None"

definition upgrade :: "ddl list" where
  "upgrade = create_enum_types @ create_tables @ create_evidence_current_view @ create_application_role"

definition downgrade :: "ddl list" where
  "downgrade = []"

subsection \<open>What the statements build\<close>

text \<open>
  A schema is the models' when it has their enum types, a table for each of them with the same
  columns in the same order and the same constraints, and their indexes.  Keys, foreign keys and
  indexes have the models' names; the names of check constraints are compared apart.
\<close>

fun anonymous_check :: "constraint \<Rightarrow> constraint" where
  "anonymous_check (Check n sql) = Check [] sql"
| "anonymous_check c = c"

definition same_table :: "sql_table \<Rightarrow> sql_table \<Rightarrow> bool" where
  "same_table a b \<longleftrightarrow> t_name a = t_name b \<and> t_columns a = t_columns b \<and>
     length (t_constraints a) = length (t_constraints b) \<and> anonymous_check ` set (t_constraints a) = anonymous_check ` set (t_constraints b)"

definition schema_matches :: "orm_table list \<Rightarrow> database \<Rightarrow> bool" where
  "schema_matches ms d \<longleftrightarrow>
     db_types d = orm_enums \<and> length (db_tables d) = length ms \<and>
     list_all (\<lambda>m. case find_table (o_name m) d of None \<Rightarrow> False | Some t \<Rightarrow> same_table t (compile_table m)) ms \<and>
     set (db_indexes d) = set (concat (map compile_indexes ms))"

fun check_constraint :: "constraint \<Rightarrow> (string \<times> string) option" where
  "check_constraint (Check n sql) = Some (n, sql)"
| "check_constraint _ = None"

text \<open>Table, name and expression of every check constraint.\<close>

definition table_checks :: "sql_table list \<Rightarrow> (string \<times> string \<times> string) list" where
  "table_checks ts =
     concat (map (\<lambda>t. map (Pair (t_name t)) (List.map_filter check_constraint (t_constraints t))) ts)"

abbreviation model_checks :: "(string \<times> string \<times> string) list" where
  "model_checks \<equiv> table_checks (map compile_table orm_metadata)"

fun key_name :: "constraint \<Rightarrow> string list" where
  "key_name (PrimaryKey n _) = [n]"
| "key_name (Unique n _) = [n]"
| "key_name (Check _ _) = []"
| "key_name (ForeignKey n _ _ _) = [n]"

text \<open>All names but those of the check constraints.\<close>

definition identifiers :: "database \<Rightarrow> string list" where
  "identifiers d =
     map fst (db_types d) @ map fst (db_indexes d) @ concat (map (\<lambda>t. t_name t #
       map c_name (t_columns t) @ concat (map key_name (t_constraints t))) (db_tables d))"

text \<open>
  PostgreSQL keeps 63 characters of a name.  Of a longer name that a convention made, SQLAlchemy's compiler sends
  the first 55, an underscore and four hexadecimal digits of a digest of the whole, the parameter \<open>digits\<close>.
\<close>

definition MAX_IDENTIFIER :: nat where
  "MAX_IDENTIFIER = 63"

definition rendered :: "(string \<Rightarrow> string) \<Rightarrow> string \<Rightarrow> string" where
  "rendered digits n =
     (if MAX_IDENTIFIER < length n then take (MAX_IDENTIFIER - 8) n @ ''_'' @ digits n else n)"

lemma take_rendered: "k \<le> 55 \<Longrightarrow> take k (rendered digits n) = take k n"
  by (simp add: rendered_def MAX_IDENTIFIER_def min_def)

lemma run_ddl_append: "run_ddl (xs @ ys) d = bindE (run_ddl xs d) (run_ddl ys)"
proof (induction xs arbitrary: d)
  case (Cons x xs)
  then show ?case by (cases "exec_ddl x d") simp_all
qed simp

definition tables_built :: "database \<Rightarrow> bool" where
  "tables_built d \<longleftrightarrow>
     schema_matches orm_metadata d \<and> list_all (\<lambda>n. length n \<le> MAX_IDENTIFIER) (identifiers d) \<and>
     set (table_checks (db_tables d)) = (\<lambda>(t, n, sql). (t, ck_name t n, sql)) ` set model_checks \<and>
     list_all (\<lambda>(t, n, sql). list_all (\<lambda>(t', n', sql'). take 40 n \<noteq> take 40 n') model_checks)
       (table_checks (db_tables d)) \<and>
     length (filter (\<lambda>(t, n, sql). MAX_IDENTIFIER < length n) (table_checks (db_tables d))) = 3 \<and>
     length (table_checks (db_tables d)) = 4 \<and>
     list_all (\<lambda>n. n \<in> set (map t_name (db_tables d))) ALL_TABLES \<and>
     \<not> relation_exists ''evidence_current'' d \<and> db_views d = [] \<and> db_roles d = [] \<and> db_grants d = [] \<and>
     db_unique_indexes d = []"

text \<open>Names that differ early still differ when they are cut.\<close>

lemma renamed_checks:
  assumes "list_all (\<lambda>(t, n, sql). list_all (\<lambda>(t', n', sql'). take 40 n \<noteq> take 40 n') ms) cs"
  shows "rendered digits ` fst ` snd ` set cs \<inter> fst ` snd ` set ms = {}"
proof (rule ccontr)
  assume "\<not> ?thesis"
  then obtain t n sql t' n' sql' where c: "(t, n, sql) \<in> set cs" "(t', n', sql') \<in> set ms" "rendered digits n = n'"
    by fastforce
  from c(3) have "take 40 n' = take 40 n" using take_rendered [of 40 digits n] by simp
  with c(1,2) assms show False by (fastforce simp: list_all_iff)
qed

text \<open>The run of the first two steps, evaluated.\<close>

lemma tables_run:
  "case run_ddl (create_enum_types @ create_tables) empty_database of Inr d \<Rightarrow> tables_built d | Inl _ \<Rightarrow> False"
  by code_simp

lemma run_grants:
  "list_all (\<lambda>t. relation_exists t d) ts \<Longrightarrow> r \<in> set (db_roles d) \<Longrightarrow>
     run_ddl (map (\<lambda>t. Grant ps t r) ts) d =
       Inr (d\<lparr>db_grants := db_grants d @ concat (map (\<lambda>t. map (\<lambda>p. (r, t, p)) ps) ts)\<rparr>)"
proof (induction ts arbitrary: d)
  case (Cons t ts)
  have "relation_exists n (d\<lparr>db_grants := g\<rparr>) = relation_exists n d" for n g
    by (simp add: relation_exists_def)
  with Cons show ?case by simp
qed simp

definition application_grants :: "(string \<times> string \<times> privilege) list" where
  "application_grants =
     concat (map (\<lambda>t. [(APP_ROLE, t, SELECT), (APP_ROLE, t, INSERT)]) ALL_TABLES) @
     concat (map (\<lambda>t. [(APP_ROLE, t, UPDATE), (APP_ROLE, t, DELETE)])
       (filter (\<lambda>t. t \<notin> set APPEND_ONLY_TABLES) ALL_TABLES)) @
     [(APP_ROLE, ''evidence_current'', SELECT)]"

text \<open>The state \<open>upgrade\<close> leaves, in terms of the one with the tables.\<close>

text \<open>The last step, on a database that has the tables and the view.\<close>

lemma application_role_run:
  assumes "list_all (\<lambda>n. n \<in> set (map t_name (db_tables d))) ALL_TABLES"
    and "relation_exists ''evidence_current'' d" and "db_roles d = []" and "db_grants d = []"
  shows "run_ddl create_application_role d = Inr (d\<lparr>db_roles := [APP_ROLE], db_grants := application_grants\<rparr>)"
proof -
  let ?r = "d\<lparr>db_roles := [APP_ROLE]\<rparr>"
  let ?g1 = "concat (map (\<lambda>t. [(APP_ROLE, t, SELECT), (APP_ROLE, t, INSERT)]) ALL_TABLES)"
  have rel: "relation_exists t (?r\<lparr>db_grants := g\<rparr>)" if "t \<in> set ALL_TABLES \<or> t = ''evidence_current''" for t g
    using that assms(1,2) by (auto simp: relation_exists_def list_all_iff)
  have role: "exec_ddl (CreateRole APP_ROLE) d = Inr ?r"
    using assms(3) by simp
  have g1: "run_ddl (map (\<lambda>t. Grant [SELECT, INSERT] t APP_ROLE) ALL_TABLES) ?r = Inr (?r\<lparr>db_grants := ?g1\<rparr>)"
    using rel [of _ "[]"] assms(4) by (subst run_grants) (auto simp: list_all_iff relation_exists_def)
  have g2: "run_ddl (map (\<lambda>t. Grant [UPDATE, DELETE] t APP_ROLE) (filter (\<lambda>t. t \<notin> set APPEND_ONLY_TABLES) ALL_TABLES))
      (?r\<lparr>db_grants := ?g1\<rparr>) =
      Inr (?r\<lparr>db_grants := ?g1 @ concat (map (\<lambda>t. [(APP_ROLE, t, UPDATE), (APP_ROLE, t, DELETE)])
        (filter (\<lambda>t. t \<notin> set APPEND_ONLY_TABLES) ALL_TABLES))\<rparr>)"
    using rel by (subst run_grants) (auto simp: list_all_iff)
  show ?thesis
    unfolding create_application_role_def using rel [of "''evidence_current''"]
    by (simp add: role run_ddl_append g1 g2 application_grants_def del: exec_ddl.simps(7))
qed

lemma upgrade_run:
  "\<exists>d v. tables_built d \<and> run_ddl upgrade empty_database = Inr (d\<lparr>db_views := [v], db_unique_indexes :=
       [(''ux_evidence_current_natural_key'', ''evidence_current'', [''domain_id'', ''signal_class'', ''source_url''])],
     db_roles := [APP_ROLE], db_grants := application_grants\<rparr>)"
proof -
  obtain d where d: "run_ddl (create_enum_types @ create_tables) empty_database = Inr d" "tables_built d"
    using tables_run by (cases "run_ddl (create_enum_types @ create_tables) empty_database") simp_all
  from d(2) have names: "list_all (\<lambda>n. n \<in> set (map t_name (db_tables d))) ALL_TABLES"
      and fresh: "\<not> relation_exists ''evidence_current'' d" "db_views d = []" "db_roles d = []"
        "db_grants d = []" "db_unique_indexes d = []"
    by (simp_all add: tables_built_def)
  have "''evidence'' \<in> set ALL_TABLES" by (simp add: ALL_TABLES_def)
  with names have "''evidence'' \<in> set (map t_name (db_tables d))" unfolding list_all_iff by blast
  then have ev: "find_table ''evidence'' d \<noteq> None"
    by (auto simp: find_table_def find_None_iff)
  define cols where "cols = [''evidence_id'', ''domain_id'', ''signal_class'', ''source'', ''method'', ''source_url'',
         ''observed_at'', ''recorded_at'', ''contributor_identity'', ''observed_value'', ''provenance_id'']"
  define key where "key = (''ux_evidence_current_natural_key'', ''evidence_current'', [''domain_id'', ''signal_class'', ''source_url''])"
  let ?d1 = "d\<lparr>db_views := [(''evidence_current'', ''evidence'', cols)], db_unique_indexes := [key]\<rparr>"
  have "run_ddl create_evidence_current_view d = Inr ?d1"
    using fresh ev by (simp add: create_evidence_current_view_def cols_def key_def)
  moreover have "run_ddl create_application_role ?d1 =
      Inr (?d1\<lparr>db_roles := [APP_ROLE], db_grants := application_grants\<rparr>)"
    by (rule application_role_run) (use names fresh in \<open>simp_all add: relation_exists_def\<close>)
  ultimately have "run_ddl upgrade empty_database = Inr (?d1\<lparr>db_roles := [APP_ROLE], db_grants := application_grants\<rparr>)"
    using d(1) unfolding upgrade_def append_assoc [symmetric] run_ddl_append by auto
  with d(2) show ?thesis unfolding key_def by blast
qed

lemma matches_views [simp]:
  "schema_matches ms (d\<lparr>db_views := a, db_unique_indexes := b, db_roles := r, db_grants := g\<rparr>) = schema_matches ms d"
  by (simp add: schema_matches_def find_table_def)

lemma upgrade_builds: "\<exists>d. run_ddl upgrade empty_database = Inr d \<and> schema_matches orm_metadata d"
proof -
  from upgrade_run obtain d v where d: "tables_built d" and run: "run_ddl upgrade empty_database = Inr (d\<lparr>db_views := [v],
      db_unique_indexes :=
       [(''ux_evidence_current_natural_key'', ''evidence_current'', [''domain_id'', ''signal_class'', ''source_url''])],
     db_roles := [APP_ROLE], db_grants := application_grants\<rparr>)" by blast
  from d have "schema_matches orm_metadata d" by (simp add: tables_built_def)
  with run show ?thesis by simp
qed

subsection \<open>Rows and privileges\<close>

text \<open>
  Statements on table rows, as the database runs them for a role: each needs its privilege, and a
  refused one changes nothing.
\<close>

type_synonym 'r rows = "string \<Rightarrow> 'r list"

datatype 'r statement =
    InsertRows string "'r list"
  | UpdateRows string "'r list \<Rightarrow> 'r list"
  | DeleteRows string "'r \<Rightarrow> bool"

fun required :: "'r statement \<Rightarrow> string \<times> privilege" where
  "required (InsertRows t rs) = (t, INSERT)"
| "required (UpdateRows t f) = (t, UPDATE)"
| "required (DeleteRows t p) = (t, DELETE)"

fun apply_statement :: "'r statement \<Rightarrow> 'r rows \<Rightarrow> 'r rows" where
  "apply_statement (InsertRows t rs) s = s(t := s t @ rs)"
| "apply_statement (UpdateRows t f) s = s(t := f (s t))"
| "apply_statement (DeleteRows t p) s = s(t := filter (\<lambda>r. \<not> p r) (s t))"

definition exec_statement ::
  "database \<Rightarrow> string \<Rightarrow> 'r statement \<Rightarrow> 'r rows \<Rightarrow> (exn + unit) \<times> 'r rows" where
  "exec_statement d role st s =
     (if (role, required st) \<in> set (db_grants d) then (Inr (), apply_statement st s)
      else (Inl (database_error ''permission denied''), s))"

lemma application_grants_iff:
  "(APP_ROLE, t, p) \<in> set application_grants \<longleftrightarrow>
     t \<in> set ALL_TABLES \<and> (p \<in> {SELECT, INSERT} \<or> t \<notin> set APPEND_ONLY_TABLES) \<or>
     t = ''evidence_current'' \<and> p = SELECT"
  by (cases p) (auto simp: application_grants_def)

subsection \<open>Properties\<close>

text \<open>
  C10: the migration builds the models' schema, except for the names of the check constraints.  On an empty
  database \<open>upgrade\<close> runs without an error, every foreign key meeting an existing key of matching types and every enum
  type created before its first use, and leaves what the ORM metadata describes: the same enum types, the same fifteen
  tables, columns, defaults, keys, foreign keys and check expressions, and the same indexes, all but the checks under
  the models' names and none of these longer than PostgreSQL keeps.  The four check constraints have names of their own:
  the migration writes the models' final name as the name to which the naming convention is applied, so the prefix of
  \<open>ck\<close> and table is there twice; three of the four are too long and are cut, and as the database stores them, whatever
  the digest, none is the name of any check constraint of the models.
\<close>

theorem migration_builds_models:
  "\<exists>d. run_ddl upgrade empty_database = Inr d \<and> schema_matches orm_metadata d \<and>
     list_all (\<lambda>n. length n \<le> MAX_IDENTIFIER) (identifiers d) \<and>
     set (table_checks (db_tables d)) = (\<lambda>(t, n, sql). (t, ck_name t n, sql)) ` set model_checks \<and>
     length (table_checks (db_tables d)) = 4 \<and>
     length (filter (\<lambda>(t, n, sql). MAX_IDENTIFIER < length n) (table_checks (db_tables d))) = 3 \<and>
     rendered digits ` fst ` snd ` set (table_checks (db_tables d)) \<inter> fst ` snd ` set model_checks = {} \<and>
     APPEND_ONLY_TABLES = model_append_only_tables"
proof -
  from upgrade_run obtain d v where d: "tables_built d" and
    run: "run_ddl upgrade empty_database = Inr (d\<lparr>db_views := [v], db_unique_indexes :=
       [(''ux_evidence_current_natural_key'', ''evidence_current'', [''domain_id'', ''signal_class'', ''source_url''])],
     db_roles := [APP_ROLE], db_grants := application_grants\<rparr>)" by blast
  have "identifiers (d\<lparr>db_views := a, db_unique_indexes := b, db_roles := r, db_grants := g\<rparr>) = identifiers d"
    for a b r g
    by (simp add: identifiers_def)
  moreover have "rendered digits ` fst ` snd ` set (table_checks (db_tables d)) \<inter> fst ` snd ` set model_checks = {}"
    using d unfolding tables_built_def by (intro renamed_checks) blast
  moreover have "APPEND_ONLY_TABLES = model_append_only_tables"
    by (simp add: APPEND_ONLY_TABLES_def model_append_only_tables_def)
  ultimately show ?thesis using run d unfolding tables_built_def
    by (intro exI [of _ "d\<lparr>db_views := [v], db_unique_indexes :=
       [(''ux_evidence_current_natural_key'', ''evidence_current'', [''domain_id'', ''signal_class'', ''source_url''])],
     db_roles := [APP_ROLE], db_grants := application_grants\<rparr>"]) simp
qed

text \<open>
  C9: append-only is enforced by the database: after the migration, no sequence of statements the
  application role issues, allowed or refused, removes or changes a row of an append-only table; rows
  are only added at the end, an update or a delete there is refused, and on every other table it is allowed.
\<close>

theorem append_only_tables_only_grow:
  assumes "run_ddl upgrade empty_database = Inr d" and "t \<in> set APPEND_ONLY_TABLES"
  shows "prefix (s t) (fold (\<lambda>st s. snd (exec_statement d APP_ROLE st s)) sts s t) \<and>
     isl (fst (exec_statement d APP_ROLE (UpdateRows t f) s)) \<and>
     isl (fst (exec_statement d APP_ROLE (DeleteRows t p) s)) \<and>
     (u \<in> set ALL_TABLES - set APPEND_ONLY_TABLES \<longrightarrow>
        exec_statement d APP_ROLE (UpdateRows u f) s = (Inr (), s(u := f (s u))))"
proof -
  from assms(1) upgrade_run have g: "db_grants d = application_grants" by auto
  have "t \<noteq> ''evidence_current''" using assms(2) by (auto simp: APPEND_ONLY_TABLES_def)
  with assms(2) have no: "(APP_ROLE, t, UPDATE) \<notin> set (db_grants d)" "(APP_ROLE, t, DELETE) \<notin> set (db_grants d)"
    unfolding g application_grants_iff by simp_all
  have step: "prefix (s t) (snd (exec_statement d APP_ROLE st s) t)" for st and s :: "'a rows"
    using no by (cases st) (auto simp: exec_statement_def)
  have "prefix (s t) (fold (\<lambda>st s. snd (exec_statement d APP_ROLE st s)) sts s t)"
  proof (induction sts arbitrary: s)
    case (Cons st sts)
    from step [of s st] Cons.IH [of "snd (exec_statement d APP_ROLE st s)"]
    have "prefix (s t) (fold (\<lambda>st s. snd (exec_statement d APP_ROLE st s)) sts (snd (exec_statement d APP_ROLE st s)) t)"
      by (rule prefix_order.trans)
    then show ?case by simp
  qed simp
  moreover have "(APP_ROLE, u, UPDATE) \<in> set (db_grants d)" if "u \<in> set ALL_TABLES - set APPEND_ONLY_TABLES"
    using that unfolding g application_grants_iff by simp
  ultimately show ?thesis using no by (simp add: exec_statement_def)
qed

theorem append_only_tables_only_grow_witness:
  "\<exists>d. run_ddl upgrade empty_database = Inr d \<and>
     prefix [1 :: nat] (fold (\<lambda>st s. snd (exec_statement d APP_ROLE st s))
       [DeleteRows ''evidence'' (\<lambda>_. True), InsertRows ''evidence'' [2]] (\<lambda>_. [1]) ''evidence'')"
proof -
  from upgrade_run obtain d where d: "run_ddl upgrade empty_database = Inr d" by blast
  have "''evidence'' \<in> set APPEND_ONLY_TABLES" by (simp add: APPEND_ONLY_TABLES_def)
  from append_only_tables_only_grow [OF d this, of "\<lambda>_. [1]"] d show ?thesis by blast
qed

end
