(* ===== verification/Migration_Env.thy ===== *)
theory Migration_Env
  imports Migration Pystr
begin

section \<open>The migration environment\<close>

text \<open>
  \<^verbatim>\<open>data-model/migrations/env.py\<close>, which Alembic runs for every command.  Alembic, its configuration object and the
  database connection are a parameter; \<open>'d\<close> is the database, with the version Alembic recorded in it.  The command is
  \<open>upgrade head\<close>, the one the repository's documents give.  Alembic documents that \<open>set_main_option\<close> hands its value
  to \<open>ConfigParser.set\<close>, which refuses what is no interpolation syntax; that test is the standard library's.
\<close>

subsection \<open>The test of \<open>ConfigParser.set\<close>\<close>

text \<open>\<open>value.replace('%%', '')\<close>\<close>

fun drop_escaped :: "string \<Rightarrow> string" where
  "drop_escaped (c # d # s) =
     (if c = CHR 0x25 \<and> d = CHR 0x25 then drop_escaped s else c # drop_escaped (d # s))"
| "drop_escaped s = s"

text \<open>\<open>re.sub(r"%\(([^)]+)\)s", "", value)\<close>: the text after a key the pattern matches at the start.\<close>

definition after_key :: "string \<Rightarrow> string option" where
  "after_key s =
     (if take 2 s = [CHR 0x25, CHR 0x28] then
        (let key = takeWhile (\<lambda>c. c \<noteq> CHR 0x29) (drop 2 s);
             rest = drop (2 + length key) s
         in if key \<noteq> [] \<and> take 2 rest = [CHR 0x29, CHR 0x73] then Some (drop 2 rest) else None)
      else None)"

lemma after_key_shorter: "after_key s = Some t \<Longrightarrow> length t < length s"
  by (auto simp: after_key_def Let_def split: if_splits) (cases s; simp)

function drop_keys :: "string \<Rightarrow> string" where
  "drop_keys s =
     (case after_key s of
        Some t \<Rightarrow> drop_keys t
      | None \<Rightarrow> (case s of [] \<Rightarrow> [] | c # t \<Rightarrow> c # drop_keys t))"
  by pat_completeness auto
termination
  by (relation "measure length") (auto dest: after_key_shorter)

declare drop_keys.simps [simp del]

definition interpolation_ok :: "string \<Rightarrow> bool" where
  "interpolation_ok v \<longleftrightarrow> CHR 0x25 \<notin> set (drop_keys (drop_escaped v))"

subsection \<open>The environment script\<close>

record ('cfg, 'd) alembic =
  set_main_option :: "string \<Rightarrow> string \<Rightarrow> 'cfg \<Rightarrow> exn + 'cfg"
  get_main_option :: "string \<Rightarrow> 'cfg \<Rightarrow> exn + string option"
  is_offline_mode :: bool
  emit_sql :: "string option \<Rightarrow> exn + unit"
  connect :: "'cfg \<Rightarrow> exn + unit"
  run_migrations :: "'d \<Rightarrow> (exn + unit) \<times> 'd"
  end_transaction :: "bool \<Rightarrow> 'd \<Rightarrow> 'd \<Rightarrow> 'd"

definition env_config ::
  "('cfg, 'd) alembic \<Rightarrow> (string \<rightharpoonup> string) \<Rightarrow> 'cfg \<Rightarrow> exn + 'cfg" where
  "env_config A environ cfg =
     (case environ ''TRUSTLIST_DB_URL'' of
        None \<Rightarrow> Inr cfg
      | Some url \<Rightarrow> if url \<noteq> [] then set_main_option A ''sqlalchemy.url'' url cfg else Inr cfg)"

text \<open>Without a connection the statements are only printed.\<close>

definition run_migrations_offline ::
  "('cfg, 'd) alembic \<Rightarrow> 'cfg \<Rightarrow> 'd \<Rightarrow> (exn + unit) \<times> 'd" where
  "run_migrations_offline A cfg d =
     (bindE (get_main_option A ''sqlalchemy.url'' cfg) (emit_sql A), d)"

text \<open>\<open>with context.begin_transaction()\<close>: \<open>end_transaction ok before after\<close> is the database at its end.\<close>

definition run_migrations_online ::
  "('cfg, 'd) alembic \<Rightarrow> 'cfg \<Rightarrow> 'd \<Rightarrow> (exn + unit) \<times> 'd" where
  "run_migrations_online A cfg d =
     (case connect A cfg of
        Inl e \<Rightarrow> (Inl e, d)
      | Inr _ \<Rightarrow> (case run_migrations A d of (r, d') \<Rightarrow> (r, end_transaction A (\<not> isl r) d d')))"

definition migration_env ::
  "('cfg, 'd) alembic \<Rightarrow> (string \<rightharpoonup> string) \<Rightarrow> 'cfg \<Rightarrow> 'd \<Rightarrow> (exn + unit) \<times> 'd" where
  "migration_env A environ cfg d =
     (case env_config A environ cfg of
        Inl e \<Rightarrow> (Inl e, d)
      | Inr cfg' \<Rightarrow>
          if is_offline_mode A then run_migrations_offline A cfg' d else run_migrations_online A cfg' d)"

subsection \<open>Lemmas\<close>

lemma drop_escaped_same: "\<not> is_infix [CHR 0x25, CHR 0x25] v \<Longrightarrow> drop_escaped v = v"
  by (induction v rule: drop_escaped.induct) auto

lemma drop_keys_same: "\<not> is_infix [CHR 0x25, CHR 0x28] v \<Longrightarrow> drop_keys v = v"
proof (induction v)
  case Nil
  show ?case by (subst drop_keys.simps) (simp add: after_key_def)
next
  case (Cons c v)
  then have "after_key (c # v) = None" by (auto simp: after_key_def numeral_2_eq_2)
  with Cons show ?case by (subst drop_keys.simps) simp
qed

text \<open>A percent sign that neither escapes another nor opens a key is refused.\<close>

lemma raw_percent_refused:
  assumes "CHR 0x25 \<in> set v" and "\<not> is_infix [CHR 0x25, CHR 0x25] v" and "\<not> is_infix [CHR 0x25, CHR 0x28] v"
  shows "\<not> interpolation_ok v"
  using assms by (simp add: interpolation_ok_def drop_escaped_same drop_keys_same)

lemma no_infix: "CHR 0x25 \<notin> set v \<Longrightarrow> \<not> is_infix (CHR 0x25 # s) v"
  by (induction v) (auto simp: take_Cons')

lemma plain_url_ok: "CHR 0x25 \<notin> set v \<Longrightarrow> interpolation_ok v"
  by (simp add: interpolation_ok_def drop_escaped_same drop_keys_same no_infix)

subsection \<open>What Alembic and PostgreSQL document\<close>

text \<open>A migration script is run statement by statement; its first error ends it, with what was done until then.\<close>

fun run_statements :: "ddl list \<Rightarrow> database \<Rightarrow> (exn + unit) \<times> database" where
  "run_statements [] d = (Inr (), d)"
| "run_statements (s # ss) d =
     (case exec_ddl s d of Inl e \<Rightarrow> (Inl e, d) | Inr d' \<Rightarrow> run_statements ss d')"

lemma run_statements_eq:
  "case run_ddl ss d of
     Inl e \<Rightarrow> fst (run_statements ss d) = Inl e
   | Inr d' \<Rightarrow> run_statements ss d = (Inr (), d')"
proof (induction ss arbitrary: d)
  case (Cons s ss)
  show ?case
  proof (cases "exec_ddl s d")
    case (Inr b)
    with Cons.IH [of b] show ?thesis by (cases "run_ddl ss b") simp_all
  qed simp
qed simp

text \<open>The version recorded in the database, and the rest of the database.\<close>

type_synonym stamped = "string option \<times> database"

definition apply_revision :: "database \<Rightarrow> (exn + unit) \<times> stamped" where
  "apply_revision d =
     (case run_statements upgrade d of
        (Inl e, d') \<Rightarrow> (Inl e, (down_revision, d'))
      | (Inr _, d') \<Rightarrow> (Inr (), (Some revision, d')))"

text \<open>
  \<open>set_main_option\<close> is \<open>ConfigParser.set\<close>; \<open>run_migrations\<close> runs the revisions that the recorded version does not
  include yet, which is this one or none, and records the new version after each; and a transaction that ends by an
  exception is undone.
\<close>

definition as_documented :: "('cfg, stamped) alembic \<Rightarrow> bool" where
  "as_documented A \<longleftrightarrow>
     (\<forall>n v cfg. if interpolation_ok v then \<not> isl (set_main_option A n v cfg)
        else \<exists>m. set_main_option A n v cfg = Inl (value_error m)) \<and>
     (\<forall>d. run_migrations A (down_revision, d) = apply_revision d) \<and>
     (\<forall>d. run_migrations A (Some revision, d) = (Inr (), (Some revision, d))) \<and>
     (\<forall>before after. end_transaction A True before after = after \<and> end_transaction A False before after = before)"

text \<open>The outcome of the environment script once its URL is accepted and the database connected.\<close>

definition migrated :: "database \<Rightarrow> (exn + unit) \<times> stamped" where
  "migrated d =
     (case run_ddl upgrade d of
        Inl e \<Rightarrow> (Inl e, (down_revision, d))
      | Inr d' \<Rightarrow> (Inr (), (Some revision, d')))"

lemma online_all_or_nothing:
  assumes "as_documented A" and "connect A cfg = Inr ()"
  shows "run_migrations_online A cfg (down_revision, d) = migrated d"
proof -
  from assms(1) have run: "run_migrations A (down_revision, d) = apply_revision d"
    and fin: "end_transaction A True (down_revision, d) after = after"
      "end_transaction A False (down_revision, d) after = (down_revision, d)" for after
    unfolding as_documented_def by blast+
  show ?thesis
  proof (cases "run_ddl upgrade d")
    case (Inl e)
    with run_statements_eq [of upgrade d] obtain d' where "run_statements upgrade d = (Inl e, d')"
      by (cases "run_statements upgrade d") auto
    with Inl assms(2) run fin show ?thesis by (simp add: run_migrations_online_def apply_revision_def migrated_def)
  next
    case (Inr d')
    with run_statements_eq [of upgrade d] have "run_statements upgrade d = (Inr (), d')" by simp
    with Inr assms(2) run fin show ?thesis by (simp add: run_migrations_online_def apply_revision_def migrated_def)
  qed
qed

lemma online_again:
  assumes "as_documented A" and "connect A cfg = Inr ()"
  shows "run_migrations_online A cfg (Some revision, d) = (Inr (), (Some revision, d))"
  using assms by (simp add: run_migrations_online_def as_documented_def)

subsection \<open>Properties\<close>

definition demo_alembic :: "(string option, stamped) alembic" where
  "demo_alembic =
     \<lparr>set_main_option = (\<lambda>n v cfg. if interpolation_ok v then Inr (Some v)
         else Inl (value_error ''invalid interpolation syntax'')),
      get_main_option = (\<lambda>n. Inr), is_offline_mode = False, emit_sql = (\<lambda>_. Inr ()),
      connect = (\<lambda>_. Inr ()),
      run_migrations = (\<lambda>(v, d). if v = down_revision then apply_revision d else (Inr (), (v, d))),
      end_transaction = (\<lambda>ok before after. if ok then after else before)\<rparr>"

lemma demo_alembic: "as_documented demo_alembic"
  by (simp add: as_documented_def demo_alembic_def down_revision_def)

text \<open>
  C35: with a database URL in its environment variable the migration runs as a whole, once, or not at all.  A URL
  that \<open>ConfigParser\<close> takes leads, once connected and from a database with no recorded version, to the migrated database
  with the version recorded, or, with the error of the statement that failed, to the database as it was, whatever the
  statements before it had done; an empty database gets the models' schema; on a migrated database the script succeeds
  and changes nothing, so a second run has the outcome of the first.  A URL with a percent sign of a percent-encoded
  character, as SQLAlchemy wants for special characters in a password, makes the script raise \<open>ValueError\<close> before it
  connects, with the database unchanged.
\<close>

theorem migration_env_all_or_nothing:
  assumes "as_documented A" and "\<not> is_offline_mode A"
    and "environ ''TRUSTLIST_DB_URL'' = Some url" and "url \<noteq> []" and "\<And>cfg. connect A cfg = Inr ()"
  shows "(if interpolation_ok url
       then migration_env A environ cfg (down_revision, d) =
           (case run_ddl upgrade d of
              Inl e \<Rightarrow> (Inl e, (down_revision, d))
            | Inr d' \<Rightarrow> (Inr (), (Some revision, d'))) \<and>
         migration_env A environ cfg (Some revision, d) = (Inr (), (Some revision, d)) \<and>
         (let first = migration_env A environ cfg (down_revision, d)
          in migration_env A environ cfg (snd first) = first) \<and>
         (\<exists>d'. schema_matches orm_metadata d' \<and>
            migration_env A environ cfg (down_revision, empty_database) = (Inr (), (Some revision, d')))
       else \<exists>m. migration_env A environ cfg (v, d) = (Inl (value_error m), (v, d))) \<and>
    (CHR 0x25 \<notin> set url \<longrightarrow> interpolation_ok url) \<and>
    (CHR 0x25 \<in> set url \<and> \<not> is_infix [CHR 0x25, CHR 0x25] url \<and> \<not> is_infix [CHR 0x25, CHR 0x28] url \<longrightarrow>
       \<not> interpolation_ok url)"
proof (intro conjI, goal_cases)
  case 1
  have opt: "if interpolation_ok url then \<not> isl (set_main_option A ''sqlalchemy.url'' url cfg)
      else \<exists>m. set_main_option A ''sqlalchemy.url'' url cfg = Inl (value_error m)"
    using assms(1) unfolding as_documented_def by blast
  have conf: "env_config A environ cfg = set_main_option A ''sqlalchemy.url'' url cfg"
    using assms(3,4) by (simp add: env_config_def)
  show ?case
  proof (cases "interpolation_ok url")
    case True
    with opt obtain cfg' where "env_config A environ cfg = Inr cfg'"
      unfolding conf by (cases "set_main_option A ''sqlalchemy.url'' url cfg") auto
    with assms(2) have run: "migration_env A environ cfg st = run_migrations_online A cfg' st" for st
      by (simp add: migration_env_def)
    have fresh: "migration_env A environ cfg (down_revision, x) = migrated x" for x
      unfolding run by (rule online_all_or_nothing [OF assms(1,5)])
    have again: "migration_env A environ cfg (Some revision, x) = (Inr (), (Some revision, x))" for x
      unfolding run by (rule online_again [OF assms(1,5)])
    have "migration_env A environ cfg (snd (migrated d)) = migrated d"
      by (cases "run_ddl upgrade d") (simp_all add: migrated_def again fresh)
    moreover from upgrade_builds obtain d' where "schema_matches orm_metadata d'" "migrated empty_database = (Inr (), (Some revision, d'))"
      by (auto simp: migrated_def)
    ultimately show ?thesis using True by (auto simp: fresh again Let_def migrated_def)
  next
    case False
    with opt show ?thesis by (auto simp: migration_env_def conf)
  qed
qed (use plain_url_ok raw_percent_refused in blast)+

text \<open>An environment that sets the variable, and a database that has a table of the migration's already.\<close>

definition url_environ :: "string \<Rightarrow> string \<rightharpoonup> string" where
  "url_environ url k = (if k = ''TRUSTLIST_DB_URL'' then Some url else None)"

definition pool_database :: database where
  "pool_database = empty_database\<lparr>db_tables := [\<lparr>t_name = ''pool'', t_columns = [], t_constraints = []\<rparr>]\<rparr>"

lemma pool_refused: "isl (run_ddl upgrade pool_database) \<and> snd (run_statements upgrade pool_database) \<noteq> pool_database"
  by code_simp

theorem migration_env_all_or_nothing_witness:
  "isl (fst (migration_env demo_alembic (url_environ ''postgresql://app:p%40ss@db/trustlist'') None (None, empty_database))) \<and>
   fst (migration_env demo_alembic (url_environ ''postgresql://db/trustlist'') None (None, empty_database)) = Inr () \<and>
   snd (apply_revision pool_database) \<noteq> (None, pool_database) \<and>
   snd (migration_env demo_alembic (url_environ ''postgresql://db/trustlist'') None (None, pool_database)) = (None, pool_database)"
proof -
  have A: "\<not> is_offline_mode demo_alembic" "\<And>cfg. connect demo_alembic cfg = Inr ()"
    by (simp_all add: demo_alembic_def)
  have url: "url_environ u ''TRUSTLIST_DB_URL'' = Some u" for u by (simp add: url_environ_def)
  note run = migration_env_all_or_nothing [where A = demo_alembic and environ = "url_environ u" and url = u and cfg = None for u,
    OF demo_alembic A(1) url _ A(2)]
  have "\<not> interpolation_ok ''postgresql://app:p%40ss@db/trustlist''" and ok: "interpolation_ok ''postgresql://db/trustlist''"
    by code_simp+
  with run [of "''postgresql://app:p%40ss@db/trustlist''" empty_database None]
  have "isl (fst (migration_env demo_alembic (url_environ ''postgresql://app:p%40ss@db/trustlist'') None (None, empty_database)))"
    by auto
  moreover from run [of "''postgresql://db/trustlist''" empty_database None] ok
  have "fst (migration_env demo_alembic (url_environ ''postgresql://db/trustlist'') None (None, empty_database)) = Inr ()"
    by (cases "run_ddl upgrade empty_database") (auto simp: down_revision_def)
  moreover from run [of "''postgresql://db/trustlist''" pool_database None] ok pool_refused
  have "snd (migration_env demo_alembic (url_environ ''postgresql://db/trustlist'') None (None, pool_database)) = (None, pool_database)"
    by (cases "run_ddl upgrade pool_database") (auto simp: down_revision_def)
  moreover have "snd (apply_revision pool_database) \<noteq> (None, pool_database)"
    using pool_refused by (auto simp: apply_revision_def down_revision_def split: prod.splits sum.splits)
  ultimately show ?thesis by blast
qed

end
