(* ===== verification/Evidence_View.thy ===== *)
theory Evidence_View
  imports Main "HOL-Library.Product_Lexorder" "HOL-Library.List_Lexorder" "HOL-Library.Char_ord"
begin

section \<open>The current-evidence view\<close>

text \<open>
  The query of the materialised view \<open>evidence_current\<close> in
  \<^verbatim>\<open>data-model/migrations/versions/0001_create_canonical_data_model.py\<close>:
  \<open>SELECT DISTINCT ON (domain_id, signal_class, source_url) ... ORDER BY\<close> that key, then
  \<open>observed_at DESC, recorded_at DESC, evidence_id DESC\<close>.  Instants are integers and an identifier
  its 128-bit number; the columns the query only passes on are \<open>ev_rest\<close>.
\<close>

record 'a evidence_row =
  evidence_id :: nat
  ev_domain_id :: string
  ev_signal_class :: string
  ev_source_url :: string
  ev_observed_at :: int
  ev_recorded_at :: int
  ev_rest :: 'a

definition natural_key :: "'a evidence_row \<Rightarrow> string \<times> string \<times> string" where
  "natural_key r = (ev_domain_id r, ev_signal_class r, ev_source_url r)"

definition recency :: "'a evidence_row \<Rightarrow> int \<times> int \<times> nat" where
  "recency r = (ev_observed_at r, ev_recorded_at r, evidence_id r)"

definition order_key :: "'a evidence_row \<Rightarrow> (string \<times> string \<times> string) \<times> int \<times> int \<times> int" where
  "order_key r = (natural_key r, - ev_observed_at r, - ev_recorded_at r, - int (evidence_id r))"

text \<open>\<open>DISTINCT ON\<close> keeps the first row of every run of rows with one key.\<close>

function distinct_on :: "('r \<Rightarrow> 'k) \<Rightarrow> 'r list \<Rightarrow> 'r list" where
  "distinct_on f [] = []"
| "distinct_on f (r # rs) = r # distinct_on f (dropWhile (\<lambda>x. f x = f r) rs)"
  by pat_completeness auto

termination
  by (relation "measure (\<lambda>(f, rs). length rs)") (auto simp: less_Suc_eq_le length_dropWhile_le)

definition evidence_current :: "'a evidence_row list \<Rightarrow> 'a evidence_row list" where
  "evidence_current rows = distinct_on natural_key (sort_key order_key rows)"

lemma pair_le: "(k, x) \<le> (l, y) \<longleftrightarrow> k < l \<or> k = l \<and> x \<le> y"
  for k l :: "'x :: linorder" and x y :: "'y :: linorder"
  by (auto simp: less_eq_prod_def)

lemma order_key_le:
  "order_key a \<le> order_key b \<longleftrightarrow>
     natural_key a < natural_key b \<or> natural_key a = natural_key b \<and> recency b \<le> recency a"
  unfolding order_key_def recency_def pair_le by auto

text \<open>In an ordered table the rows past those of the first row's key have greater keys.\<close>

lemma sorted_rest_later:
  fixes r :: "'a evidence_row"
  assumes "sorted (map order_key (r # rs))" and "x \<in> set (dropWhile (\<lambda>x. natural_key x = natural_key r) rs)"
  shows "natural_key r < natural_key x"
proof (cases "dropWhile (\<lambda>x. natural_key x = natural_key r) rs")
  case (Cons y ys)
  obtain same where rs: "rs = same @ y # ys"
    using takeWhile_dropWhile_id [of "\<lambda>x. natural_key x = natural_key r" rs] unfolding Cons by metis
  then have "y \<in> set rs" and srt: "sorted (map order_key (y # ys))" and "order_key r \<le> order_key y"
    using assms(1) by (simp_all add: sorted_append)
  moreover have "natural_key y \<noteq> natural_key r" using Cons unfolding dropWhile_eq_Cons_conv by blast
  ultimately have "natural_key r < natural_key y" by (auto simp: order_key_le)
  moreover have "x = y \<or> order_key y \<le> order_key x"
    using assms(2) Cons srt by auto
  ultimately show ?thesis by (auto simp: order_key_le)
next
  case Nil
  with assms(2) show ?thesis unfolding Nil by simp
qed

lemma distinct_on_sorted:
  fixes rs :: "'a evidence_row list"
  assumes "sorted (map order_key rs)"
  shows "distinct (map natural_key (distinct_on natural_key rs)) \<and>
     natural_key ` set (distinct_on natural_key rs) = natural_key ` set rs \<and>
     set (distinct_on natural_key rs) \<subseteq> set rs \<and>
     (\<forall>r \<in> set (distinct_on natural_key rs). \<forall>x \<in> set rs. natural_key x = natural_key r \<longrightarrow> recency x \<le> recency r)"
  using assms
proof (induction "natural_key :: 'a evidence_row \<Rightarrow> string \<times> string \<times> string" rs rule: distinct_on.induct)
  case 1
  then show ?case by simp
next
  case (2 r rs)
  let ?k = "natural_key :: 'a evidence_row \<Rightarrow> string \<times> string \<times> string"
  define rest where "rest = dropWhile (\<lambda>x. ?k x = ?k r) rs"
  define same where "same = takeWhile (\<lambda>x. ?k x = ?k r) rs"
  have rs: "rs = same @ rest" by (simp add: rest_def same_def)
  have same: "\<forall>x \<in> set same. ?k x = ?k r" by (auto simp: same_def dest: set_takeWhileD)
  have first: "\<forall>x \<in> set rs. order_key r \<le> order_key x" using 2(2) by simp
  have srt: "sorted (map order_key rest)" using 2(2) rs by (simp add: sorted_append)
  have later: "?k r < ?k x" if "x \<in> set rest" for x
    using sorted_rest_later [OF 2(2)] that by (simp add: rest_def)
  note IH = 2(1) [OF srt [unfolded rest_def], folded rest_def]
  have step: "distinct_on ?k (r # rs) = r # distinct_on ?k rest" by (simp add: rest_def)
  have "?k r \<notin> ?k ` set rest" using later by (metis imageE less_irrefl)
  then have "distinct (map ?k (distinct_on ?k (r # rs)))"
    unfolding step using IH by simp
  moreover have "?k ` set (r # rs) = insert (?k r) (?k ` set rest)" using rs same by auto
  then have "?k ` set (distinct_on ?k (r # rs)) = ?k ` set (r # rs)"
    unfolding step using IH by simp
  moreover have "set (distinct_on ?k (r # rs)) \<subseteq> set (r # rs)"
    unfolding step using IH rs by auto
  moreover have "recency x \<le> recency q"
    if "q \<in> set (distinct_on ?k (r # rs))" "x \<in> set (r # rs)" "?k x = ?k q" for q x
  proof (cases "q = r")
    case True
    with that(2,3) first show ?thesis by (cases "x = r") (auto simp: order_key_le)
  next
    case False
    with that(1) have q: "q \<in> set (distinct_on ?k rest)" unfolding step by simp
    then have "q \<in> set rest" using IH by auto
    from later [OF this] that(3) have less: "?k r < ?k x" by simp
    then have "x \<in> set rest" using that(2) rs same by auto
    with IH q that(3) show ?thesis by auto
  qed
  ultimately show ?case by blast
qed

text \<open>Identifiers being unique, no two rows tie, and the view's rows are the latest ones.\<close>

lemma evidence_current_iff:
  assumes "distinct (map evidence_id rows)"
  shows "r \<in> set (evidence_current rows) \<longleftrightarrow>
     r \<in> set rows \<and> (\<forall>x \<in> set rows. natural_key x = natural_key r \<longrightarrow> recency x \<le> recency r)"
proof -
  have "sorted (map order_key (sort_key order_key rows))" by simp
  note view = distinct_on_sorted [OF this, folded evidence_current_def, unfolded set_sort]
  have inj: "x = y" if "x \<in> set rows" "y \<in> set rows" "recency x = recency y" for x y
    using assms that by (auto simp: recency_def distinct_map dest: inj_onD)
  show ?thesis
  proof
    assume R: "r \<in> set rows \<and> (\<forall>x \<in> set rows. natural_key x = natural_key r \<longrightarrow> recency x \<le> recency r)"
    then have "natural_key r \<in> natural_key ` set (evidence_current rows)" using view by blast
    then obtain q where q: "q \<in> set (evidence_current rows)" "natural_key q = natural_key r" by auto
    with view R have "q \<in> set rows" "recency q \<le> recency r" "recency r \<le> recency q" by auto
    with inj R q(1) show "r \<in> set (evidence_current rows)" by (metis antisym)
  qed (use view in blast)
qed

subsection \<open>Properties\<close>

text \<open>
  C19: the view holds the latest observation of every natural key: its keys are distinct, as its
  unique index needs them to be, they are exactly the keys that have evidence, and the row of a key
  is one of the stored rows that no other row of that key beats on observation time, then recording
  time, then identifier.
\<close>

theorem evidence_current_latest:
  "distinct (map natural_key (evidence_current rows)) \<and>
   natural_key ` set (evidence_current rows) = natural_key ` set rows \<and>
   set (evidence_current rows) \<subseteq>
     {r \<in> set rows. recency r = Max (recency ` {x \<in> set rows. natural_key x = natural_key r})}"
proof -
  have "sorted (map order_key (sort_key order_key rows))" by simp
  note view = distinct_on_sorted [OF this, folded evidence_current_def, unfolded set_sort]
  have "recency r = Max (recency ` {x \<in> set rows. natural_key x = natural_key r})"
    if "r \<in> set (evidence_current rows)" for r
    using view that by (intro Max_eqI [symmetric]) auto
  with view show ?thesis by blast
qed

text \<open>
  Evidence is superseded by insertion alone: inserting a row newer than every stored row of its
  key makes it the current row of that key, and leaves the current row of every other key as it was.
\<close>

theorem newer_evidence_supersedes:
  assumes "distinct (map evidence_id (rows @ [r]))"
    and "\<And>x. x \<in> set rows \<Longrightarrow> natural_key x = natural_key r \<Longrightarrow> recency x < recency r"
  shows "set (evidence_current (rows @ [r])) =
     insert r {x \<in> set (evidence_current rows). natural_key x \<noteq> natural_key r}"
  using assms
  by (auto simp: evidence_current_iff set_eq_iff) (force dest: less_imp_le leD)+

theorem newer_evidence_supersedes_witness:
  "set (evidence_current ([\<lparr>evidence_id = 7, ev_domain_id = ''d'', ev_signal_class = ''dns'', ev_source_url = [],
       ev_observed_at = 5, ev_recorded_at = 9, ev_rest = ()\<rparr>] @
     [\<lparr>evidence_id = 3, ev_domain_id = ''d'', ev_signal_class = ''dns'', ev_source_url = [],
       ev_observed_at = 6, ev_recorded_at = 8, ev_rest = ()\<rparr>])) =
   {\<lparr>evidence_id = 3, ev_domain_id = ''d'', ev_signal_class = ''dns'', ev_source_url = [],
       ev_observed_at = 6, ev_recorded_at = 8, ev_rest = ()\<rparr>}"
  by (subst newer_evidence_supersedes)
     (auto simp: natural_key_def recency_def evidence_current_def)

end
