(* ===== verification/Tracing.thy ===== *)
theory Tracing
  imports Observability
begin

section \<open>Tracing\<close>

text \<open>
  \<^verbatim>\<open>observability/propagation.py\<close>: the carrier of a trace context; and
  \<^verbatim>\<open>observability/tracing.py\<close>: the choice of exporter and service name and the life of the global
  provider.  OpenTelemetry is not part of the repository: its exporters and its global provider are parameters.
\<close>

subsection \<open>Tracing\<close>

text \<open>
  \<^verbatim>\<open>observability/propagation.py\<close>: \<open>inject carrier context\<close> is the carrier as OpenTelemetry's propagator leaves
  it, \<open>extract\<close> its reading of one.
\<close>

definition inject_trace_context ::
  "((string, pyval) dict \<Rightarrow> 'c option \<Rightarrow> (string, pyval) dict) \<Rightarrow> (string, pyval) dict option \<Rightarrow>
     'c option \<Rightarrow> (string, pyval) dict" where
  "inject_trace_context inject carrier context =
     (let target = (case carrier of Some c \<Rightarrow> c | None \<Rightarrow> []) in inject target context)"

definition extract_trace_context :: "((string, pyval) dict \<Rightarrow> 'c) \<Rightarrow> (string, pyval) dict \<Rightarrow> 'c" where
  "extract_trace_context extract carrier = extract carrier"


datatype exporter_kind = OTLP | CONSOLE | NO_EXPORTER

fun exporter_value :: "exporter_kind \<Rightarrow> string" where
  "exporter_value OTLP = ''otlp''"
| "exporter_value CONSOLE = ''console''"
| "exporter_value NO_EXPORTER = ''none''"

definition environ_get :: "(string \<rightharpoonup> string) \<Rightarrow> string \<Rightarrow> string" where
  "environ_get environ k = (case environ k of None \<Rightarrow> [] | Some v \<Rightarrow> str_strip v)"

definition resolve_exporter_kind :: "(string \<rightharpoonup> string) \<Rightarrow> exn + exporter_kind" where
  "resolve_exporter_kind environ =
     (let explicit = str_lower (environ_get environ ''TRUSTLIST_OTEL_EXPORTER'')
      in if explicit \<noteq> [] then
           (case List.find (\<lambda>k. exporter_value k = explicit) [OTLP, CONSOLE, NO_EXPORTER] of
              Some k \<Rightarrow> Inr k
            | None \<Rightarrow> Inl (value_error (''TRUSTLIST_OTEL_EXPORTER='' @ py_repr explicit @
                '' is not a recognised exporter; expected one of: otlp, console, none.'')))
         else if environ_get environ ''OTEL_EXPORTER_OTLP_ENDPOINT'' \<noteq> [] then Inr OTLP
         else Inr CONSOLE)"

text \<open>
  An exporter is its kind; \<open>None\<close> says that no span processor is registered at all.  \<open>construct\<close> is the
  outcome of importing and constructing OpenTelemetry's exporter of a kind; the import fails where its package is not
  installed.
\<close>

definition build_exporter ::
  "(exporter_kind \<Rightarrow> exn + unit) \<Rightarrow> exporter_kind \<Rightarrow> exn + exporter_kind option" where
  "build_exporter construct kind =
     (if kind = NO_EXPORTER then Inr None else bindE (construct kind) (\<lambda>_. Inr (Some kind)))"

text \<open>The provider: its service name and the span processors registered with it.\<close>

datatype 'x processor = SimpleProcessor 'x | BatchProcessor exporter_kind

record 'x tracer_provider =
  service_name :: string
  processors :: "'x processor list"

text \<open>
  The constructors of OpenTelemetry's SDK: \<open>new_provider\<close> is the outcome of \<open>Resource.create\<close> and \<open>TracerProvider\<close> for a
  service name and \<open>new_batch\<close> of \<open>BatchSpanProcessor\<close>, both of which read limits from \<open>OTEL_*\<close> variables and
  raise \<open>ValueError\<close> on one that is no number; \<open>new_exporter\<close> is the outcome for an exporter, as above.
\<close>

record constructors =
  new_provider :: "string \<Rightarrow> exn + unit"
  new_exporter :: "exporter_kind \<Rightarrow> exn + unit"
  new_batch :: "exporter_kind \<Rightarrow> exn + unit"

definition configured_provider ::
  "constructors \<Rightarrow> (string \<rightharpoonup> string) \<Rightarrow> string option \<Rightarrow> 'x option \<Rightarrow> exn + 'x tracer_provider" where
  "configured_provider K environ name exporter =
     (let resolved =
        (if name \<noteq> None \<and> the name \<noteq> [] then the name
         else if environ_get environ ''OTEL_SERVICE_NAME'' \<noteq> [] then environ_get environ ''OTEL_SERVICE_NAME''
         else ''trustlist'')
      in bindE (new_provider K resolved) (\<lambda>_.
         case exporter of
           Some e \<Rightarrow> Inr \<lparr>service_name = resolved, processors = [SimpleProcessor e]\<rparr>
         | None \<Rightarrow>
             bindE (resolve_exporter_kind environ) (\<lambda>kind.
             bindE (build_exporter (new_exporter K) kind) (\<lambda>built.
               case built of
                 None \<Rightarrow> Inr \<lparr>service_name = resolved, processors = []\<rparr>
               | Some x \<Rightarrow> bindE (new_batch K x) (\<lambda>_.
                   Inr \<lparr>service_name = resolved, processors = [BatchProcessor x]\<rparr>)))))"

text \<open>
  OpenTelemetry's global provider, over a state of its own: \<open>shutdown_attr q\<close> is
  \<open>getattr(q, "shutdown", None)\<close> when that is callable.
\<close>

record ('g, 'x, 'q) otel =
  sdk :: constructors
  set_tracer_provider :: "'x tracer_provider \<Rightarrow> 'g \<Rightarrow> 'g"
  get_tracer_provider :: "'g \<Rightarrow> 'q \<times> 'g"
  shutdown_attr :: "'q \<Rightarrow> ('g \<Rightarrow> (exn + unit) \<times> 'g) option"

definition init_tracing ::
  "('g, 'x, 'q) otel \<Rightarrow> (string \<rightharpoonup> string) \<Rightarrow> string option \<Rightarrow> 'x option \<Rightarrow>
     'g \<Rightarrow> (exn + 'x tracer_provider) \<times> 'g" where
  "init_tracing T environ name exporter g =
     (case configured_provider (sdk T) environ name exporter of
        Inl e \<Rightarrow> (Inl e, g)
      | Inr p \<Rightarrow> (Inr p, set_tracer_provider T p g))"

definition shutdown_tracing :: "('g, 'x, 'q) otel \<Rightarrow> 'g \<Rightarrow> (exn + unit) \<times> 'g" where
  "shutdown_tracing T g =
     (case get_tracer_provider T g of
        (q, g') \<Rightarrow> (case shutdown_attr T q of None \<Rightarrow> (Inr (), g') | Some shutdown \<Rightarrow> shutdown g'))"

subsection \<open>Lemmas and properties\<close>

lemma resolve_otlp:
  assumes "resolve_exporter_kind environ = Inr OTLP"
  shows "str_lower (environ_get environ ''TRUSTLIST_OTEL_EXPORTER'') = ''otlp'' \<or>
      str_lower (environ_get environ ''TRUSTLIST_OTEL_EXPORTER'') = [] \<and>
      environ_get environ ''OTEL_EXPORTER_OTLP_ENDPOINT'' \<noteq> []"
proof -
  define explicit endpoint kinds where "explicit = str_lower (environ_get environ ''TRUSTLIST_OTEL_EXPORTER'')"
    and "endpoint = environ_get environ ''OTEL_EXPORTER_OTLP_ENDPOINT''" and "kinds = [OTLP, CONSOLE, NO_EXPORTER]"
  have found: "List.find P xs = Some x \<Longrightarrow> P x" for P xs and x :: exporter_kind
    by (induction xs) (auto split: if_splits)
  from assms have "explicit \<noteq> [] \<and> List.find (\<lambda>k. exporter_value k = explicit) kinds = Some OTLP \<or>
      explicit = [] \<and> endpoint \<noteq> []"
    unfolding resolve_exporter_kind_def Let_def explicit_def [symmetric] endpoint_def [symmetric] kinds_def [symmetric]
    by (simp only: split: if_splits option.splits sum.splits) simp_all
  then have "exporter_value OTLP = explicit \<or> explicit = [] \<and> endpoint \<noteq> []"
    using found by blast
  then show ?thesis unfolding explicit_def endpoint_def by auto
qed

lemma init_tracing_fst: "fst (init_tracing T environ name exporter g) = configured_provider (sdk T) environ name exporter"
  by (simp add: init_tracing_def split: sum.split)

text \<open>The exceptions of the set-up: an exporter name it does not know, and what a constructor raises.\<close>

lemma configured_provider_error:
  "configured_provider K environ name exporter = Inl e \<Longrightarrow>
     (\<exists>n. new_provider K n = Inl e) \<or>
     exporter = None \<and> ((\<exists>m. e = value_error m) \<or> (\<exists>kind. new_exporter K kind = Inl e \<or> new_batch K kind = Inl e))"
  by (auto simp: configured_provider_def resolve_exporter_kind_def build_exporter_def Let_def bindE_eq_Inl
      split: option.splits if_splits)

lemma configured_otlp:
  assumes "configured_provider K environ name (None :: 'x option) = Inr p" and "BatchProcessor OTLP \<in> set (processors p)"
  shows "resolve_exporter_kind environ = Inr OTLP"
  using assms unfolding configured_provider_def Let_def
  by (auto simp: build_exporter_def bindE_eq_Inr split: if_splits option.splits)

lemma configured_explicit:
  "configured_provider K environ name (Some e) = Inr q \<Longrightarrow> processors q = [SimpleProcessor e]"
  unfolding configured_provider_def Let_def by (auto simp: bindE_eq_Inr)

text \<open>A global provider that is set once; its shutdown notes the service name.\<close>

definition once_shut ::
  "nat tracer_provider \<Rightarrow> nat tracer_provider option \<times> string list \<Rightarrow>
     (exn + unit) \<times> nat tracer_provider option \<times> string list" where
  "once_shut p g = (Inr (), fst g, snd g @ [service_name p])"

definition once_otel ::
  "(nat tracer_provider option \<times> string list, nat, nat tracer_provider option) otel" where
  "once_otel =
     \<lparr>sdk = \<lparr>new_provider = (\<lambda>_. Inr ()), new_exporter = (\<lambda>_. Inr ()), new_batch = (\<lambda>_. Inr ())\<rparr>,
      set_tracer_provider = (\<lambda>p g. case fst g of None \<Rightarrow> (Some p, snd g) | Some _ \<Rightarrow> g),
      get_tracer_provider = (\<lambda>g. (fst g, g)),
      shutdown_attr = map_option once_shut\<rparr>"

text \<open>
  Safe by default: tracing never sends a span over the network unless the environment asks
  for it, by naming the OTLP exporter or, with no exporter named, by giving an OTLP endpoint; an
  exporter the caller passes is the only one installed.
\<close>

theorem no_network_by_default:
  "(fst (init_tracing T environ name (None :: 'x option) g) = Inr p \<and> BatchProcessor OTLP \<in> set (processors p) \<longrightarrow>
      str_lower (environ_get environ ''TRUSTLIST_OTEL_EXPORTER'') = ''otlp'' \<or>
      str_lower (environ_get environ ''TRUSTLIST_OTEL_EXPORTER'') = [] \<and>
      environ_get environ ''OTEL_EXPORTER_OTLP_ENDPOINT'' \<noteq> []) \<and>
   (fst (init_tracing T environ name (Some e) g) = Inr q \<longrightarrow> processors q = [SimpleProcessor (e :: 'x)])"
proof -
  have "resolve_exporter_kind environ = Inr OTLP"
    if "fst (init_tracing T environ name (None :: 'x option) g) = Inr p" "BatchProcessor OTLP \<in> set (processors p)"
    using that unfolding init_tracing_fst by (rule configured_otlp)
  moreover have "processors q = [SimpleProcessor e]" if "fst (init_tracing T environ name (Some e) g) = Inr q"
    using that unfolding init_tracing_fst by (rule configured_explicit)
  ultimately show ?thesis using resolve_otlp [of environ] by blast
qed

theorem no_network_by_default_witness:
  "environ_get (\<lambda>k. if k = ''OTEL_EXPORTER_OTLP_ENDPOINT'' then Some '' https://o'' else None) ''OTEL_EXPORTER_OTLP_ENDPOINT'' \<noteq> []"
proof -
  define env where "env = (\<lambda>k. if k = ''OTEL_EXPORTER_OTLP_ENDPOINT'' then Some '' https://o'' else None)"
  have silent: "str_lower (environ_get env ''TRUSTLIST_OTEL_EXPORTER'') = []"
    unfolding env_def by code_simp
  have "resolve_exporter_kind env = Inr OTLP" unfolding env_def by code_simp
  then have "fst (init_tracing once_otel env (Some ''s'') (None :: nat option) (None, [])) =
      Inr \<lparr>service_name = ''s'', processors = [BatchProcessor OTLP]\<rparr>"
    by (simp add: init_tracing_fst configured_provider_def build_exporter_def once_otel_def)
  from no_network_by_default [THEN conjunct1, THEN mp, OF conjI [OF this]] silent
  show ?thesis unfolding env_def by simp
qed

text \<open>
  C40: the life of the tracing set-up, given that OpenTelemetry's \<open>set_tracer_provider\<close> takes effect once:
  a call of \<open>init_tracing\<close> that raises installs nothing, and raises what a constructor of the SDK raised or, with no
  exporter passed, a \<open>ValueError\<close> of its own; the first that returns installs the provider it
  returns; every later one returns a provider that is not installed; and \<open>shutdown_tracing\<close> shuts down the first one,
  or does nothing when there was none.
\<close>

theorem tracing_lifecycle:
  assumes "\<And>p g. installed (set_tracer_provider T p g) = (case installed g of None \<Rightarrow> Some p | Some q \<Rightarrow> Some q)"
    and "\<And>g. get_tracer_provider T g = (installed g, g)"
    and "shutdown_attr T = map_option shut" and "installed g = None"
    and "init_tracing T environ name exporter g = (r, g1)"
    and "init_tracing T environ' name' exporter' g1 = (r', g2)"
  shows "shutdown_tracing T g = (Inr (), g) \<and>
    (case r of
       Inl e \<Rightarrow> g1 = g \<and> ((\<exists>n. new_provider (sdk T) n = Inl e) \<or>
         exporter = None \<and> ((\<exists>m. e = value_error m) \<or>
           (\<exists>kind. new_exporter (sdk T) kind = Inl e \<or> new_batch (sdk T) kind = Inl e)))
     | Inr p \<Rightarrow> installed g1 = Some p \<and> installed g2 = Some p \<and> shutdown_tracing T g2 = shut p g2)"
proof -
  have "installed g2 = Some p" if "installed g1 = Some p" for p
    using that assms(1,6) by (auto simp: init_tracing_def split: sum.splits)
  moreover have "installed g1 = Some p" if "r = Inr p" for p
    using that assms(1,4,5) by (auto simp: init_tracing_def split: sum.splits)
  moreover have "g1 = g \<and> ((\<exists>n. new_provider (sdk T) n = Inl e) \<or>
         exporter = None \<and> ((\<exists>m. e = value_error m) \<or>
           (\<exists>kind. new_exporter (sdk T) kind = Inl e \<or> new_batch (sdk T) kind = Inl e)))" if "r = Inl e" for e
    using that assms(5) configured_provider_error [of "sdk T" environ name exporter e]
    by (auto simp: init_tracing_def split: sum.splits)
  ultimately show ?thesis using assms(2-4) by (auto simp: shutdown_tracing_def split: sum.split)
qed

theorem tracing_lifecycle_witness:
  "\<exists>g2. shutdown_tracing once_otel g2 = (Inr (), (fst g2, [''a''])) \<and> map_option service_name (fst g2) = Some ''a''"
proof -
  obtain r g1 where first: "init_tracing once_otel Map.empty (Some ''a'') (Some (0 :: nat)) (None, []) = (r, g1)"
    by (rule prod.exhaust)
  obtain r' g2 where second: "init_tracing once_otel Map.empty (Some ''b'') (Some 0) g1 = (r', g2)"
    by (rule prod.exhaust)
  have r: "r = Inr \<lparr>service_name = ''a'', processors = [SimpleProcessor 0]\<rparr>"
    using first by (simp add: init_tracing_def configured_provider_def once_otel_def)
  have log: "snd g2 = []"
    using first second by (auto simp: init_tracing_def once_otel_def split: sum.splits)
  have "shutdown_attr once_otel = map_option once_shut" by (simp add: once_otel_def)
  from tracing_lifecycle [where installed = fst, OF _ _ this _ first second] r
  have "fst g2 = Some \<lparr>service_name = ''a'', processors = [SimpleProcessor 0]\<rparr>"
      "shutdown_tracing once_otel g2 = once_shut \<lparr>service_name = ''a'', processors = [SimpleProcessor 0]\<rparr> g2"
    by (simp_all add: once_otel_def split: option.split)
  with log show ?thesis by (intro exI [of _ g2]) (simp add: once_shut_def)
qed

end
