(* ===== verification/Coroutines.thy ===== *)
theory Coroutines
  imports Errors
begin

section \<open>Coroutines and tasks\<close>

text \<open>
  What \<open>async def\<close> and \<open>asyncio\<close> give the code.  A coroutine is resumed by \<open>send(None)\<close>, by an exception
  thrown in at its \<open>await\<close>, or by the cancellation of its task; it then suspends again or finishes.  It may
  suspend for ever, so it is a codatatype.  \<open>CancelledError\<close> is no \<open>Exception\<close>, so it is a result of its own.
\<close>

datatype wakeup = Send | Throw exn | Cancel

datatype 'a task_result = Returned 'a | Raised exn | Cancelled

codatatype ('s, 'a) coro =
  Coro (resume: "wakeup \<Rightarrow> 's \<Rightarrow> (('s, 'a) coro + 'a task_result) \<times> 's")

text \<open>A coroutine whose body has not begun: what is thrown in comes out at once.\<close>

fun thrown :: "wakeup \<Rightarrow> 'a task_result option" where
  "thrown Send = None"
| "thrown (Throw e) = Some (Raised e)"
| "thrown Cancel = Some Cancelled"

definition unstarted :: "('s, 'a) coro \<Rightarrow> bool" where
  "unstarted c \<longleftrightarrow> (\<forall>w out st. thrown w = Some out \<longrightarrow> resume c w st = (Inr out, st))"

text \<open>
  The event loop: tasks share the state of the process, each has a context of its own (\<open>'l\<close>), and a
  schedule, an arbitrary list of task numbers and wake-ups, says which runs until its next \<open>await\<close>.
\<close>

type_synonym ('s, 'l, 'a) task = "(('s \<times> 'l, 'a) coro + 'a task_result) \<times> 'l"

definition step_task ::
  "nat \<times> wakeup \<Rightarrow> ('s, 'l, 'a) task list \<times> 's \<Rightarrow> ('s, 'l, 'a) task list \<times> 's" where
  "step_task iw tss =
     (case (iw, tss) of ((i, w), (ts, s)) \<Rightarrow>
        if i < length ts then
          (case ts ! i of
             (Inl c, l) \<Rightarrow> (case resume c w (s, l) of (r, s', l') \<Rightarrow> (ts[i := (r, l')], s'))
           | (Inr _, _) \<Rightarrow> (ts, s))
        else (ts, s))"

definition run_tasks ::
  "(nat \<times> wakeup) list \<Rightarrow> ('s, 'l, 'a) task list \<times> 's \<Rightarrow> ('s, 'l, 'a) task list \<times> 's" where
  "run_tasks schedule = fold step_task schedule"

definition outcome :: "('s, 'l, 'a) task \<Rightarrow> 'a task_result option" where
  "outcome t = (case fst t of Inl _ \<Rightarrow> None | Inr r \<Rightarrow> Some r)"

text \<open>Two coroutines that cannot be told apart but for what they keep in their own contexts.\<close>

coinductive same_run :: "('s \<times> 'l, 'a) coro \<Rightarrow> ('s \<times> 'm, 'a) coro \<Rightarrow> bool" where
  "(\<And>w s l m r s' l' q t' m'.
      resume c w (s, l) = (r, s', l') \<Longrightarrow> resume d w (s, m) = (q, t', m') \<Longrightarrow>
      s' = t' \<and> (\<forall>c'. r = Inl c' \<longrightarrow> (\<exists>d'. q = Inl d' \<and> same_run c' d')) \<and> (\<forall>x. r = Inr x \<longrightarrow> q = Inr x)) \<Longrightarrow>
    same_run c d"

lemma same_run_step:
  assumes "same_run c d" and "resume c w (s, l) = (r, s', l')" and "resume d w (s, m) = (q, t', m')"
  shows "s' = t' \<and> (\<forall>c'. r = Inl c' \<longrightarrow> (\<exists>d'. q = Inl d' \<and> same_run c' d')) \<and> (\<forall>x. r = Inr x \<longrightarrow> q = Inr x)"
  using assms(1)
proof (cases rule: same_run.cases)
  case 1
  from 1 [OF assms(2,3)] show ?thesis .
qed

text \<open>
  A simulation between two systems of tasks is one between their tasks, whatever the schedule.
\<close>

definition task_sim ::
  "(('s \<times> 'l, 'a) coro \<Rightarrow> 'l \<Rightarrow> ('s \<times> 'm, 'a) coro \<Rightarrow> 'm \<Rightarrow> bool) \<Rightarrow> ('l \<Rightarrow> 'm \<Rightarrow> bool) \<Rightarrow>
     ('s, 'l, 'a) task \<Rightarrow> ('s, 'm, 'a) task \<Rightarrow> bool" where
  "task_sim R F t u =
     (case (t, u) of
        ((Inl c, l), (Inl d, m)) \<Rightarrow> R c l d m
      | ((Inr x, l), (Inr y, m)) \<Rightarrow> x = y \<and> F l m
      | _ \<Rightarrow> False)"

lemma task_sim_outcome: "task_sim R F t u \<Longrightarrow> outcome t = outcome u"
  by (cases t; cases u; cases "fst t"; cases "fst u") (auto simp: task_sim_def outcome_def)

locale coroutine_simulation =
  fixes R :: "('s \<times> 'l, 'a) coro \<Rightarrow> 'l \<Rightarrow> ('s \<times> 'm, 'a) coro \<Rightarrow> 'm \<Rightarrow> bool"
    and F :: "'l \<Rightarrow> 'm \<Rightarrow> bool"
  assumes step_sim: "R c l d m \<Longrightarrow> resume c w (s, l) = (r, s', l') \<Longrightarrow> resume d w (s, m) = (q, t', m') \<Longrightarrow>
    s' = t' \<and> task_sim R F (r, l') (q, m')"
begin

lemma step_task_sim:
  assumes "list_all2 (task_sim R F) ts us" and "step_task iw (ts, s) = (ts', s')"
    and "step_task iw (us, s) = (us', t')"
  shows "list_all2 (task_sim R F) ts' us' \<and> s' = t'"
proof (cases iw)
  case (Pair i w)
  note len = list_all2_lengthD [OF assms(1)]
  show ?thesis
  proof (cases "i < length ts")
    case False
    with assms Pair len show ?thesis by (simp add: step_task_def)
  next
    case True
    then have sim: "task_sim R F (ts ! i) (us ! i)" using assms(1) by (simp add: list_all2_conv_all_nth)
    obtain x l y m where tu: "ts ! i = (x, l)" "us ! i = (y, m)" by fastforce
    show ?thesis
    proof (cases x)
      case (Inr out)
      with sim tu obtain out' where "y = Inr out'" by (cases y) (auto simp: task_sim_def)
      with assms Pair True len Inr tu show ?thesis by (simp add: step_task_def)
    next
      case (Inl c)
      with sim tu obtain d where d: "y = Inl d" "R c l d m" by (cases y) (auto simp: task_sim_def)
      obtain r s1 l' where rc: "resume c w (s, l) = (r, s1, l')" by (rule prod_cases3)
      obtain q t1 m' where rd: "resume d w (s, m) = (q, t1, m')" by (rule prod_cases3)
      from assms(2,3) Pair True len tu Inl d rc rd
      have "ts' = ts[i := (r, l')]" "us' = us[i := (q, m')]" "s' = s1" "t' = t1"
        by (simp_all add: step_task_def)
      with step_sim [OF d(2) rc rd] assms(1) show ?thesis by (simp add: list_all2_update_cong)
    qed
  qed
qed

lemma run_tasks_sim:
  assumes "list_all2 (task_sim R F) ts us" and "run_tasks schedule (ts, s) = (ts', s')"
    and "run_tasks schedule (us, s) = (us', t')"
  shows "list_all2 (task_sim R F) ts' us' \<and> s' = t'"
  using assms
proof (induction schedule arbitrary: ts us s)
  case Nil
  then show ?case by (simp add: run_tasks_def)
next
  case (Cons iw schedule)
  obtain ts1 s1 where ts1: "step_task iw (ts, s) = (ts1, s1)" by fastforce
  obtain us1 t1 where us1: "step_task iw (us, s) = (us1, t1)" by fastforce
  from step_task_sim [OF Cons.prems(1) ts1 us1] have "list_all2 (task_sim R F) ts1 us1" "t1 = s1" by simp_all
  with Cons.IH [of ts1 us1 s1] Cons.prems ts1 us1 show ?case by (simp add: run_tasks_def)
qed

lemma outcomes_agree:
  assumes "list_all2 (task_sim R F) ts us" and "run_tasks schedule (ts, s) = (ts', s')"
    and "run_tasks schedule (us, s) = (us', t')"
  shows "s' = t' \<and> map outcome ts' = map outcome us'"
  using run_tasks_sim [OF assms] by (auto simp: list_all2_conv_all_nth list_eq_iff_nth_eq intro: task_sim_outcome)

end

end
