(* ===== verification/Instrumentation.thy ===== *)
theory Instrumentation
  imports Tracing Coroutines
begin

section \<open>Instrumentation decorators\<close>

text \<open>
  \<^verbatim>\<open>observability/decorators.py\<close>.  OpenTelemetry is not part of the repository: the operations of a
  span are what the code calls, kept in order as the events of the running task.  \<open>SpanStart\<close> and \<open>SpanEnd\<close> are
  the entry to and the exit from \<open>with start_as_current_span\<close>; what the exporter does at the exit is
  OpenTelemetry's.  A callable is one that \<open>asyncio.iscoroutinefunction\<close> recognises, whose call only makes a
  coroutine, or any other function, which may also return one.
\<close>

datatype span_kind = SERVER | CLIENT | PRODUCER | CONSUMER | INTERNAL

datatype 'c span_event =
    SpanStart string span_kind "'c option" "(string, pyval) dict"
  | SpanException exn
  | SpanError string
  | SpanEnd

type_synonym ('s, 'c) traced_state = "'s \<times> 'c span_event list"

datatype ('st, 'a) result_value = Value 'a | Awaitable "('st, 'a) coro"

datatype ('st, 'a) callable =
    Plain "'st \<Rightarrow> (exn + ('st, 'a) result_value) \<times> 'st"
  | CoroFunction "('st, 'a) coro"

definition call :: "('st, 'a) callable \<Rightarrow> 'st \<Rightarrow> (exn + ('st, 'a) result_value) \<times> 'st" where
  "call func st = (case func of Plain f \<Rightarrow> f st | CoroFunction c \<Rightarrow> (Inr (Awaitable c), st))"

subsection \<open>The span around a call\<close>

definition sync_runner ::
  "'c span_event \<Rightarrow> (('s, 'c) traced_state \<Rightarrow> (exn + 'b) \<times> ('s, 'c) traced_state) \<Rightarrow>
     ('s, 'c) traced_state \<Rightarrow> (exn + 'b) \<times> ('s, 'c) traced_state" where
  "sync_runner start func st =
     (case st of (s, log) \<Rightarrow>
        (case func (s, log @ [start]) of
           (Inr x, s', log') \<Rightarrow> (Inr x, s', log' @ [SpanEnd])
         | (Inl exc, s', log') \<Rightarrow>
             if catches [Exception] exc
             then (Inl exc, s', log' @ [SpanException exc, SpanError (exn_msg exc), SpanEnd])
             else (Inl exc, s', log' @ [SpanEnd])))"

text \<open>The coroutine \<open>_async_runner()\<close>: its body up to and past the \<open>await\<close>.\<close>

fun close_span :: "'a task_result \<Rightarrow> 'c span_event list" where
  "close_span (Returned x) = [SpanEnd]"
| "close_span (Raised exc) =
     (if catches [Exception] exc then [SpanException exc, SpanError (exn_msg exc), SpanEnd] else [SpanEnd])"
| "close_span Cancelled = [SpanEnd]"

definition after_await ::
  "('b + 'a task_result) \<times> ('s, 'c) traced_state \<Rightarrow> ('b + 'a task_result) \<times> ('s, 'c) traced_state" where
  "after_await rst =
     (case rst of
        (Inl c, st) \<Rightarrow> (Inl c, st)
      | (Inr out, s, log) \<Rightarrow> (Inr out, s, log @ close_span out))"

primcorec in_span :: "(('s, 'c) traced_state, 'a) coro \<Rightarrow> (('s, 'c) traced_state, 'a) coro" where
  "resume (in_span c) = (\<lambda>w st. map_prod (map_sum in_span id) id (after_await (resume c w st)))"

definition async_runner ::
  "'c span_event \<Rightarrow> (('s, 'c) traced_state, 'a) coro \<Rightarrow> (('s, 'c) traced_state, 'a) coro" where
  "async_runner start c =
     Coro (\<lambda>w (s, log).
       case thrown w of
         Some out \<Rightarrow> (Inr out, s, log)
       | None \<Rightarrow> resume (in_span c) w (s, log @ [start]))"

definition run_in_span ::
  "((string, pyval) dict \<Rightarrow> 'c) \<Rightarrow> (('s, 'c) traced_state, 'a) callable \<Rightarrow> string \<Rightarrow> span_kind \<Rightarrow>
     (string, pyval) dict \<Rightarrow> (string, pyval) dict option \<Rightarrow> ('s, 'c) traced_state \<Rightarrow>
     (exn + (('s, 'c) traced_state, 'a) result_value) \<times> ('s, 'c) traced_state" where
  "run_in_span extract func span_name kind attributes carrier st =
     (let parent = map_option (extract_trace_context extract) carrier;
          start = SpanStart span_name kind parent attributes
      in case func of
           CoroFunction c \<Rightarrow> (Inr (Awaitable (async_runner start c)), st)
         | Plain f \<Rightarrow> sync_runner start f st)"

subsection \<open>The decorators\<close>

text \<open>A decorated callable is the plain function \<open>wrapper\<close>, whatever it wraps.\<close>

definition make_decorator ::
  "span_kind \<Rightarrow> string \<Rightarrow> (string, pyval) dict \<Rightarrow> string option \<Rightarrow> (string, pyval) dict option \<Rightarrow> string \<Rightarrow>
     ((string, pyval) dict \<Rightarrow> 'c) \<Rightarrow> (('s, 'c) traced_state, 'a) callable \<Rightarrow>
     (('s, 'c) traced_state, 'a) callable" where
  "make_decorator kind name_prefix static_attributes name attributes qualname extract func =
     Plain (run_in_span extract func
       (name_prefix @ '' '' @ (case name of None \<Rightarrow> qualname | Some n \<Rightarrow> if n = [] then qualname else n))
       kind (dict_of (static_attributes @ (case attributes of None \<Rightarrow> [] | Some d \<Rightarrow> d))) None)"

definition instrument_http_request where
  "instrument_http_request = make_decorator SERVER ''HTTP'' [(''trustlist.surface'', PStr ''http_request'')]"

definition instrument_db_query where
  "instrument_db_query = make_decorator CLIENT ''DB'' [(''trustlist.surface'', PStr ''db_query'')]"

definition instrument_produce where
  "instrument_produce = make_decorator PRODUCER ''PRODUCE'' [(''trustlist.surface'', PStr ''event_produce'')]"

definition instrument_scheduled_job where
  "instrument_scheduled_job = make_decorator INTERNAL ''JOB'' [(''trustlist.surface'', PStr ''scheduled_job'')]"

text \<open>\<open>kwargs\<close> are the keyword arguments of the call; a carrier that is no mapping is ignored.\<close>

definition instrument_consume ::
  "string option \<Rightarrow> string \<Rightarrow> (string, pyval) dict option \<Rightarrow> string \<Rightarrow>
     ((string, pyval) dict \<Rightarrow> 'c) \<Rightarrow> (string, pyval) dict \<Rightarrow> (('s, 'c) traced_state, 'a) callable \<Rightarrow>
     (('s, 'c) traced_state, 'a) callable" where
  "instrument_consume name carrier_arg attributes qualname extract kwargs func =
     Plain (run_in_span extract func
       (''CONSUME '' @ (case name of None \<Rightarrow> qualname | Some n \<Rightarrow> if n = [] then qualname else n))
       CONSUMER
       (dict_of ([(''trustlist.surface'', PStr ''event_consume'')] @
          (case attributes of None \<Rightarrow> [] | Some d \<Rightarrow> d)))
       (case map_of kwargs carrier_arg of Some (PDict d) \<Rightarrow> Some d | _ \<Rightarrow> None))"

text \<open>\<open>instruments func g\<close>: one of the five decorators made \<open>g\<close> of \<open>func\<close>.\<close>

inductive instruments ::
  "(('s, 'c) traced_state, 'a) callable \<Rightarrow> (('s, 'c) traced_state, 'a) callable \<Rightarrow> bool" where
  "instruments func (instrument_http_request name attributes qualname extract func)"
| "instruments func (instrument_db_query name attributes qualname extract func)"
| "instruments func (instrument_produce name attributes qualname extract func)"
| "instruments func (instrument_scheduled_job name attributes qualname extract func)"
| "instruments func (instrument_consume name carrier_arg attributes qualname extract kwargs func)"

lemma instruments_run:
  assumes "instruments func g"
  obtains (decorated) ex n k a car where "g = Plain (run_in_span ex func n k a car)"
  using assms
  by cases (auto simp: instrument_http_request_def instrument_db_query_def instrument_produce_def
      instrument_scheduled_job_def instrument_consume_def make_decorator_def)

subsection \<open>Balanced spans\<close>

text \<open>Events in which every started span is ended, inner spans before outer ones.\<close>

inductive well_nested :: "'c span_event list \<Rightarrow> bool" where
  none: "well_nested []"
| seq: "well_nested es \<Longrightarrow> well_nested fs \<Longrightarrow> well_nested (es @ fs)"
| span: "well_nested es \<Longrightarrow> well_nested (SpanStart n k c a # es @ [SpanEnd])"
| failed: "well_nested es \<Longrightarrow>
    well_nested (SpanStart n k c a # es @ [SpanException e, SpanError m, SpanEnd])"

definition traced :: "(('s, 'c) traced_state \<Rightarrow> (exn + 'b) \<times> ('s, 'c) traced_state) \<Rightarrow> bool" where
  "traced f \<longleftrightarrow> (\<forall>s log. \<exists>es. well_nested es \<and> snd (snd (f (s, log))) = log @ es)"

lemma traced_sync_runner:
  assumes "traced func"
  shows "traced (sync_runner (SpanStart n k c a) func)"
  unfolding traced_def
proof (intro allI)
  fix s log
  let ?start = "SpanStart n k c a"
  obtain r s' log' where f: "func (s, log @ [?start]) = (r, s', log')" by (cases "func (s, log @ [?start])")
  with assms obtain es where es: "well_nested es" "log' = (log @ [?start]) @ es"
    unfolding traced_def by (metis snd_conv)
  show "\<exists>es. well_nested es \<and> snd (snd (sync_runner ?start func (s, log))) = log @ es"
  proof (cases r)
    case (Inl e)
    with f es show ?thesis
      by (cases "catches [Exception] e")
        (auto simp: sync_runner_def intro: well_nested.span well_nested.failed)
  next
    case (Inr x)
    with f es show ?thesis by (auto simp: sync_runner_def intro: well_nested.span)
  qed
qed

lemma sync_runner_result:
  "fst (sync_runner start func (s, log)) = fst (func (s, log @ [start]))"
  "fst (snd (sync_runner start func (s, log))) = fst (snd (func (s, log @ [start])))"
  by (auto simp: sync_runner_def split: prod.splits sum.splits)

lemma run_in_span_plain:
  "run_in_span extract (Plain f) n k a c = sync_runner (SpanStart n k (map_option (extract_trace_context extract) c) a) f"
  by (simp add: run_in_span_def fun_eq_iff)

lemma run_in_span_coro:
  "run_in_span extract (CoroFunction c) n k a carrier st =
     (Inr (Awaitable (async_runner (SpanStart n k (map_option (extract_trace_context extract) carrier) a) c)), st)"
  by (simp add: run_in_span_def)

subsection \<open>Coroutines in spans\<close>

text \<open>
  A coroutine that has logged \<open>es\<close> so far appends to the events of its task and, when it finishes, has logged
  balanced spans.
\<close>

coinductive leaves_balanced :: "(('s, 'c) traced_state, 'a) coro \<Rightarrow> 'c span_event list \<Rightarrow> bool" where
  "(\<And>w s log r s' log'. resume c w (s, log @ es) = (r, s', log') \<Longrightarrow>
      \<exists>ds. log' = log @ es @ ds \<and> (\<forall>c'. r = Inl c' \<longrightarrow> leaves_balanced c' (es @ ds)) \<and>
        (\<forall>x. r = Inr x \<longrightarrow> well_nested (es @ ds))) \<Longrightarrow>
    leaves_balanced c es"

lemma leaves_balanced_step:
  assumes "leaves_balanced c es" and "resume c w (s, log @ es) = (r, s', log')"
  shows "\<exists>ds. log' = log @ es @ ds \<and> (\<forall>c'. r = Inl c' \<longrightarrow> leaves_balanced c' (es @ ds)) \<and>
    (\<forall>x. r = Inr x \<longrightarrow> well_nested (es @ ds))"
  using assms(1)
proof (cases rule: leaves_balanced.cases)
  case 1
  from 1 [OF assms(2)] show ?thesis .
qed

lemma resume_in_span:
  "resume (in_span c) w st =
     (case resume c w st of
        (Inl c', st') \<Rightarrow> (Inl (in_span c'), st')
      | (Inr out, s, log) \<Rightarrow> (Inr out, s, log @ close_span out))"
  by (auto simp: after_await_def split: prod.splits sum.splits)

lemma well_nested_closed:
  "well_nested es \<Longrightarrow> well_nested (SpanStart n k c a # es @ close_span out)"
  by (cases out) (auto intro: well_nested.span well_nested.failed)

lemma in_span_step:
  assumes "leaves_balanced c es" and "resume (in_span c) w (s, log @ SpanStart n k p a # es) = (r, s', log')"
  shows "\<exists>ds. log' = log @ (SpanStart n k p a # es) @ ds \<and>
    (\<forall>c'. r = Inl c' \<longrightarrow> (\<exists>d. c' = in_span d \<and> leaves_balanced d (es @ ds))) \<and>
    (\<forall>x. r = Inr x \<longrightarrow> well_nested (SpanStart n k p a # es @ ds))"
proof -
  obtain q s1 log1 where q: "resume c w (s, (log @ [SpanStart n k p a]) @ es) = (q, s1, log1)" by (rule prod_cases3)
  from leaves_balanced_step [OF assms(1) q] obtain ds where ds: "log1 = log @ SpanStart n k p a # es @ ds"
      "\<And>d. q = Inl d \<Longrightarrow> leaves_balanced d (es @ ds)" "\<And>x. q = Inr x \<Longrightarrow> well_nested (es @ ds)"
    by auto
  have run: "(case (q, s1, log1) of (Inl c', st') \<Rightarrow> (Inl (in_span c'), st')
      | (Inr out, s, log) \<Rightarrow> (Inr out, s, log @ close_span out)) = (r, s', log')"
    using assms(2) q by (simp only: resume_in_span append.simps append_assoc)
  show ?thesis
  proof (cases q)
    case (Inl d)
    with run ds(1) have "r = Inl (in_span d)" "log' = log @ (SpanStart n k p a # es) @ ds" by simp_all
    with ds(2) [OF Inl] show ?thesis by auto
  next
    case (Inr out)
    with run ds(1) have "r = Inr out" "log' = log @ (SpanStart n k p a # es) @ (ds @ close_span out)" by simp_all
    with well_nested_closed [OF ds(3) [OF Inr], of n k p a out] show ?thesis by auto
  qed
qed

lemma in_span_balanced:
  assumes "leaves_balanced c es"
  shows "leaves_balanced (in_span c) (SpanStart n k p a # es)"
  using assms
proof (coinduction arbitrary: c es)
  case (leaves_balanced c es)
  show ?case
    using in_span_step [OF leaves_balanced] by fastforce
qed

lemma async_runner_balanced:
  assumes "leaves_balanced c []"
  shows "leaves_balanced (async_runner (SpanStart n k p a) c) []"
proof (rule leaves_balanced.intros)
  fix w s log r s' log'
  assume run: "resume (async_runner (SpanStart n k p a) c) w (s, log @ []) = (r, s', log')"
  show "\<exists>ds. log' = log @ [] @ ds \<and> (\<forall>c'. r = Inl c' \<longrightarrow> leaves_balanced c' ([] @ ds)) \<and>
      (\<forall>x. r = Inr x \<longrightarrow> well_nested ([] @ ds))"
  proof (cases "w = Send")
    case False
    with run have "isl r = False \<and> log' = log"
      by (cases w) (auto simp: async_runner_def)
    then show ?thesis by (auto intro: well_nested.none)
  next
    case True
    with run have "resume (in_span c) w (s, log @ [SpanStart n k p a]) = (r, s', log')"
      by (simp add: async_runner_def del: in_span.simps)
    from leaves_balanced_step [OF in_span_balanced [OF assms] this] obtain ds where
      "log' = log @ [SpanStart n k p a] @ ds"
      "\<forall>c'. r = Inl c' \<longrightarrow> leaves_balanced c' ([SpanStart n k p a] @ ds)"
      "\<forall>x. r = Inr x \<longrightarrow> well_nested ([SpanStart n k p a] @ ds)" by blast
    then show ?thesis by (intro exI [of _ "[SpanStart n k p a] @ ds"]) simp
  qed
qed

text \<open>The span is invisible to the coroutine's caller.\<close>

lemma in_span_same_run:
  assumes "same_run c d"
  shows "same_run (in_span c) d"
  using assms
proof (coinduction arbitrary: c d)
  case (same_run c d)
  have "s' = t' \<and> (\<forall>x. r = Inl x \<longrightarrow> (\<exists>c' d'. x = in_span c' \<and> q = Inl d' \<and> same_run c' d')) \<and>
      (\<forall>x. r = Inr x \<longrightarrow> q = Inr x)"
    if "resume (in_span c) w (s, l) = (r, s', l')" "resume d w (s, m) = (q, t', m')" for w s l m r s' l' q t' m'
  proof -
    obtain r1 s1 l1 where r1: "resume c w (s, l) = (r1, s1, l1)" by (rule prod_cases3)
    from that(1) have run: "(case (r1, s1, l1) of (Inl c', st') \<Rightarrow> (Inl (in_span c'), st')
        | (Inr out, s, log) \<Rightarrow> (Inr out, s, log @ close_span out)) = (r, s', l')"
      by (simp only: resume_in_span r1)
    from same_run_step [OF same_run r1 that(2)] run show ?thesis by (cases r1) auto
  qed
  then show ?case by fastforce
qed

lemma async_runner_same_run:
  assumes "same_run c d" and "unstarted d"
  shows "same_run (async_runner start c) d"
proof (rule same_run.intros)
  fix w s l m r s' l' q t' m'
  assume run: "resume (async_runner start c) w (s, l) = (r, s', l')" "resume d w (s, m) = (q, t', m')"
  show "s' = t' \<and> (\<forall>c'. r = Inl c' \<longrightarrow> (\<exists>d'. q = Inl d' \<and> same_run c' d')) \<and> (\<forall>x. r = Inr x \<longrightarrow> q = Inr x)"
  proof (cases "w = Send")
    case False
    with run assms(2) show ?thesis by (cases w) (auto simp: async_runner_def unstarted_def)
  next
    case True
    with run(1) have "resume (in_span c) w (s, l @ [start]) = (r, s', l')"
      by (simp add: async_runner_def del: in_span.simps)
    from same_run_step [OF in_span_same_run [OF assms(1)] this run(2)] show ?thesis .
  qed
qed

definition span_sim ::
  "(('s, 'c) traced_state, 'a) coro \<Rightarrow> 'c span_event list \<Rightarrow> ('s \<times> 'm, 'a) coro \<Rightarrow> 'm \<Rightarrow> bool" where
  "span_sim c l d m \<longleftrightarrow> same_run c d \<and> leaves_balanced c l"

definition span_end :: "'c span_event list \<Rightarrow> 'm \<Rightarrow> bool" where
  "span_end l m \<longleftrightarrow> well_nested l"

lemma span_sim_step:
  assumes "span_sim c l d m"
    and run: "resume c w (s, l) = (r, s', l')" "resume d w (s, m) = (q, t', m')"
  shows "s' = t' \<and> task_sim span_sim span_end (r, l') (q, m')"
proof -
  from assms(1) have bal: "leaves_balanced c l" and same: "same_run c d" by (simp_all add: span_sim_def)
  from leaves_balanced_step [OF bal, of w s "[]" r s' l'] run(1)
  have "\<forall>c'. r = Inl c' \<longrightarrow> leaves_balanced c' l'" "\<forall>x. r = Inr x \<longrightarrow> well_nested l'" by auto
  with same_run_step [OF same run] show ?thesis
    by (cases r) (auto simp: task_sim_def span_sim_def span_end_def)
qed

interpretation spans: coroutine_simulation span_sim span_end
  by unfold_locales (rule span_sim_step)

lemma finished_balanced: "task_sim span_sim span_end t u \<Longrightarrow> outcome t \<noteq> None \<Longrightarrow> well_nested (snd t)"
  by (cases t; cases u; cases "fst t"; cases "fst u") (auto simp: task_sim_def outcome_def span_end_def)

text \<open>\<open>create_task(g(...))\<close>: the call, then a task over the coroutine it returns.\<close>

definition spawn :: "(('s, 'c) traced_state, 'a) callable \<Rightarrow> 's \<Rightarrow> ('s, 'c span_event list, 'a) task" where
  "spawn g s =
     (case call g (s, []) of
        (Inr (Awaitable c), _, log) \<Rightarrow> (Inl c, log)
      | (Inr (Value x), _, log) \<Rightarrow> (Inr (Returned x), log)
      | (Inl e, _, log) \<Rightarrow> (Inr (Raised e), log))"

text \<open>A coroutine function whose coroutine does not look at the spans it is run in and balances its own.\<close>

inductive handler :: "(('s, 'c) traced_state, 'a) callable \<Rightarrow> bool" where
  "unstarted c \<Longrightarrow> same_run c c \<Longrightarrow> leaves_balanced c [] \<Longrightarrow> handler (CoroFunction c)"

lemma spawn_instrumented:
  assumes "handler func" and "instruments func g"
  shows "task_sim span_sim span_end (spawn g s) (spawn func s)"
proof -
  from assms(1) obtain c where c: "func = CoroFunction c" "unstarted c" "same_run c c" "leaves_balanced c []"
    by cases auto
  from assms(2) c(1) obtain ex n k a car where "g = Plain (run_in_span ex (CoroFunction c) n k a car)"
    by (auto elim: instruments_run)
  with c async_runner_same_run [OF c(3,2)] async_runner_balanced [OF c(4)] show ?thesis
    by (simp add: spawn_def call_def run_in_span_coro task_sim_def span_sim_def)
qed

text \<open>A handler that awaits once and then counts: an exception or a cancellation there ends it.\<close>

definition demo_rest :: "(nat \<times> 'l, nat) coro" where
  "demo_rest = Coro (\<lambda>w (s, l). case thrown w of
     Some out \<Rightarrow> (Inr out, s, l) | None \<Rightarrow> (Inr (Returned s), Suc s, l))"

definition demo_coro :: "(nat \<times> 'l, nat) coro" where
  "demo_coro = Coro (\<lambda>w (s, l). case thrown w of
     Some out \<Rightarrow> (Inr out, s, l) | None \<Rightarrow> (Inl demo_rest, s, l))"

definition demo_handler :: "((nat, 'c) traced_state, nat) callable" where
  "demo_handler = CoroFunction demo_coro"

lemma demo_resume:
  "resume demo_rest w (s, l) = (case w of Send \<Rightarrow> (Inr (Returned s), Suc s, l)
     | Throw e \<Rightarrow> (Inr (Raised e), s, l) | Cancel \<Rightarrow> (Inr Cancelled, s, l))"
  "resume demo_coro w (s, l) = (case w of Send \<Rightarrow> (Inl demo_rest, s, l)
     | Throw e \<Rightarrow> (Inr (Raised e), s, l) | Cancel \<Rightarrow> (Inr Cancelled, s, l))"
  by (cases w; simp add: demo_rest_def demo_coro_def)+

lemma demo_handler: "handler demo_handler"
  unfolding demo_handler_def
proof (rule handler.intros)
  show "unstarted (demo_coro :: ((nat, 'c) traced_state, nat) coro)"
    unfolding unstarted_def by (intro allI impI, rename_tac w out st, case_tac w) (auto simp: demo_resume)
  have "same_run (demo_rest :: ((nat, 'c) traced_state, nat) coro) (demo_rest :: ((nat, 'c) traced_state, nat) coro)"
    by (rule same_run.intros) (auto simp: demo_resume split: wakeup.splits)
  then show "same_run (demo_coro :: ((nat, 'c) traced_state, nat) coro) (demo_coro :: ((nat, 'c) traced_state, nat) coro)"
    by (intro same_run.intros) (auto simp: demo_resume split: wakeup.splits)
  have "leaves_balanced (demo_rest :: ((nat, 'c) traced_state, nat) coro) []"
    by (rule leaves_balanced.intros) (auto simp: demo_resume intro: well_nested.none split: wakeup.splits)
  then show "leaves_balanced (demo_coro :: ((nat, 'c) traced_state, nat) coro) []"
    by (intro leaves_balanced.intros) (auto simp: demo_resume intro: well_nested.none split: wakeup.splits)
qed

subsection \<open>Properties\<close>

text \<open>
  An instrumented function behaves as the function itself: it returns or raises exactly
  what the function does and leaves its state, and whatever the outcome its span, and every
  span started inside it, is ended, inner ones first.
\<close>

theorem instrumented_call_transparent:
  assumes "traced func" and "instruments (Plain func) g"
  shows "traced (call g) \<and>
    (\<exists>start. fst (call g (s, log)) = fst (func (s, log @ [start])) \<and>
       fst (snd (call g (s, log))) = fst (snd (func (s, log @ [start]))))"
proof -
  from assms(2) obtain ex n k a car where g: "g = Plain (run_in_span ex (Plain func) n k a car)"
    by (rule instruments_run)
  let ?start = "SpanStart n k (map_option (extract_trace_context ex) car) a"
  have "call g = sync_runner ?start func"
    by (simp add: g call_def fun_eq_iff run_in_span_plain [symmetric])
  then show ?thesis
    using traced_sync_runner [OF assms(1)] sync_runner_result [of ?start func s log]
    by (metis (no_types, lifting))
qed

theorem instrumented_call_transparent_witness:
  "traced (call (instrument_consume None ''carrier'' None ''h'' (\<lambda>d. d) [(''carrier'', PDict [(''traceparent'', PStr ''00'')])]
     (Plain (\<lambda>(s, log). (Inl (value_error ''boom'') :: exn + ((nat, (string, pyval) dict) traced_state, nat) result_value, Suc s, log)))))"
proof -
  have "traced (\<lambda>(s, log :: (string, pyval) dict span_event list).
      (Inl (value_error ''boom'') :: exn + ((nat, (string, pyval) dict) traced_state, nat) result_value, Suc s, log))"
    by (auto simp: traced_def intro: well_nested.none)
  from instrumented_call_transparent [OF this instruments.intros(5), THEN conjunct1] show ?thesis .
qed

text \<open>
  C23: instrumenting coroutine functions changes nothing but the spans: however the event loop
  interleaves, wakes, throws into or cancels the tasks of any number of instrumented handlers, they return, raise, suspend
  and change the shared state exactly as the handlers themselves under the same schedule, and every
  task that has finished, however it did, has ended every span it started, inner ones first.
\<close>

theorem instrumented_tasks_transparent:
  assumes "list_all2 (\<lambda>func g. handler func \<and> instruments func g) funcs gs"
    and "run_tasks schedule (map (\<lambda>g. spawn g s) gs, s) = (ts, s')"
    and "run_tasks schedule (map (\<lambda>f. spawn f s) funcs, s) = (us, t')"
  shows "s' = t' \<and> map outcome ts = map outcome us \<and>
    (\<forall>t \<in> set ts. outcome t \<noteq> None \<longrightarrow> well_nested (snd t))"
proof -
  have start: "list_all2 (task_sim span_sim span_end) (map (\<lambda>g. spawn g s) gs)
      (map (\<lambda>f. spawn f s) funcs)"
    using assms(1) by (auto simp: list_all2_conv_all_nth intro: spawn_instrumented)
  have sim: "list_all2 (task_sim span_sim span_end) ts us"
    using spans.run_tasks_sim [OF start assms(2,3)] by (rule conjunct1)
  have "\<forall>t \<in> set ts. outcome t \<noteq> None \<longrightarrow> well_nested (snd t)"
  proof
    fix t assume "t \<in> set ts"
    then obtain i where "i < length ts" "t = ts ! i" by (auto simp: in_set_conv_nth)
    with sim have "task_sim span_sim span_end t (us ! i)" by (simp add: list_all2_conv_all_nth)
    then show "outcome t \<noteq> None \<longrightarrow> well_nested (snd t)" using finished_balanced by blast
  qed
  with spans.outcomes_agree [OF start assms(2,3)] show ?thesis by blast
qed

theorem instrumented_tasks_transparent_witness:
  "map outcome (fst (run_tasks [(0, Send), (1, Send), (1, Cancel), (0, Send)]
      (map (\<lambda>g. spawn g 0) [instrument_scheduled_job None None ''a'' (\<lambda>d. d) demo_handler,
         instrument_db_query None None ''b'' (\<lambda>d. d) demo_handler], 0)))
    = [Some (Returned 0), Some Cancelled]"
proof -
  let ?fs = "[demo_handler, demo_handler] :: ((nat, (string, pyval) dict) traced_state, nat) callable list"
  let ?gs = "[instrument_scheduled_job None None ''a'' (\<lambda>d. d) demo_handler,
         instrument_db_query None None ''b'' (\<lambda>d. d) demo_handler]
      :: ((nat, (string, pyval) dict) traced_state, nat) callable list"
  let ?sch = "[(0, Send), (1, Send), (1, Cancel), (0, Send)]"
  have ok: "list_all2 (\<lambda>func g. handler func \<and> instruments func g) ?fs ?gs"
    by (simp add: demo_handler instruments.intros)
  obtain ts s' where ts: "run_tasks ?sch (map (\<lambda>g. spawn g 0) ?gs, 0) = (ts, s')" by fastforce
  obtain us t' where us: "run_tasks ?sch (map (\<lambda>f. spawn f 0) ?fs, 0) = (us, t')" by fastforce
  have "map outcome us = [Some (Returned 0), Some Cancelled]"
    using us by (auto simp: run_tasks_def step_task_def spawn_def demo_handler_def call_def demo_resume outcome_def)
  with instrumented_tasks_transparent [OF ok ts us] ts show ?thesis by simp
qed

text \<open>
  C39: a second decorator over an instrumented coroutine function does not see the coroutine: the
  wrapper of the first is a plain function, so the outer span is ended as soon as the call has made the coroutine,
  before the coroutine has run at all, and the coroutine that runs is the one of the inner decorator alone.
\<close>

theorem outer_span_misses_coroutine:
  assumes "instruments (CoroFunction c) g" and "instruments g h"
  shows "\<exists>start inner. call h (s, log) = (Inr (Awaitable inner), s, log @ [start, SpanEnd]) \<and>
     (\<forall>t l. call g (t, l) = (Inr (Awaitable inner), t, l))"
proof -
  from assms(1) obtain ex n k a car where g: "g = Plain (run_in_span ex (CoroFunction c) n k a car)"
    by (rule instruments_run)
  from assms(2) obtain ex' n' k' a' car' where h: "h = Plain (run_in_span ex' g n' k' a' car')"
    by (rule instruments_run)
  show ?thesis
    by (simp add: call_def g h run_in_span_plain run_in_span_coro sync_runner_def)
qed

theorem outer_span_misses_coroutine_witness:
  "\<exists>start inner. call (instrument_http_request None None ''h'' (\<lambda>d. d)
       (instrument_db_query None None ''q'' (\<lambda>d. d) demo_handler)) (0, []) =
     (Inr (Awaitable inner), 0, [start, SpanEnd])"
proof -
  let ?g = "instrument_db_query None None ''q'' (\<lambda>d. d) demo_handler
      :: ((nat, (string, pyval) dict) traced_state, nat) callable"
  have "instruments (CoroFunction demo_coro) ?g"
    unfolding demo_handler_def by (rule instruments.intros)
  moreover have "instruments ?g (instrument_http_request None None ''h'' (\<lambda>d. d) ?g)"
    by (rule instruments.intros)
  ultimately show ?thesis
    using outer_span_misses_coroutine [where s = 0 and log = "[]"] by fastforce
qed

end
