(* ===== verification/License_Check.thy ===== *)
theory License_Check
  imports Codec "HOL-Library.List_Lexorder" "HOL-Library.Sublist"
begin

section \<open>The licence-header check\<close>

text \<open>
  \<^verbatim>\<open>ci/check_license_headers.py\<close>.  A path is the list of its parts (\<open>path.parts\<close>); the
  file system below the root is what \<open>rglob\<close> yields, each path with whether it is a directory
  and the text \<open>read_text\<close> decodes of it.
\<close>

type_synonym path = "string list"

record tree_entry =
  entry_path :: path
  is_dir :: bool
  entry_text :: string

definition MARKER :: string where
  "MARKER = ''Licensed under the Apache License, Version 2.0''"

definition CHECKED_SUFFIXES :: "string list" where
  "CHECKED_SUFFIXES = [''.py'', ''.ts'']"

definition SKIP_DIRS :: "string list" where
  "SKIP_DIRS = [''.git'', ''__pycache__'', ''.venv'', ''venv'', ''.mypy_cache'', ''.ruff_cache'',
     ''.pytest_cache'', ''node_modules'', ''versions'', ''dist'', ''coverage'']"

text \<open>
  \<open>path.suffix\<close>: the last part from its last dot on; none when that dot is the first or the last
  character.
\<close>

definition path_suffix :: "path \<Rightarrow> string" where
  "path_suffix p =
     (let name = (if p = [] then [] else last p);
          ext = takeWhile (\<lambda>c. c \<noteq> CHR ''.'') (rev name);
          stem = drop (length ext + 1) (rev name)
      in if ext = [] \<or> stem = [] then [] else CHR ''.'' # rev ext)"

definition iter_source_files :: "tree_entry list \<Rightarrow> tree_entry list" where
  "iter_source_files entries =
     filter (\<lambda>e. \<not> is_dir e \<and> \<not> list_ex (\<lambda>part. part \<in> set SKIP_DIRS) (entry_path e) \<and>
                 path_suffix (entry_path e) \<in> set CHECKED_SUFFIXES)
       (sort_key entry_path entries)"

definition has_header :: "tree_entry \<Rightarrow> bool" where
  "has_header e \<longleftrightarrow> MARKER \<in> set (sublists (take 4096 (entry_text e)))"

text \<open>The exit code, and the paths reported as missing the header.\<close>

definition license_main :: "tree_entry list \<Rightarrow> int \<times> path list" where
  "license_main entries =
     (let missing = filter (\<lambda>e. \<not> has_header e) (iter_source_files entries)
      in if missing \<noteq> [] then (1, map entry_path missing) else (0, []))"

subsection \<open>Properties\<close>

text \<open>
  The check reports exactly what it should: it lists, in path order, precisely the Python and
  TypeScript files below no skipped directory whose first 4096 characters lack the marker, and it
  exits with 0 exactly when there are none.
\<close>

theorem license_check_reports:
  "set (snd (license_main entries)) = entry_path `
     {e \<in> set entries. \<not> is_dir e \<and> set (entry_path e) \<inter> set SKIP_DIRS = {} \<and>
        path_suffix (entry_path e) \<in> set CHECKED_SUFFIXES \<and> \<not> sublist MARKER (take 4096 (entry_text e))} \<and>
   (fst (license_main entries) = 0 \<longleftrightarrow> snd (license_main entries) = []) \<and>
   sorted (snd (license_main entries))"
proof -
  have "sorted (map entry_path (filter P (sort_key entry_path entries)))" for P
    by (rule sorted_filter) simp
  then have "sorted (snd (license_main entries))"
    by (simp add: license_main_def iter_source_files_def Let_def filter_filter del: filter_sort)
  moreover have "snd (license_main entries) = map entry_path (filter (\<lambda>e. \<not> has_header e) (iter_source_files entries))"
      "fst (license_main entries) = 0 \<longleftrightarrow> snd (license_main entries) = []"
    by (simp_all add: license_main_def Let_def)
  moreover have "has_header e \<longleftrightarrow> sublist MARKER (take 4096 (entry_text e))" for e
    by (simp only: has_header_def set_sublists_eq mem_Collect_eq)
  moreover have "list_ex (\<lambda>part. part \<in> set SKIP_DIRS) p \<longleftrightarrow> set p \<inter> set SKIP_DIRS \<noteq> {}" for p
    by (auto simp only: list_ex_iff)
  ultimately show ?thesis by (auto simp: iter_source_files_def)
qed

text \<open>
  A skipped name anywhere in the absolute path hides the file, the checkout's own directory
  included: below a root with such a part the check passes whatever the files hold.
\<close>

theorem skipped_root_passes:
  assumes "part \<in> set root" and "part \<in> set SKIP_DIRS"
  shows "license_main (map (\<lambda>(rel, d, t). \<lparr>entry_path = root @ rel, is_dir = d, entry_text = t\<rparr>) below) = (0, [])"
proof -
  have "iter_source_files (map (\<lambda>(rel, d, t). \<lparr>entry_path = root @ rel, is_dir = d, entry_text = t\<rparr>) below) = []"
    using assms by (auto simp: iter_source_files_def filter_empty_conv list_ex_iff)
  then show ?thesis by (simp add: license_main_def)
qed

end
