(* ===== verification/Spec2Isabelle.thy ===== *)
theory Spec2Isabelle
  imports Rbac Role_Store Audit_Trail Credentials Provider Unit_Of_Work Tokens Idempotency
    Audit_Logging Producer Redelivery Migration_Env Evidence_View Instrumentation License_Check
begin

text \<open>
  The Python code of TrustList core: the shared authentication library, the event-bus SDK, the
  canonical data model with its migration, the observability library and the repository's
  licence check.  The model follows the source file by file; a definition bears the name of the
  function, class or constant it translates, with a prefix (\<open>svc_\<close>, \<open>provider_\<close>, \<open>envelope_\<close>,
  \<open>lru_\<close>, \<open>orm_\<close>, \<open>create_\<close>) where several classes use one name.

  \<^bold>\<open>How effects are modelled.\<close>  An exception is the left summand of \<open>exn + 'a\<close> (Errors: the classes
  of both \<^verbatim>\<open>errors.py\<close> files and the built-in ones with their method resolution order, so that
  \<open>except\<close> is \<open>catches\<close>).  An operation on a mutable object takes the state and returns the outcome
  with the new state, on the error branches too (\<open>andthen\<close>, \<open>try_except\<close> in Prelude).  A Python
  \<open>dict\<close> is an association list with distinct keys in insertion order.

  \<^bold>\<open>Authentication\<close> (\<^verbatim>\<open>auth/trustlist_auth/\<close>).
  Rbac: \<^verbatim>\<open>rbac.py\<close>, the permissions, roles, the three catalogues and their resolution.
  Auth_Db: the two tables the library writes, with the constraints of \<^verbatim>\<open>models.py\<close>.
  Role_Store: \<^verbatim>\<open>role_store.py\<close>.  Audit_Trail: \<^verbatim>\<open>audit.py\<close> and the recording sink of
  \<^verbatim>\<open>testing.py\<close>.  Credentials: \<^verbatim>\<open>passwords.py\<close> and \<^verbatim>\<open>totp.py\<close>.
  Provider: the protocol of \<^verbatim>\<open>provider.py\<close> and the in-memory provider of \<^verbatim>\<open>fake_provider.py\<close>.
  Audit_Logging: the sink of \<^verbatim>\<open>audit.py\<close> that writes to the structured log.
  Auth_Service: \<^verbatim>\<open>service.py\<close>, over a provider and a sink given by their operations.
  Unit_Of_Work: the service inside the caller's transaction, which its \<open>finish\<close> ends.
  Tokens: \<^verbatim>\<open>tokens.py\<close>, on Json, Codec and Sha256 (\<open>json\<close>, \<open>base64\<close>, UTF-8, SHA-256 and HMAC as the
  standard library computes them) and Decode_Errors (the exceptions they raise).
  A service call checks the provider, records the audit row in the caller's transaction, mirrors
  it to the sink and ends sessions where the policy says so; the lemmas show the invariants of
  the provider state and of the tables over every sequence of calls, what each operation returns or
  raises on every branch, which calls end which sessions, that no credential reaches the audit trail, and what
  is atomic when the caller's transaction commits or rolls back.

  \<^bold>\<open>Event bus\<close> (\<^verbatim>\<open>event-bus-sdk/trustlist_event_bus/\<close>).
  Wire_Text: UUID and ISO-8601 text.  Envelope: \<^verbatim>\<open>envelope.py\<close>.  Idempotency: \<^verbatim>\<open>idempotency.py\<close>.
  Schema_Registry: \<^verbatim>\<open>schema_registry.py\<close> and \<^verbatim>\<open>schema_files.py\<close>.  Bus_Config: \<^verbatim>\<open>config.py\<close> and
  \<^verbatim>\<open>admin.py\<close>.  Producer: \<^verbatim>\<open>producer.py\<close>.  Dedup_Store: the store of \<^verbatim>\<open>consumer.py\<close>, with the contract
  a consumer relies on as the locale \<open>dedup_store\<close>, interpreted on the in-memory store.  Consumer: the rest of
  \<^verbatim>\<open>consumer.py\<close>; its lemmas are proved in the locale and hold for every store that keeps the contract.
  Redelivery: sequences of consumer processes over one partition, and the position of a client on it.
  The lemmas show that serialisation loses nothing, that nothing is sent unvalidated, that no offset is committed
  before its event was handled, that within the store's capacity handling is at most once, that \<open>run\<close> returns, and that
  delivery is at least once however often the consumer fails and is restarted; but also that a consumer that goes on
  polling after its handler failed passes the failed event over.

  \<^bold>\<open>Data model\<close> (\<^verbatim>\<open>data-model/\<close>).  Data_Model: the tables of \<^verbatim>\<open>models.py\<close> as their
  classes declare them.  Migration: the statements of the migration on a model of the database's catalogue and
  privileges, under the naming convention that \<^verbatim>\<open>migrations/env.py\<close> hands to Alembic with the models' metadata.
  Migration_Env: \<^verbatim>\<open>migrations/env.py\<close>, which runs the revision in one transaction.  Evidence_View: the query
  of \<open>evidence_current\<close>.  The migration is shown to build the declared schema but for the names of the four check
  constraints, to which the convention is applied twice, to be applied as a whole, once, or not at all, and its grants to
  make the append-only tables append-only.

  \<^bold>\<open>Observability and CI\<close> (\<^verbatim>\<open>observability/\<close>).  Observability: \<^verbatim>\<open>logging.py\<close>.  Tracing: \<^verbatim>\<open>tracing.py\<close> and
  \<^verbatim>\<open>propagation.py\<close>.  Coroutines: what \<open>async def\<close> and \<open>asyncio\<close> are to the code, coroutines as a codatatype and
  tasks under an arbitrary schedule, with the locale \<open>coroutine_simulation\<close>.  Instrumentation:
  \<^verbatim>\<open>decorators.py\<close>, of functions and of coroutine functions; the lemmas show that the spans change nothing of what
  the instrumented code does, under any interleaving, and are balanced.  License_Check: \<^verbatim>\<open>ci/check_license_headers.py\<close>.

  This theory holds the properties that span components: an event published by the producer reaches
  the consumer's handler unchanged, one fact published twice is handled once, and the closed value sets
  of the code are the enum types of the database.

  \<^bold>\<open>Parameters.\<close>  What is not in the repository is an argument: argon2 and pyotp (Credentials),
  the random identifiers, the clock, whether PostgreSQL accepts a statement's values, the jsonschema
  validator and the registry server, the Kafka clients and the admin client, Alembic, the end of a database
  transaction, OpenTelemetry's propagator, constructors, global provider and spans.  What a theorem needs of one is a
  hypothesis, and its witness instantiates it.

  \<^bold>\<open>Bounds and fuel.\<close>  The JSON reader runs on fuel and is started with enough for the text
  (\<open>json_fuel\<close>).  Characters are those up to U+00FF and there are no floats: a JSON text outside this raises
  \<open>OutsideFragment\<close>, which the error theorems name, so that no theorem speaks of such input as if it were accepted.
  Integers are Python's, with CPython's limit of 4300 digits.  Instants are whole microseconds, exact for the years
  up to 2242.  The consumer's \<open>run\<close> takes the list of its iterations, so \<open>None\<close> is a loop that still runs;
  \<open>run_returns\<close> shows when it does not.
  The interpreter's stack is a limit only where \<open>decode_on_stack\<close> takes it as a parameter: a body nested too deeply for
  \<open>json.loads\<close> raises \<open>RecursionError\<close> there.  Elsewhere the texts read and the values rendered are those the stack can
  follow; for \<open>poll_once\<close> a body beyond it is a poll that raises.  \<open>MemoryError\<close> is not modelled.

  \<^bold>\<open>Not modelled.\<close>  The \<^verbatim>\<open>__init__.py\<close> files only export names.
  Of the event loop the closing of a coroutine that is never resumed is left out.  The TypeScript SDK, the
  schema documents, the deployment files and the tests are left out.
\<close>

section \<open>Properties across components\<close>

text \<open>
  C1: what is published reaches the handler unchanged: when \<open>produce\<close> returns an envelope, the client was
  handed a message, and a consumer that polls that message, has not seen its key and finds its
  payload valid calls its handler with that very envelope, records it and commits its offset.
\<close>

theorem published_event_reaches_handler:
  assumes "produce en topic payload et key prov pk ver flush p = (Inr e, p')" and "envelope_ok e"
    and "pe_poll pen = Inr (Some m)" and "msg_error m = None"
    and "\<And>t k raw r. Sent t k raw r \<in> set (drop (length (prod_calls p)) (prod_calls p')) \<Longrightarrow> msg_value m = Some raw"
    and "fst (validate (pe_js pen) (pe_latest pen) (PStr et) (PDict payload) (con_registry c)) = Inr ()"
    and "PStr key \<notin> set (lru_keys (dedup c))" and "pe_handler pen e = Inr ()" and "pe_commit pen = Inr ()"
  shows "case poll_once lru_seen lru_record pen c of
     (r, c') \<Rightarrow> r = Inr (Some e) \<and> con_calls c' = con_calls c @ [Handled e None, Committed m None]"
proof -
  from produce_Inr [OF assms(1)] obtain raw where e: "e = produced_envelope en payload et key prov ver p"
      and raw: "envelope_to_bytes e = Inr raw"
      and calls: "prod_calls p' = prod_calls p @ [Sent topic (message_key pk) raw None, if flush then Flushed else Polled]"
    by blast
  from raw envelope_to_bytes_ok [OF assms(2)] have parsed: "envelope_from_bytes raw = Inr e" by simp
  have "Sent topic (message_key pk) raw None \<in> set (drop (length (prod_calls p)) (prod_calls p'))"
    by (simp add: calls)
  with assms(5) have "msg_value m = Some raw" by blast
  with parsed have dec: "decode m = Inr e" by (simp add: decode_eq)
  obtain reg where "validate (pe_js pen) (pe_latest pen) (PStr et) (PDict payload) (con_registry c) = (Inr (), reg)"
    using assms(6) by (metis prod.collapse)
  moreover have "env_event_type e = PStr et" "env_payload e = PDict payload" "env_idempotency_key e = PStr key"
    by (simp_all add: e produced_envelope_def)
  ultimately show ?thesis
    using assms(3,4,7-9) dec
    by (simp add: poll_once_def process_def on_registry_def andthen_def on_dedup_def lru_seen_def
        lru_record_def call_handler_def commit_def call_out_def)
qed

theorem published_event_reaches_handler_witness:
  "case poll_once lru_seen lru_record
      ((demo_poll (\<lambda>_. Inr ()) demo_envelope 0)
        \<lparr>pe_poll := Inr (Some (demo_message (produced_envelope (demo_produce_env (Inr ())) [(''a'', PInt 1)] ''t'' ''k''
             demo_provenance None demo_producer) 0))\<rparr>) demo_consumer of
     (r, c') \<Rightarrow> length (con_calls c') = 2"
proof -
  let ?e = "produced_envelope (demo_produce_env (Inr ())) [(''a'', PInt 1)] ''t'' ''k'' demo_provenance None demo_producer"
  let ?m = "demo_message ?e 0"
  let ?pen = "(demo_poll (\<lambda>_. Inr ()) demo_envelope 0)\<lparr>pe_poll := Inr (Some ?m)\<rparr>"
  note ok = demo_produced_ok [of "Inr ()"]
  note raw = envelope_to_bytes_ok(1) [OF ok]
  let ?p' = "call_client Polled (call_client (Sent ''topic'' None (enc '','' '':'' (envelope_to_dict ?e)) None) demo_producer)"
  have env: "pr_js (demo_produce_env (Inr ())) = (\<lambda>_ _. Inr ())" "pr_send (demo_produce_env (Inr ())) = Inr ()"
    by (simp_all add: demo_produce_env_def)
  have made: "produce (demo_produce_env (Inr ())) ''topic'' [(''a'', PInt 1)] ''t'' ''k'' demo_provenance None None False
      demo_producer = (Inr ?e, ?p')"
    by (simp add: produce_eq env demo_validate send_event_def raw message_key_def)
  have "fst (validate (pe_js ?pen) (pe_latest ?pen) (PStr ''t'') (PDict [(''a'', PInt 1)]) (con_registry demo_consumer)) = Inr ()"
    by (rule validate_passes [OF _ json_true]) (simp_all add: demo_poll_def)
  moreover have "msg_value ?m = Some raw" if "Sent t k raw r \<in> set (drop (length (prod_calls demo_producer)) (prod_calls ?p'))"
    for t k raw r
    using that by (auto simp: call_client_def demo_message_def)
  moreover have "msg_error ?m = None" by (simp add: demo_message_def)
  moreover have "PStr ''k'' \<notin> set (lru_keys (dedup demo_consumer))" by (simp add: demo_consumer_def)
  moreover have "pe_handler ?pen ?e = Inr ()" "pe_commit ?pen = Inr ()" "pe_poll ?pen = Inr (Some ?m)"
    by (simp_all add: demo_poll_def)
  moreover have "con_calls demo_consumer = []" by (simp add: demo_consumer_def)
  ultimately show ?thesis
    using published_event_reaches_handler [OF made ok, of ?pen ?m demo_consumer]
    by (auto split: prod.splits)
qed

text \<open>Handler calls that succeeded on an event with one of two keys.\<close>

fun handled_with :: "pyval set \<Rightarrow> consumer_event \<Rightarrow> bool" where
  "handled_with ks (Handled env None) = (env_idempotency_key env \<in> ks)"
| "handled_with ks _ = False"

lemma count_handled:
  "length (filter (handled_with {PStr k}) evs) \<le> count_list (success_keys evs) (PStr k)"
proof (induction evs)
  case (Cons ev evs)
  have "success_key ev = [PStr k]" if "handled_with {PStr k} ev"
    using that by (cases "({PStr k}, ev)" rule: handled_with.cases) simp_all
  with Cons show ?case by simp
qed simp

lemma count_list_distinct: "distinct xs \<Longrightarrow> count_list xs x \<le> 1"
  by (induction xs) (auto simp: count_list_0_iff)

text \<open>
  C5: one fact is handled once: two producers that derive the keys of an event from payloads equal
  as data, whatever order their dictionaries were filled in and whatever order the key fields were
  named in, publish one logical event; as long as a consumer handles no more distinct keys than its store
  holds, its handler succeeds at most once for both, over any sequence of polls and redeliveries.
\<close>

theorem equal_events_handled_once:
  assumes "derive_idempotency_key et p fs = Inr k" and "derive_idempotency_key et q gs = Inr l"
    and "data_eq (PDict p) (PDict q)" and "mset fs = mset gs"
    and "InMemoryDedupStore capacity = Inr s"
    and "EventConsumer environ gid config registry s extra = Inr c"
    and "card (set (success_keys (con_calls (polls lru_seen lru_record ens c)))) \<le> nat capacity"
  shows "length (filter (handled_with {PStr k, PStr l}) (con_calls (polls lru_seen lru_record ens c))) \<le> 1"
proof -
  have "k = l" using assms(1,2) derive_data_eq [OF assms(3,4), of et] by simp
  moreover have "distinct (success_keys (con_calls (polls lru_seen lru_record ens c)))"
    using polls_handled_once [OF fresh_consumer(2) [OF assms(5,6)]] fresh_consumer(3) [OF assms(5,6)] assms(7)
    by (simp add: handled_once_def)
  ultimately show ?thesis
    using le_trans [OF count_handled count_list_distinct] by simp
qed

definition keyed_envelope :: "string \<Rightarrow> event_envelope" where
  "keyed_envelope k = demo_envelope\<lparr>env_idempotency_key := PStr k\<rparr>"

lemma keyed_calls:
  "con_calls (polls lru_seen lru_record
     [demo_poll (\<lambda>_. Inr ()) (keyed_envelope k) 0, demo_poll (\<lambda>_. Inr ()) (keyed_envelope k) 1] demo_consumer)
     = [Handled (keyed_envelope k) None, Committed (demo_message (keyed_envelope k) 0) None,
        Committed (demo_message (keyed_envelope k) 1) None]"
proof -
  have keyed_ok: "envelope_ok (keyed_envelope k)"
    using demo_envelope_ok by (simp add: envelope_ok_def keyed_envelope_def)
  have keyed_fields: "env_event_type (keyed_envelope k) = PStr ''t''"
      "env_idempotency_key (keyed_envelope k) = PStr k"
    by (simp_all add: keyed_envelope_def demo_envelope_def)
  have msg: "msg_error (demo_message e i) = None" for e i by (simp add: demo_message_def)
  show ?thesis
    by (simp add: polls_def poll_once_def demo_poll_def msg keyed_ok process_def on_registry_def andthen_def
        validate_def get_validator_def keyed_fields json_true on_dedup_def lru_seen_def lru_record_def evict_eq
        call_handler_def commit_def call_out_def demo_consumer_def new_registry_def move_to_end_def)
qed

theorem equal_events_handled_once_witness:
  "\<exists>k l. derive_idempotency_key ''t'' [(''a'', PInt 1), (''b'', PNone)] [''a'', ''b''] = Inr k \<and>
     derive_idempotency_key ''t'' [(''b'', PNone), (''a'', PInt 1)] [''b'', ''a''] = Inr l \<and>
     length (filter (handled_with {PStr k, PStr l})
       [Handled (keyed_envelope k) None, Committed (demo_message (keyed_envelope k) 0) None,
        Committed (demo_message (keyed_envelope k) 1) None]) \<le> 1"
proof -
  have same: "data_eq (PDict [(''a'', PInt 1), (''b'', PNone)]) (PDict [(''b'', PNone), (''a'', PInt 1)])"
    by (auto intro!: data_eq.intros)
  obtain k where k: "derive_idempotency_key ''t'' [(''a'', PInt 1), (''b'', PNone)] [''a'', ''b''] = Inr k"
    by (simp add: derive_Inr str_of_nat.simps)
  obtain l where l: "derive_idempotency_key ''t'' [(''b'', PNone), (''a'', PInt 1)] [''b'', ''a''] = Inr l"
    by (simp add: derive_Inr str_of_nat.simps)
  have few: "card (set (success_keys (con_calls (polls lru_seen lru_record
     [demo_poll (\<lambda>_. Inr ()) (keyed_envelope k) 0, demo_poll (\<lambda>_. Inr ()) (keyed_envelope k) 1] demo_consumer)))) \<le> nat 1"
    unfolding keyed_calls by (simp add: keyed_envelope_def)
  have "mset [''a'', ''b''] = mset [''b'', ''a'']" by simp
  from equal_events_handled_once [OF k l same this fresh_demo_consumer few] k l show ?thesis
    unfolding keyed_calls by blast
qed

text \<open>
  C33: the code and the database agree on the closed value sets: the audit-event types and the
  account archetypes of the library, and the roles of its Foundation-internal catalogue, are
  exactly the values of the enum types the migration creates for their columns, so no value the
  library writes there is refused and none the database admits is unknown to it.
\<close>

theorem enums_match_schema:
  "map_option set (map_of ENUMS ''auth_audit_event_type'') = Some (range event_type_value) \<and>
   map_option set (map_of ENUMS ''user_archetype'') = Some (range archetype_value) \<and>
   map_option set (map_of ENUMS ''foundation_governance_role'') = Some (role_identifier ` set foundation_internal_roles)"
proof -
  have events: "range event_type_value = set (map event_type_value [LOGIN_SUCCESS, LOGIN_FAILURE,
      MFA_CHALLENGE_ISSUED, MFA_CHALLENGE_SUCCESS, MFA_CHALLENGE_FAILURE, PASSWORD_CHANGE, ROLE_GRANT,
      ROLE_REVOKE, ACCOUNT_DISABLE, SESSION_REVOKE])"
    unfolding set_map by (rule arg_cong [of _ _ "image event_type_value"]) (auto intro: auth_event_type.exhaust)
  have archetypes: "range archetype_value = set (map archetype_value [OPERATOR, BRAND_CUSTOMER, FOUNDATION_INTERNAL])"
    unfolding set_map by (rule arg_cong [of _ _ "image archetype_value"]) (auto intro: archetype.exhaust)
  have "map_of ENUMS ''auth_audit_event_type'' = Some (map event_type_value [LOGIN_SUCCESS, LOGIN_FAILURE,
      MFA_CHALLENGE_ISSUED, MFA_CHALLENGE_SUCCESS, MFA_CHALLENGE_FAILURE, PASSWORD_CHANGE, ROLE_GRANT,
      ROLE_REVOKE, ACCOUNT_DISABLE, SESSION_REVOKE])"
    by code_simp
  moreover have "map_of ENUMS ''user_archetype'' =
      Some (map archetype_value [OPERATOR, BRAND_CUSTOMER, FOUNDATION_INTERNAL])"
    by code_simp
  moreover have "map_of ENUMS ''foundation_governance_role'' =
      Some (map (\<lambda>i. role_identifier (foundation_internal_roles ! i)) [2, 3, 4, 1, 0])"
    by code_simp
  moreover have "set (map (\<lambda>i. role_identifier (foundation_internal_roles ! i)) [2, 3, 4, 1, 0]) =
      role_identifier ` set foundation_internal_roles"
  proof -
    obtain a b c d e where five: "foundation_internal_roles = [a, b, c, d, e]"
      by (simp add: foundation_internal_roles_def)
    show ?thesis unfolding five by auto
  qed
  ultimately show ?thesis unfolding events archetypes by (simp only: option.map)
qed

end
